(* ===== verification/Prelude.thy ===== *)
theory Prelude
  imports Main "HOL-Library.Word" "HOL-Library.Multiset"
begin

text \<open>
  Shared vocabulary of the libxively development: the type of C pointers into a pool of
  pre-allocated objects, the faults a C program can run into (undefined behaviour made
  explicit as a value), a checked array read, and the list lemmas about swapping two
  slots of an array that the heap proofs and the chain proofs share.
\<close>

named_theorems slot_simps "rewriting of slot reads after a swap of two array slots"

type_synonym ptr = nat

text \<open>
  A fault is what the C code does where the language gives it no meaning: an access past
  the end of an array, a dereference of a null pointer, a use of freed memory, a failed
  \<open>assert\<close> (which aborts in a debug build), or the use of an indeterminate value (a field of
  uninitialised memory, or the result of calling a \<open>void\<close> function through a pointer to a
  function returning a value).
\<close>

datatype c_fault = Out_of_bounds | Null_deref | Use_after_free | Assert_fail | Indeterminate_value

definition array_get :: "'a list \<Rightarrow> nat \<Rightarrow> c_fault + 'a" where
  "array_get xs i = (if i < length xs then Inr (xs ! i) else Inl Out_of_bounds)"

lemma array_get_in_range [simp]: "i < length xs \<Longrightarrow> array_get xs i = Inr (xs ! i)"
  by (simp add: array_get_def)

lemma array_get_out_of_range [simp]: "length xs \<le> i \<Longrightarrow> array_get xs i = Inl Out_of_bounds"
  by (simp add: array_get_def)

subsection \<open>Swapping two slots of a list\<close>

lemma nth_swap [slot_simps]:
  assumes "a < length xs" "b < length xs"
  shows "xs[a := xs ! b, b := xs ! a] ! k =
         (if k = b then xs ! a else if k = a then xs ! b else xs ! k)"
  using assms by (auto simp: nth_list_update)

lemma nth_update_other_field:
  "f (xs[p := x] ! q) = f (xs ! q)" if "f x = f (xs ! p)"
  using that by (cases "p < length xs"; cases "p = q") (auto simp: list_update_beyond)

lemma map_swap_upt:
  assumes "a < n" "b < n" "n \<le> length xs"
  shows "map (\<lambda>i. xs[a := xs ! b, b := xs ! a] ! i) [0..<n] =
         (map (\<lambda>i. xs ! i) [0..<n])[a := xs ! b, b := xs ! a]"
  using assms by (auto intro!: nth_equalityI simp: nth_list_update)

lemma mset_map_swap_upt:
  assumes "a < n" "b < n"
  shows "mset (map (f \<circ> (\<lambda>i. if i = b then a else if i = a then b else i)) [0..<n]) =
         mset (map f [0..<n])"
proof -
  let ?ys = "map f [0..<n]"
  let ?s = "\<lambda>i. if i = b then a else if i = a then b else i"
  have eq: "map (f \<circ> ?s) [0..<n] = ?ys[b := ?ys ! a, a := ?ys ! b]"
    using assms by (intro nth_equalityI) (auto simp: nth_list_update simp del: map_update)
  have "mset (map (f \<circ> ?s) [0..<n]) = mset (?ys[b := ?ys ! a, a := ?ys ! b])"
    by (simp only: eq)
  also have "mset (?ys[b := ?ys ! a, a := ?ys ! b]) = mset ?ys"
    using assms by (intro mset_swap) simp_all
  finally show ?thesis .
qed

subsection \<open>Lists of allocation outcomes\<close>

lemma False_in_take3:
  assumes "False \<in> set (take 3 xs)"
  shows "\<exists>os. xs = False # os \<or> xs = True # False # os \<or> xs = True # True # False # os"
proof (cases xs)
  case (Cons a t)
  then show ?thesis
    using assms by (cases t; cases "tl t"; cases a; cases "hd t"; auto simp: numeral_3_eq_3)
qed (use assms in simp)

end
