(* ===== verification/Heap.thy ===== *)
theory Heap
  imports Heap_Index
begin

text \<open>
  The scheduling heap of \<^verbatim>\<open>src/src/libxively/xi_datastructures/xi_heap.c\<close>.
  The C heap is an array \<^verbatim>\<open>elements\<close> of pointers to element cells, each cell allocated
  once by \<^verbatim>\<open>xi_heap_create\<close>. The model keeps the same two levels: \<open>elements\<close> maps a
  slot to a pointer, and \<open>cells\<close> is the pool of cells indexed by pointer (the pointer
  of the cell allocated for slot \<open>i\<close> at creation is \<open>i\<close>). A handle returned to the
  caller is a pointer; \<^verbatim>\<open>remove\<close> and \<^verbatim>\<open>update_key\<close> find the slot of a handle through
  the cell's \<open>index\<close> field, which \<^verbatim>\<open>xi_heap_elements_swap\<close> keeps in sync.
  Indices are unbounded \<open>nat\<close>s (the header declaring \<^verbatim>\<open>xi_heap_index_type_t\<close> is not
  under src/; \<open>Heap_Index\<close> relates them to machine words). Keys are any linear order.
  Allocation failure is not modelled here; \<open>Heap_Alloc\<close> follows the blocks of creation
  and destruction through the allocator. Reads of a slot or cell are plain \<open>!\<close>: the
  invariant \<open>heap_wf\<close> shows them in range, except for the read of
  \<^verbatim>\<open>elements[first_free]\<close> in \<^verbatim>\<open>xi_heap_element_add\<close>, which is a checked read, and
  the wrap of \<^verbatim>\<open>first_free - 1\<close> in \<^verbatim>\<open>xi_heap_element_remove\<close> on an empty heap.
\<close>

datatype 'v xi_heap_value = Void_value ptr | Type_value 'v

record ('k, 'v) xi_heap_element =
  index :: nat
  key :: 'k
  heap_value :: "'v xi_heap_value"

record ('k, 'v) xi_heap =
  elements :: "ptr list"
  cells :: "('k, 'v) xi_heap_element list"
  capacity :: nat
  first_free :: nat

definition zero_element :: "('k::zero, 'v) xi_heap_element" where
  "zero_element = \<lparr>index = 0, key = 0, heap_value = Void_value 0\<rparr>"

definition xi_heap_create :: "nat \<Rightarrow> ('k::zero, 'v) xi_heap option" where
  "xi_heap_create cap =
     (if cap = 0 then None
      else Some \<lparr>elements = [0..<cap], cells = replicate cap zero_element,
                 capacity = cap, first_free = 0\<rparr>)"

definition slot_key :: "('k, 'v) xi_heap \<Rightarrow> nat \<Rightarrow> 'k" where
  "slot_key h i = key (cells h ! (elements h ! i))"

definition xi_heap_elements_swap :: "('k, 'v) xi_heap \<Rightarrow> nat \<Rightarrow> nat \<Rightarrow> ('k, 'v) xi_heap" where
  "xi_heap_elements_swap h a b =
     (let es = elements h;
          tmp_elem = es ! a;
          es' = es[a := es ! b, b := tmp_elem];
          pa = es' ! a; pb = es' ! b;
          cs = cells h;
          tmp_index = index (cs ! pa);
          cs' = cs[pa := (cs ! pa)\<lparr>index := index (cs ! pb)\<rparr>];
          cs'' = cs'[pb := (cs' ! pb)\<lparr>index := tmp_index\<rparr>]
      in h\<lparr>elements := es', cells := cs''\<rparr>)"

function xi_heap_fix_order_up :: "('k::linorder, 'v) xi_heap \<Rightarrow> nat \<Rightarrow> ('k, 'v) xi_heap" where
  "xi_heap_fix_order_up h i =
     (if i \<noteq> 0 then
        (let p = PARENT i;
             h' = (if slot_key h i < slot_key h p then xi_heap_elements_swap h i p else h)
         in xi_heap_fix_order_up h' p)
      else h)"
  by pat_completeness auto
termination
  by (relation "measure (\<lambda>(h, i). i)") auto

definition bound_child :: "('k, 'v) xi_heap \<Rightarrow> nat \<Rightarrow> nat \<Rightarrow> nat" where
  "bound_child h i c = (if first_free h \<le> c then i else c)"

function xi_heap_fix_order_down_loop ::
  "bool \<Rightarrow> ('k::linorder, 'v) xi_heap \<Rightarrow> nat \<Rightarrow> ('k, 'v) xi_heap" where
  "xi_heap_fix_order_down_loop first h i =
     (let li = bound_child h i (LEFT i);
          ri = bound_child h i (RIGHT i)
      in if \<not> first \<and> \<not> (i \<noteq> li \<and> i \<noteq> ri) then h
         else if slot_key h li < slot_key h ri then
           (if slot_key h li < slot_key h i
            then xi_heap_fix_order_down_loop False (xi_heap_elements_swap h i li) li
            else h)
         else
           (if slot_key h ri < slot_key h i
            then xi_heap_fix_order_down_loop False (xi_heap_elements_swap h i ri) ri
            else h))"
  by pat_completeness auto
termination
  by (relation "measure (\<lambda>(first, h, i). first_free h - i)")
    (auto simp: bound_child_def xi_heap_elements_swap_def Let_def split: if_splits)

definition xi_heap_fix_order_down :: "('k::linorder, 'v) xi_heap \<Rightarrow> nat \<Rightarrow> ('k, 'v) xi_heap" where
  "xi_heap_fix_order_down h i = xi_heap_fix_order_down_loop True h i"

definition xi_heap_element_insert ::
  "('k::linorder, 'v) xi_heap \<Rightarrow> 'k \<Rightarrow> 'v xi_heap_value
   \<Rightarrow> c_fault + ('k, 'v) xi_heap \<times> ptr option" where
  "xi_heap_element_insert h k v =
     (if capacity h < first_free h then Inr (h, None)
      else case array_get (elements h) (first_free h) of
        Inl f \<Rightarrow> Inl f
      | Inr element \<Rightarrow>
          (let ff = first_free h;
               c = (cells h ! element)\<lparr>index := ff, key := k, heap_value := v\<rparr>;
               h1 = h\<lparr>cells := (cells h)[element := c], first_free := ff + 1\<rparr>
           in Inr (xi_heap_fix_order_up h1 (index (cells h1 ! element)), Some element)))"

definition xi_heap_element_add_void ::
  "('k::linorder, 'v) xi_heap \<Rightarrow> 'k \<Rightarrow> ptr \<Rightarrow> c_fault + ('k, 'v) xi_heap \<times> ptr option" where
  "xi_heap_element_add_void h k value = xi_heap_element_insert h k (Void_value value)"

definition xi_heap_element_add ::
  "('k::linorder, 'v) xi_heap \<Rightarrow> 'k \<Rightarrow> 'v \<Rightarrow> c_fault + ('k, 'v) xi_heap \<times> ptr option" where
  "xi_heap_element_add h k value = xi_heap_element_insert h k (Type_value value)"

definition xi_heap_element_remove ::
  "('k::linorder, 'v) xi_heap \<Rightarrow> ptr \<Rightarrow> c_fault + ('k, 'v) xi_heap" where
  "xi_heap_element_remove h elem =
     (if first_free h = 0 then Inl Out_of_bounds
      else
        (let last_i = first_free h - 1;
             ei = index (cells h ! elem)
         in if last_i \<noteq> ei then
              (let e_i = index (cells h ! (elements h ! ei));
                   h1 = xi_heap_elements_swap h ei last_i;
                   h2 = xi_heap_fix_order_down h1 e_i;
                   h3 = xi_heap_fix_order_up h2 e_i
               in Inr (h3\<lparr>first_free := first_free h3 - 1\<rparr>))
            else Inr (h\<lparr>first_free := first_free h - 1\<rparr>)))"

definition xi_heap_element_update_key ::
  "('k::linorder, 'v) xi_heap \<Rightarrow> ptr \<Rightarrow> 'k \<Rightarrow> ('k, 'v) xi_heap" where
  "xi_heap_element_update_key h elem new_key =
     (let h1 = h\<lparr>cells := (cells h)[elem := (cells h ! elem)\<lparr>key := new_key\<rparr>]\<rparr>;
          e_i = index (cells h1 ! (elements h1 ! index (cells h1 ! elem)));
          h2 = xi_heap_fix_order_down h1 e_i
      in xi_heap_fix_order_up h2 e_i)"

definition xi_heap_get_top :: "('k::linorder, 'v) xi_heap \<Rightarrow> ('k, 'v) xi_heap \<times> ptr option" where
  "xi_heap_get_top h =
     (if first_free h = 0 then (h, None)
      else
        (let last_i = first_free h - 1;
             h1 = h\<lparr>first_free := last_i\<rparr>
         in if last_i \<noteq> 0 then
              (let h2 = xi_heap_elements_swap h1 0 last_i;
                   h3 = xi_heap_fix_order_down h2 0
               in (h3, Some (elements h3 ! last_i)))
            else (h1, Some (elements h1 ! 0))))"

definition xi_heap_peek_top :: "('k, 'v) xi_heap \<Rightarrow> ptr" where
  "xi_heap_peek_top h = elements h ! 0"

definition xi_heap_is_empty :: "('k, 'v) xi_heap \<Rightarrow> 8 word" where
  "xi_heap_is_empty h = (if first_free h = 0 then 1 else 0)"

definition heap_wf :: "('k, 'v) xi_heap \<Rightarrow> bool" where
  "heap_wf h \<longleftrightarrow>
     0 < capacity h \<and> length (elements h) = capacity h \<and> length (cells h) = capacity h \<and>
     first_free h \<le> capacity h \<and> distinct (elements h) \<and> set (elements h) = set [0..<capacity h] \<and>
     map (\<lambda>p. index (cells h ! p)) (take (first_free h) (elements h)) = [0..<first_free h]"

definition heap_live :: "('k, 'v) xi_heap \<Rightarrow> ptr \<Rightarrow> bool" where
  "heap_live h p \<longleftrightarrow> p \<in> set (take (first_free h) (elements h))"

subsection \<open>Well-formedness: slots, cells and back-pointers agree\<close>

declare xi_heap_fix_order_up.simps [simp del] xi_heap_fix_order_down_loop.simps [simp del]

lemma first_free_swap [simp]: "first_free (xi_heap_elements_swap h a b) = first_free h"
  and capacity_swap [simp]: "capacity (xi_heap_elements_swap h a b) = capacity h"
  by (simp_all add: xi_heap_elements_swap_def Let_def)

lemma bound_child_cases: "bound_child h i c = i \<or> (bound_child h i c = c \<and> c < first_free h)"
  by (simp add: bound_child_def)


lemma elements_swap:
  "elements (xi_heap_elements_swap h a b) = (elements h)[a := elements h ! b, b := elements h ! a]"
  by (simp add: xi_heap_elements_swap_def Let_def)

lemma key_cells_swap [simp]:
  "key (cells (xi_heap_elements_swap h a b) ! p) = key (cells h ! p)"
  by (simp add: xi_heap_elements_swap_def Let_def nth_update_other_field)

lemma length_cells_swap [simp]:
  "length (cells (xi_heap_elements_swap h a b)) = length (cells h)"
  by (simp add: xi_heap_elements_swap_def Let_def)

lemma slot_key_swap [slot_simps]:
  assumes "a < length (elements h)" "b < length (elements h)"
  shows "slot_key (xi_heap_elements_swap h a b) k =
         slot_key h (if k = b then a else if k = a then b else k)"
  using assms by (simp add: slot_key_def elements_swap nth_swap)

lemma heap_wfD:
  assumes "heap_wf h"
  shows "0 < capacity h" "length (elements h) = capacity h" "length (cells h) = capacity h"
    "first_free h \<le> capacity h" "distinct (elements h)"
    "\<And>k. k < capacity h \<Longrightarrow> elements h ! k < capacity h"
    "\<And>k l. k < capacity h \<Longrightarrow> l < capacity h \<Longrightarrow> elements h ! k = elements h ! l \<longleftrightarrow> k = l"
    "\<And>k. k < first_free h \<Longrightarrow> index (cells h ! (elements h ! k)) = k"
proof -
  have m: "map (\<lambda>p. index (cells h ! p)) (take (first_free h) (elements h)) = [0..<first_free h]"
    and set: "set (elements h) = set [0..<capacity h]"
    using assms by (simp_all add: heap_wf_def)
  show "0 < capacity h" "length (elements h) = capacity h" "length (cells h) = capacity h"
    "first_free h \<le> capacity h" "distinct (elements h)"
    using assms by (simp_all add: heap_wf_def)
  then show "\<And>k. k < capacity h \<Longrightarrow> elements h ! k < capacity h"
    "\<And>k l. k < capacity h \<Longrightarrow> l < capacity h \<Longrightarrow> elements h ! k = elements h ! l \<longleftrightarrow> k = l"
    using set by (metis atLeastLessThan_iff nth_mem set_upt, simp add: nth_eq_iff_index_eq)
  show "index (cells h ! (elements h ! k)) = k" if "k < first_free h" for k
    using arg_cong [OF m, of "\<lambda>xs. xs ! k"] that \<open>first_free h \<le> capacity h\<close>
      \<open>length (elements h) = capacity h\<close> by simp
qed

lemma heap_wfI:
  assumes "0 < capacity h" "length (elements h) = capacity h" "length (cells h) = capacity h"
    "first_free h \<le> capacity h" "distinct (elements h)" "set (elements h) = set [0..<capacity h]"
    "\<And>k. k < first_free h \<Longrightarrow> index (cells h ! (elements h ! k)) = k"
  shows "heap_wf h"
  using assms by (auto simp: heap_wf_def intro!: nth_equalityI)

lemma heap_wf_swap:
  assumes wf: "heap_wf h" and ab: "a < capacity h" "b < capacity h"
  shows "heap_wf (xi_heap_elements_swap h a b)"
proof (rule heap_wfI)
  let ?es = "elements h"
  note d = heap_wfD [OF wf]
  show "index (cells (xi_heap_elements_swap h a b) ! (elements (xi_heap_elements_swap h a b) ! k)) = k"
    if k: "k < first_free (xi_heap_elements_swap h a b)" for k
    using k ab d by (auto simp: xi_heap_elements_swap_def Let_def nth_list_update)
  show "set (elements (xi_heap_elements_swap h a b)) = set [0..<capacity (xi_heap_elements_swap h a b)]"
    using wf ab by (simp add: elements_swap heap_wf_def)
qed (use wf ab in \<open>simp_all add: heap_wf_def elements_swap\<close>)

lemma fix_order_up_0 [simp]: "xi_heap_fix_order_up h 0 = h"
  by (subst xi_heap_fix_order_up.simps) simp

lemma fix_order_up_preserves:
  assumes step: "\<And>h a b. P h \<Longrightarrow> a < n \<Longrightarrow> b < n \<Longrightarrow> P (xi_heap_elements_swap h a b)"
  shows "P h \<Longrightarrow> i < n \<Longrightarrow> P (xi_heap_fix_order_up h i)"
proof (induction h i rule: xi_heap_fix_order_up.induct)
  case (1 h i)
  show ?case
  proof (cases "i = 0")
    case True
    with "1.prems"(1) show ?thesis by simp
  next
    case False
    let ?p = "PARENT i"
    let ?h' = "if slot_key h i < slot_key h ?p then xi_heap_elements_swap h i ?p else h"
    have p: "?p < n" using False "1.prems"(2) PARENT_less [of i] by linarith
    have "P ?h'" using step [OF "1.prems"(1) "1.prems"(2) p] "1.prems"(1) by simp
    with p have "P (xi_heap_fix_order_up ?h' ?p)" using "1.IH" [OF False refl refl] by blast
    then show ?thesis using False by (simp add: xi_heap_fix_order_up.simps [of h i] Let_def)
  qed
qed

lemma fix_order_down_loop_preserves:
  assumes step: "\<And>h a b. P h \<Longrightarrow> a < n \<Longrightarrow> b < n \<Longrightarrow> P (xi_heap_elements_swap h a b)"
    and bound: "\<And>h. P h \<Longrightarrow> first_free h \<le> n"
  shows "P h \<Longrightarrow> i < n \<Longrightarrow> P (xi_heap_fix_order_down_loop first h i)"
proof (induction first h i rule: xi_heap_fix_order_down_loop.induct)
  case (1 first h i)
  have c: "bound_child h i c < n" for c
    using bound_child_cases [of h i c] bound [OF "1.prems"(1)] "1.prems"(2) by auto
  have sw: "P (xi_heap_elements_swap h i (bound_child h i c))" for c
    using step [OF "1.prems"(1) "1.prems"(2) c] .
  show ?case
    using "1.prems"(1) c sw
    by (auto simp: xi_heap_fix_order_down_loop.simps [of first h i] Let_def intro: "1.IH")
qed

lemma heap_wf_fix_order_up:
  assumes "heap_wf h" "i < capacity h"
  shows "heap_wf (xi_heap_fix_order_up h i)"
proof -
  let ?P = "\<lambda>h'. heap_wf h' \<and> capacity h' = capacity h"
  have step: "?P (xi_heap_elements_swap h' a b)" if "?P h'" "a < capacity h" "b < capacity h" for h' a b
    using that by (simp add: heap_wf_swap)
  show ?thesis using fix_order_up_preserves [of ?P, OF step] assms by blast
qed

lemma heap_wf_fix_order_down:
  assumes "heap_wf h" "i < capacity h"
  shows "heap_wf (xi_heap_fix_order_down h i)"
proof -
  let ?P = "\<lambda>h'. heap_wf h' \<and> capacity h' = capacity h"
  have step: "?P (xi_heap_elements_swap h' a b)" if "?P h'" "a < capacity h" "b < capacity h" for h' a b
    using that by (simp add: heap_wf_swap)
  have bound: "first_free h' \<le> capacity h" if "?P h'" for h'
    using that heap_wfD(4) by fastforce
  show ?thesis unfolding xi_heap_fix_order_down_def
    using fix_order_down_loop_preserves [of ?P, OF step bound] assms by blast
qed

lemma first_free_fix_order_up [simp]: "first_free (xi_heap_fix_order_up h i) = first_free h"
  and capacity_fix_order_up [simp]: "capacity (xi_heap_fix_order_up h i) = capacity h"
proof -
  let ?P = "\<lambda>h'. first_free h' = first_free h \<and> capacity h' = capacity h"
  have "?P (xi_heap_fix_order_up h i)"
    by (rule fix_order_up_preserves [of ?P "Suc i"]) simp_all
  then show "first_free (xi_heap_fix_order_up h i) = first_free h"
    "capacity (xi_heap_fix_order_up h i) = capacity h" by simp_all
qed

lemma first_free_fix_order_down [simp]: "first_free (xi_heap_fix_order_down h i) = first_free h"
  and capacity_fix_order_down [simp]: "capacity (xi_heap_fix_order_down h i) = capacity h"
proof -
  let ?P = "\<lambda>h'. first_free h' = first_free h \<and> capacity h' = capacity h"
  have "?P (xi_heap_fix_order_down_loop True h i)"
    by (rule fix_order_down_loop_preserves [of ?P "max (Suc i) (first_free h)"]) simp_all
  then show "first_free (xi_heap_fix_order_down h i) = first_free h"
    "capacity (xi_heap_fix_order_down h i) = capacity h" by (simp_all add: xi_heap_fix_order_down_def)
qed

lemma heap_wf_shrink:
  assumes "heap_wf h" "n \<le> first_free h"
  shows "heap_wf (h\<lparr>first_free := n\<rparr>)"
  by (rule heap_wfI) (use assms heap_wfD [OF assms(1)] in \<open>auto simp: heap_wf_def\<close>)

lemma heap_live_slot:
  assumes "heap_wf h" "heap_live h p"
  shows "index (cells h ! p) < first_free h" "elements h ! index (cells h ! p) = p"
proof -
  obtain k where k: "k < first_free h" "elements h ! k = p"
    using assms heap_wfD(2,4) [OF assms(1)] unfolding heap_live_def
    by (auto simp: in_set_conv_nth)
  then have "index (cells h ! p) = k" using heap_wfD(8) [OF assms(1)] by auto
  with k show "index (cells h ! p) < first_free h" "elements h ! index (cells h ! p) = p" by simp_all
qed

lemma heap_wf_create: "xi_heap_create n = Some h \<Longrightarrow> heap_wf h \<and> first_free h = 0 \<and> capacity h = n"
  by (auto simp: xi_heap_create_def heap_wf_def split: if_splits)

lemma heap_wf_insert:
  assumes wf: "heap_wf h" and ins: "xi_heap_element_insert h k v = Inr (h', r)"
  shows "heap_wf h'"
proof -
  note d = heap_wfD [OF wf]
  have ff: "first_free h < capacity h"
    using ins d by (auto simp: xi_heap_element_insert_def array_get_def split: if_splits)
  define e where "e = elements h ! first_free h"
  define h1 where "h1 = h\<lparr>cells := (cells h)[e := (cells h ! e)\<lparr>index := first_free h, key := k,
                      heap_value := v\<rparr>], first_free := first_free h + 1\<rparr>"
  have e: "e < length (cells h)" using d ff by (simp add: e_def)
  have h': "h' = xi_heap_fix_order_up h1 (first_free h)"
    using ins ff d e by (simp add: xi_heap_element_insert_def h1_def e_def Let_def)
  have "heap_wf h1"
  proof (rule heap_wfI)
    show "index (cells h1 ! (elements h1 ! j)) = j" if "j < first_free h1" for j
      using that ff d by (cases "j = first_free h") (auto simp: h1_def e_def nth_list_update)
  qed (use wf ff in \<open>simp_all add: h1_def heap_wf_def\<close>)
  then show ?thesis using h' ff by (simp add: heap_wf_fix_order_up h1_def)
qed

lemma heap_wf_remove:
  assumes wf: "heap_wf h" and live: "heap_live h elem" and rm: "xi_heap_element_remove h elem = Inr h'"
  shows "heap_wf h'"
proof -
  note d = heap_wfD [OF wf] and l = heap_live_slot [OF wf live]
  let ?ei = "index (cells h ! elem)" and ?last = "first_free h - 1"
  have pos: "0 < first_free h" using l by simp
  show ?thesis
  proof (cases "?last = ?ei")
    case True
    then show ?thesis using rm pos wf by (auto simp: xi_heap_element_remove_def heap_wf_shrink)
  next
    case False
    let ?h3 = "xi_heap_fix_order_up (xi_heap_fix_order_down
                 (xi_heap_elements_swap h ?ei ?last) ?ei) ?ei"
    have "heap_wf ?h3"
      using l d pos by (intro heap_wf_fix_order_up heap_wf_fix_order_down heap_wf_swap wf) auto
    moreover have "h' = ?h3\<lparr>first_free := first_free ?h3 - 1\<rparr>"
      using rm pos False l by (simp add: xi_heap_element_remove_def Let_def)
    ultimately show ?thesis by (simp add: heap_wf_shrink)
  qed
qed

lemma heap_wf_update_key:
  assumes wf: "heap_wf h" and live: "heap_live h elem"
  shows "heap_wf (xi_heap_element_update_key h elem new_key)"
proof -
  note d = heap_wfD [OF wf] and l = heap_live_slot [OF wf live]
  let ?h1 = "h\<lparr>cells := (cells h)[elem := (cells h ! elem)\<lparr>key := new_key\<rparr>]\<rparr>"
  have idx: "index ((cells h)[elem := (cells h ! elem)\<lparr>key := new_key\<rparr>] ! q) = index (cells h ! q)" for q
    by (simp add: nth_update_other_field)
  have wf1: "heap_wf ?h1"
    by (rule heap_wfI) (use wf heap_wfD [OF wf] in \<open>auto simp: heap_wf_def idx\<close>)
  have "index (cells ?h1 ! (elements ?h1 ! index (cells ?h1 ! elem))) = index (cells h ! elem)"
    using l by (simp add: idx)
  moreover have "index (cells h ! elem) < capacity h" using l d by linarith
  ultimately show ?thesis using wf1
    by (simp add: xi_heap_element_update_key_def Let_def heap_wf_fix_order_up heap_wf_fix_order_down)
qed

lemma heap_wf_get_top:
  assumes wf: "heap_wf h"
  shows "heap_wf (fst (xi_heap_get_top h))"
proof -
  have wf1: "heap_wf (h\<lparr>first_free := first_free h - 1\<rparr>)" using wf by (simp add: heap_wf_shrink)
  have "first_free h - 1 < capacity h" if "first_free h \<noteq> 0" using heap_wfD [OF wf] that by linarith
  then show ?thesis using wf wf1 heap_wfD(1) [OF wf]
    by (auto simp: xi_heap_get_top_def Let_def intro!: heap_wf_fix_order_down heap_wf_swap)
qed

end
