(* ===== verification/Heap_Order.thy ===== *)
theory Heap_Order
  imports Heap
begin

text \<open>
  Order and contents of the heap of \<^verbatim>\<open>xi_heap.c\<close>. \<open>heap_ordered\<close> is the min-heap
  invariant over the live slots \<open>[0, first_free)\<close>; \<open>heap_keys\<close> abstracts a heap to the
  list of its live keys, and its multiset is the abstract priority queue the heap refines
  (as in the priority-queue interface of the distribution's Data_Structures).
  The lemmas prove that \<^verbatim>\<open>xi_heap_fix_order_up\<close> restores the order after an insertion,
  that \<^verbatim>\<open>xi_heap_fix_order_down\<close> restores it when the number of live slots is odd, and
  that every swap permutes the live keys. \<open>xi_heap_run\<close> runs a client's sequence of
  heap operations, as the scheduler issues them.
\<close>

definition heap_ordered :: "('k::linorder, 'v) xi_heap \<Rightarrow> bool" where
  "heap_ordered h \<longleftrightarrow> list_all (\<lambda>i. slot_key h (PARENT i) \<le> slot_key h i) [1..<first_free h]"

definition heap_keys :: "('k, 'v) xi_heap \<Rightarrow> 'k list" where
  "heap_keys h = map (slot_key h) [0..<first_free h]"

datatype ('k, 'v) heap_op = Op_add 'k 'v | Op_get_top | Op_remove ptr

fun xi_heap_run ::
  "('k::linorder, 'v) xi_heap \<Rightarrow> ('k, 'v) heap_op list \<Rightarrow> c_fault + ('k, 'v) xi_heap \<times> ptr option list" where
  "xi_heap_run h [] = Inr (h, [])"
| "xi_heap_run h (Op_add k v # ops) =
     (case xi_heap_element_add h k v of
        Inl f \<Rightarrow> Inl f
      | Inr (h', r) \<Rightarrow> (case xi_heap_run h' ops of Inl f \<Rightarrow> Inl f | Inr (h'', rs) \<Rightarrow> Inr (h'', r # rs)))"
| "xi_heap_run h (Op_get_top # ops) =
     (let (h', r) = xi_heap_get_top h in
      case xi_heap_run h' ops of Inl f \<Rightarrow> Inl f | Inr (h'', rs) \<Rightarrow> Inr (h'', r # rs))"
| "xi_heap_run h (Op_remove p # ops) =
     (case xi_heap_element_remove h p of
        Inl f \<Rightarrow> Inl f
      | Inr h' \<Rightarrow> (case xi_heap_run h' ops of Inl f \<Rightarrow> Inl f | Inr (h'', rs) \<Rightarrow> Inr (h'', None # rs)))"

subsection \<open>Order of the live slots\<close>

lemma heap_ordered_iff:
  "heap_ordered h \<longleftrightarrow> (\<forall>j. 0 < j \<longrightarrow> j < first_free h \<longrightarrow> slot_key h (PARENT j) \<le> slot_key h j)"
  by (auto simp: heap_ordered_def list_all_iff)

lemma up_swap_step:
  fixes f :: "nat \<Rightarrow> 'k::linorder"
  assumes a: "\<And>j. 0 < j \<Longrightarrow> j < n \<Longrightarrow> j \<noteq> i \<Longrightarrow> f (PARENT j) \<le> f j"
    and b: "\<And>j. 0 < j \<Longrightarrow> j < n \<Longrightarrow> PARENT j = i \<Longrightarrow> f (PARENT i) \<le> f j"
    and i: "0 < i" "i < n" and lt: "f i < f (PARENT i)"
    and g: "g = (\<lambda>k. f (if k = PARENT i then i else if k = i then PARENT i else k))"
  shows "\<And>j. 0 < j \<Longrightarrow> j < n \<Longrightarrow> j \<noteq> PARENT i \<Longrightarrow> g (PARENT j) \<le> g j"
    and "\<And>j. 0 < PARENT i \<Longrightarrow> 0 < j \<Longrightarrow> j < n \<Longrightarrow> PARENT j = PARENT i \<Longrightarrow>
           g (PARENT (PARENT i)) \<le> g j"
proof -
  let ?p = "PARENT i"
  have pi: "?p < i" using i by simp
  have gp: "g ?p = f i" and gi: "g i = f ?p" using g pi by auto
  have go: "g k = f k" if "k \<noteq> ?p" "k \<noteq> i" for k using g that by auto
  show "g (PARENT j) \<le> g j" if j: "0 < j" "j < n" "j \<noteq> ?p" for j
  proof (cases "j = i")
    case True
    then show ?thesis using lt gp gi by simp
  next
    case False
    then have gj: "g j = f j" using go j(3) by simp
    consider "PARENT j = ?p" | "PARENT j = i" | "PARENT j \<noteq> ?p" "PARENT j \<noteq> i" by blast
    then show ?thesis
    proof cases
      case 1
      then have "g (PARENT j) < f (PARENT i)" using gp lt by simp
      moreover have "f (PARENT i) \<le> f j" using a [OF j(1,2) False] 1 by simp
      ultimately show ?thesis using gj by simp
    next
      case 2
      then show ?thesis using b [OF j(1,2) 2] gi gj by simp
    next
      case 3
      then show ?thesis using a [OF j(1,2) False] go gj by simp
    qed
  qed
  show "g (PARENT ?p) \<le> g j" if False: "0 < ?p" and j: "0 < j" "j < n" "PARENT j = ?p" for j
  proof -
    have pp: "PARENT ?p < ?p" using False by simp
    have gpp: "g (PARENT ?p) = f (PARENT ?p)" using go pp pi by simp
    have fpp: "f (PARENT ?p) \<le> f ?p" using a [of ?p] False pi i by linarith
    have jp: "j \<noteq> ?p" using j PARENT_less [of j] by auto
    show ?thesis
    proof (cases "j = i")
      case True
      then show ?thesis using gi gpp fpp by simp
    next
      case ji: False
      then have "f ?p \<le> f j" using a [OF j(1,2) ji] j(3) by simp
      then show ?thesis using go [OF jp ji] gpp fpp by simp
    qed
  qed
qed

lemma down_swap_step:
  fixes f :: "nat \<Rightarrow> 'k::linorder"
  assumes a: "\<And>j. 0 < j \<Longrightarrow> j < n \<Longrightarrow> PARENT j \<noteq> i \<Longrightarrow> f (PARENT j) \<le> f j"
    and b: "\<And>j. 0 < i \<Longrightarrow> 0 < j \<Longrightarrow> j < n \<Longrightarrow> PARENT j = i \<Longrightarrow> f (PARENT i) \<le> f j"
    and c: "PARENT c = i" "0 < c" "c < n" and lt: "f c < f i"
    and m: "\<And>j. 0 < j \<Longrightarrow> j < n \<Longrightarrow> PARENT j = i \<Longrightarrow> f c \<le> f j"
    and g: "g = (\<lambda>k. f (if k = c then i else if k = i then c else k))"
  shows "\<And>j. 0 < j \<Longrightarrow> j < n \<Longrightarrow> PARENT j \<noteq> c \<Longrightarrow> g (PARENT j) \<le> g j"
    and "\<And>j. 0 < j \<Longrightarrow> j < n \<Longrightarrow> PARENT j = c \<Longrightarrow> g (PARENT c) \<le> g j"
proof -
  have ic: "i < c" using c PARENT_less [of c] by simp
  have gc: "g c = f i" and gi: "g i = f c" using g ic by auto
  have go: "g k = f k" if "k \<noteq> c" "k \<noteq> i" for k using g that by auto
  show "g (PARENT j) \<le> g j" if j: "0 < j" "j < n" "PARENT j \<noteq> c" for j
  proof -
    consider "j = c" | "j = i" | "j \<noteq> c" "j \<noteq> i" by blast
    then show ?thesis
    proof cases
      case 1
      then show ?thesis using c(1) gi gc lt by simp
    next
      case 2
      then have "PARENT j < i" using j(1) by simp
      then have "g (PARENT j) = f (PARENT i)" using go ic 2 by simp
      also have "\<dots> \<le> f c" using b [OF _ c(2,3,1)] j(1) 2 by simp
      finally show ?thesis using gi 2 by simp
    next
      case 3
      show ?thesis
      proof (cases "PARENT j = i")
        case True
        then show ?thesis using m [OF j(1,2) True] gi go [OF 3] by simp
      next
        case False
        then show ?thesis using a [OF j(1,2) False] go [OF 3] go [OF j(3) False] by simp
      qed
    qed
  qed
  show "g (PARENT c) \<le> g j" if j: "0 < j" "j < n" "PARENT j = c" for j
  proof -
    have "c < j" using j PARENT_less [of j] by simp
    then have "g j = f j" using go ic by simp
    moreover have "f c \<le> f j" using a [OF j(1,2)] j(3) ic by simp
    ultimately show ?thesis using gi c(1) by simp
  qed
qed

lemma slot_key_swap_fun:
  assumes "heap_wf h" "a < capacity h" "b < capacity h"
  shows "slot_key (xi_heap_elements_swap h a b) =
         (\<lambda>k. slot_key h (if k = b then a else if k = a then b else k))"
  using assms heap_wfD(2) [OF assms(1)] by (auto simp: slot_key_swap)

lemma down_swap_prems:
  fixes h :: "('k::linorder, 'v) xi_heap"
  assumes wf: "heap_wf h" and i: "i < first_free h"
    and c: "PARENT c = i" "0 < c" "c < first_free h"
    and lt: "slot_key h c < slot_key h i"
    and m: "\<forall>j. 0 < j \<longrightarrow> j < first_free h \<longrightarrow> PARENT j = i \<longrightarrow> slot_key h c \<le> slot_key h j"
    and a: "\<forall>j. 0 < j \<longrightarrow> j < first_free h \<longrightarrow> PARENT j \<noteq> i \<longrightarrow>
              slot_key h (PARENT j) \<le> slot_key h j"
    and b: "0 < i \<longrightarrow> (\<forall>j. 0 < j \<longrightarrow> j < first_free h \<longrightarrow> PARENT j = i \<longrightarrow>
              slot_key h (PARENT i) \<le> slot_key h j)"
  defines "h' \<equiv> xi_heap_elements_swap h i c"
  shows "heap_wf h'" "c < first_free h'" "first_free h' = first_free h"
    "\<forall>j. 0 < j \<longrightarrow> j < first_free h' \<longrightarrow> PARENT j \<noteq> c \<longrightarrow>
       slot_key h' (PARENT j) \<le> slot_key h' j"
    "0 < c \<longrightarrow> (\<forall>j. 0 < j \<longrightarrow> j < first_free h' \<longrightarrow> PARENT j = c \<longrightarrow>
       slot_key h' (PARENT c) \<le> slot_key h' j)"
proof -
  have g: "slot_key h' = (\<lambda>k. slot_key h (if k = c then i else if k = i then c else k))"
    using slot_key_swap_fun [OF wf, of i c] i c(3) heap_wfD(4) [OF wf] by (simp add: h'_def)
  have a': "\<And>j. 0 < j \<Longrightarrow> j < first_free h \<Longrightarrow> PARENT j \<noteq> i \<Longrightarrow>
              slot_key h (PARENT j) \<le> slot_key h j" using a by blast
  have b': "\<And>j. 0 < i \<Longrightarrow> 0 < j \<Longrightarrow> j < first_free h \<Longrightarrow> PARENT j = i \<Longrightarrow>
              slot_key h (PARENT i) \<le> slot_key h j" using b by blast
  have m': "\<And>j. 0 < j \<Longrightarrow> j < first_free h \<Longrightarrow> PARENT j = i \<Longrightarrow>
              slot_key h c \<le> slot_key h j" using m by blast
  note st = down_swap_step [where f = "slot_key h" and n = "first_free h", OF a' b' c lt m' g]
  show "heap_wf h'" unfolding h'_def
    using wf i c(3) heap_wfD(4) [OF wf] by (intro heap_wf_swap) auto
  show ff: "first_free h' = first_free h" "c < first_free h'"
    using c(3) by (simp_all add: h'_def)
  show "\<forall>j. 0 < j \<longrightarrow> j < first_free h' \<longrightarrow> PARENT j \<noteq> c \<longrightarrow>
       slot_key h' (PARENT j) \<le> slot_key h' j"
  proof (intro allI impI)
    fix j assume "0 < j" "j < first_free h'" "PARENT j \<noteq> c"
    then show "slot_key h' (PARENT j) \<le> slot_key h' j" using ff(1) by (intro st(1)) simp_all
  qed
  show "0 < c \<longrightarrow> (\<forall>j. 0 < j \<longrightarrow> j < first_free h' \<longrightarrow> PARENT j = c \<longrightarrow>
       slot_key h' (PARENT c) \<le> slot_key h' j)"
  proof (intro allI impI)
    fix j assume "0 < j" "j < first_free h'" "PARENT j = c"
    then show "slot_key h' (PARENT c) \<le> slot_key h' j" using ff(1) by (intro st(2)) simp_all
  qed
qed

lemma fix_order_down_loop_ordered:
  fixes h :: "('k::linorder, 'v) xi_heap"
  assumes "heap_wf h" "i < first_free h" "odd (first_free h)"
    and "\<forall>j. 0 < j \<longrightarrow> j < first_free h \<longrightarrow> PARENT j \<noteq> i \<longrightarrow>
           slot_key h (PARENT j) \<le> slot_key h j"
    and "0 < i \<longrightarrow> (\<forall>j. 0 < j \<longrightarrow> j < first_free h \<longrightarrow> PARENT j = i \<longrightarrow>
           slot_key h (PARENT i) \<le> slot_key h j)"
  shows "heap_ordered (xi_heap_fix_order_down_loop first h i)"
  using assms
proof (induction first h i rule: xi_heap_fix_order_down_loop.induct)
  case (1 first h i)
  let ?n = "first_free h" and ?f = "slot_key h"
  let ?L = "bound_child h i (LEFT i)" and ?R = "bound_child h i (RIGHT i)"
  note wf = "1.prems"(1) and i = "1.prems"(2) and odd_n = "1.prems"(3)
    and a = "1.prems"(4) and b = "1.prems"(5)
  have ch: "PARENT j = i \<longleftrightarrow> j = 2 * i + 1 \<or> j = 2 * i + 2" if "0 < j" for j
    using PARENT_eq_iff that by simp
  have stop: "heap_ordered h"
    if c: "\<forall>j. 0 < j \<longrightarrow> j < ?n \<longrightarrow> PARENT j = i \<longrightarrow> ?f i \<le> ?f j"
    unfolding heap_ordered_iff
  proof (intro allI impI)
    fix j assume j: "0 < j" "j < ?n"
    show "?f (PARENT j) \<le> ?f j"
    proof (cases "PARENT j = i")
      case True
      then show ?thesis using c j by simp
    next
      case False
      then show ?thesis using a j by simp
    qed
  qed
  have eq: "xi_heap_fix_order_down_loop first h i =
    (if \<not> first \<and> \<not> (i \<noteq> ?L \<and> i \<noteq> ?R) then h
     else if ?f ?L < ?f ?R then
       (if ?f ?L < ?f i then xi_heap_fix_order_down_loop False (xi_heap_elements_swap h i ?L) ?L else h)
     else (if ?f ?R < ?f i then xi_heap_fix_order_down_loop False (xi_heap_elements_swap h i ?R) ?R else h))"
    by (simp add: xi_heap_fix_order_down_loop.simps [of first h i] Let_def)
  show ?case
  proof (cases "\<not> first \<and> \<not> (i \<noteq> ?L \<and> i \<noteq> ?R)")
    case True
    then have "?n \<le> 2 * i + 1 \<or> ?n \<le> 2 * i + 2"
      by (auto simp: bound_child_def split: if_splits)
    with odd_n have "?n \<le> 2 * i + 1" by presburger
    then have "heap_ordered h" by (intro stop) (auto simp: ch)
    moreover have "xi_heap_fix_order_down_loop first h i = h"
      unfolding eq by (rule if_P [OF True])
    ultimately show ?thesis by simp
  next
    case nochk: False
    show ?thesis
    proof (cases "?f ?L < ?f ?R")
      case lr: True
      show ?thesis
      proof (cases "?f ?L < ?f i")
        case lt: True
        then have L: "?L = 2 * i + 1" "2 * i + 1 < ?n"
          by (auto simp: bound_child_def split: if_splits)
        have m: "\<forall>j. 0 < j \<longrightarrow> j < ?n \<longrightarrow> PARENT j = i \<longrightarrow> ?f ?L \<le> ?f j"
          using lr L by (auto simp: ch bound_child_def)
        have c: "PARENT ?L = i" "0 < ?L" "?L < ?n" using L by simp_all
        note p = down_swap_prems [OF wf i c lt m a b]
        have "heap_ordered (xi_heap_fix_order_down_loop False (xi_heap_elements_swap h i ?L) ?L)"
          using odd_n by (intro "1.IH"(1) [OF refl refl nochk lr lt p(1,2) _ p(4,5)]) (simp add: p(3))
        moreover have "xi_heap_fix_order_down_loop first h i =
            xi_heap_fix_order_down_loop False (xi_heap_elements_swap h i ?L) ?L"
          unfolding eq by (simp only: if_not_P [OF nochk] if_P [OF lr] if_P [OF lt])
        ultimately show ?thesis by simp
      next
        case nlt: False
        have "heap_ordered h"
          using nlt lr by (intro stop) (auto simp: ch bound_child_def split: if_splits)
        moreover have "xi_heap_fix_order_down_loop first h i = h"
          unfolding eq by (simp only: if_not_P [OF nochk] if_P [OF lr] if_not_P [OF nlt])
        ultimately show ?thesis by simp
      qed
    next
      case nlr: False
      show ?thesis
      proof (cases "?f ?R < ?f i")
        case lt: True
        then have R: "?R = 2 * i + 2" "2 * i + 2 < ?n"
          by (auto simp: bound_child_def split: if_splits)
        have m: "\<forall>j. 0 < j \<longrightarrow> j < ?n \<longrightarrow> PARENT j = i \<longrightarrow> ?f ?R \<le> ?f j"
          using nlr R by (auto simp: ch bound_child_def)
        have c: "PARENT ?R = i" "0 < ?R" "?R < ?n" using R by simp_all
        note p = down_swap_prems [OF wf i c lt m a b]
        have "heap_ordered (xi_heap_fix_order_down_loop False (xi_heap_elements_swap h i ?R) ?R)"
          using odd_n by (intro "1.IH"(2) [OF refl refl nochk nlr lt p(1,2) _ p(4,5)]) (simp add: p(3))
        moreover have "xi_heap_fix_order_down_loop first h i =
            xi_heap_fix_order_down_loop False (xi_heap_elements_swap h i ?R) ?R"
          unfolding eq by (simp only: if_not_P [OF nochk] if_not_P [OF nlr] if_P [OF lt])
        ultimately show ?thesis by simp
      next
        case nlt: False
        have "heap_ordered h"
          using nlt nlr by (intro stop) (auto simp: ch bound_child_def split: if_splits)
        moreover have "xi_heap_fix_order_down_loop first h i = h"
          unfolding eq by (simp only: if_not_P [OF nochk] if_not_P [OF nlr] if_not_P [OF nlt])
        ultimately show ?thesis by simp
      qed
    qed
  qed
qed

lemma fix_order_up_ordered:
  fixes h :: "('k::linorder, 'v) xi_heap"
  assumes "heap_wf h" "i < first_free h"
    and "\<forall>j. 0 < j \<longrightarrow> j < first_free h \<longrightarrow> j \<noteq> i \<longrightarrow> slot_key h (PARENT j) \<le> slot_key h j"
    and "0 < i \<longrightarrow> (\<forall>j. 0 < j \<longrightarrow> j < first_free h \<longrightarrow> PARENT j = i \<longrightarrow>
           slot_key h (PARENT i) \<le> slot_key h j)"
  shows "heap_ordered (xi_heap_fix_order_up h i)"
  using assms
proof (induction h i rule: xi_heap_fix_order_up.induct)
  case (1 h i)
  let ?n = "first_free h" and ?f = "slot_key h" and ?p = "PARENT i"
  note wf = "1.prems"(1) and i = "1.prems"(2) and a = "1.prems"(3) and b = "1.prems"(4)
  show ?case
  proof (cases "i = 0")
    case True
    then show ?thesis using a by (simp add: heap_ordered_iff)
  next
    case False
    have pi: "?p < i" using False by simp
    have up: "xi_heap_fix_order_up h i =
        xi_heap_fix_order_up (if ?f i < ?f ?p then xi_heap_elements_swap h i ?p else h) ?p"
      using False by (simp add: xi_heap_fix_order_up.simps [of h i] Let_def)
    show ?thesis
    proof (cases "?f i < ?f ?p")
      case lt: True
      let ?h' = "xi_heap_elements_swap h i ?p"
      have g: "slot_key ?h' = (\<lambda>k. ?f (if k = ?p then i else if k = i then ?p else k))"
        using slot_key_swap_fun [OF wf, of i ?p] pi i heap_wfD(4) [OF wf] by simp
      have a': "\<And>j. 0 < j \<Longrightarrow> j < ?n \<Longrightarrow> j \<noteq> i \<Longrightarrow> ?f (PARENT j) \<le> ?f j" using a by blast
      have b': "\<And>j. 0 < j \<Longrightarrow> j < ?n \<Longrightarrow> PARENT j = i \<Longrightarrow> ?f (PARENT i) \<le> ?f j"
        using b False by blast
      note st = up_swap_step [where f = ?f and n = ?n, OF a' b' _ i lt g]
      have wf': "heap_wf ?h'" using wf i pi heap_wfD(4) [OF wf] by (intro heap_wf_swap) auto
      have a'': "\<forall>j. 0 < j \<longrightarrow> j < first_free ?h' \<longrightarrow> j \<noteq> ?p \<longrightarrow>
                   slot_key ?h' (PARENT j) \<le> slot_key ?h' j"
      proof (intro allI impI)
        fix j assume "0 < j" "j < first_free ?h'" "j \<noteq> ?p"
        then show "slot_key ?h' (PARENT j) \<le> slot_key ?h' j" using False by (intro st(1)) simp_all
      qed
      have b'': "0 < ?p \<longrightarrow> (\<forall>j. 0 < j \<longrightarrow> j < first_free ?h' \<longrightarrow> PARENT j = ?p \<longrightarrow>
                   slot_key ?h' (PARENT ?p) \<le> slot_key ?h' j)"
      proof (intro allI impI)
        fix j assume "0 < ?p" "0 < j" "j < first_free ?h'" "PARENT j = ?p"
        then show "slot_key ?h' (PARENT ?p) \<le> slot_key ?h' j" using False by (intro st(2)) simp_all
      qed
      have eqh: "?h' = (if ?f i < ?f ?p then ?h' else h)" using lt by simp
      have "heap_ordered (xi_heap_fix_order_up ?h' ?p)"
        using pi i by (intro "1.IH" [OF False refl eqh wf' _ a'' b'']) simp
      then show ?thesis using up lt by simp
    next
      case nlt: False
      have full: "\<forall>j. 0 < j \<longrightarrow> j < ?n \<longrightarrow> ?f (PARENT j) \<le> ?f j"
        using a nlt by (metis not_less)
      have eqh: "h = (if ?f i < ?f ?p then xi_heap_elements_swap h i ?p else h)" using nlt by simp
      have b'': "0 < ?p \<longrightarrow> (\<forall>j. 0 < j \<longrightarrow> j < ?n \<longrightarrow> PARENT j = ?p \<longrightarrow> ?f (PARENT ?p) \<le> ?f j)"
      proof (intro allI impI)
        fix j assume j: "0 < ?p" "0 < j" "j < ?n" "PARENT j = ?p"
        have "?f (PARENT ?p) \<le> ?f ?p" using full j(1) pi i by simp
        also have "?f ?p \<le> ?f j" using full j by metis
        finally show "?f (PARENT ?p) \<le> ?f j" .
      qed
      have "heap_ordered (xi_heap_fix_order_up h ?p)"
        using pi i full by (intro "1.IH" [OF False refl eqh wf _ _ b'']) auto
      then show ?thesis using up nlt by simp
    qed
  qed
qed

lemma heap_ordered_min:
  fixes h :: "('k::linorder, 'v) xi_heap"
  assumes "heap_ordered h" "j < first_free h"
  shows "slot_key h 0 \<le> slot_key h j"
  using assms(2)
proof (induction j rule: less_induct)
  case (less j)
  show ?case
  proof (cases "j = 0")
    case False
    then have "PARENT j < j" by simp
    then have "slot_key h 0 \<le> slot_key h (PARENT j)" using less by simp
    also have "\<dots> \<le> slot_key h j" using assms(1) False less.prems by (simp add: heap_ordered_iff)
    finally show ?thesis .
  qed simp
qed

lemma mset_heap_keys_swap:
  assumes "heap_wf h" "a < first_free h" "b < first_free h"
  shows "mset (heap_keys (xi_heap_elements_swap h a b)) = mset (heap_keys h)"
proof -
  have "a < capacity h" "b < capacity h" using assms heap_wfD(4) [OF assms(1)] by simp_all
  then show ?thesis unfolding heap_keys_def
    using slot_key_swap_fun [OF assms(1)] mset_map_swap_upt [OF assms(2,3), of "slot_key h"]
    by (simp add: comp_def)
qed

lemma mset_heap_keys_fix_order_up:
  assumes "heap_wf h" "i < first_free h"
  shows "mset (heap_keys (xi_heap_fix_order_up h i)) = mset (heap_keys h)"
proof -
  let ?P = "\<lambda>h'. heap_wf h' \<and> first_free h' = first_free h \<and> mset (heap_keys h') = mset (heap_keys h)"
  have step: "?P (xi_heap_elements_swap h' a b)" if "?P h'" "a < first_free h" "b < first_free h" for h' a b
    using that heap_wfD(4) [of h'] by (auto intro: heap_wf_swap simp: mset_heap_keys_swap)
  show ?thesis using fix_order_up_preserves [of ?P, OF step] assms by blast
qed

lemma mset_heap_keys_fix_order_down:
  assumes "heap_wf h" "i < first_free h"
  shows "mset (heap_keys (xi_heap_fix_order_down h i)) = mset (heap_keys h)"
proof -
  let ?P = "\<lambda>h'. heap_wf h' \<and> first_free h' = first_free h \<and> mset (heap_keys h') = mset (heap_keys h)"
  have step: "?P (xi_heap_elements_swap h' a b)" if "?P h'" "a < first_free h" "b < first_free h" for h' a b
    using that heap_wfD(4) [of h'] by (auto intro: heap_wf_swap simp: mset_heap_keys_swap)
  have bound: "first_free h' \<le> first_free h" if "?P h'" for h' using that by simp
  show ?thesis unfolding xi_heap_fix_order_down_def
    using fix_order_down_loop_preserves [of ?P, OF step bound] assms by blast
qed

lemma xi_heap_element_insert_Inr:
  fixes h :: "('k::linorder, 'v) xi_heap" and k :: 'k and v :: "'v xi_heap_value"
  assumes wf: "heap_wf h" and ff: "first_free h < capacity h"
  defines "e \<equiv> elements h ! first_free h"
  defines "h1 \<equiv> h\<lparr>cells := (cells h)[e := (cells h ! e)\<lparr>index := first_free h, key := k,
                    heap_value := v\<rparr>], first_free := first_free h + 1\<rparr>"
  shows "xi_heap_element_insert h k v = Inr (xi_heap_fix_order_up h1 (first_free h), Some e)"
    and "heap_wf h1" and "first_free h1 = Suc (first_free h)" and "capacity h1 = capacity h"
    and "\<And>j. j < capacity h \<Longrightarrow> slot_key h1 j = (if j = first_free h then k else slot_key h j)"
proof -
  note d = heap_wfD [OF wf]
  have e: "e < length (cells h)" using d ff by (simp add: e_def)
  show "xi_heap_element_insert h k v = Inr (xi_heap_fix_order_up h1 (first_free h), Some e)"
    using ff d e by (simp add: xi_heap_element_insert_def h1_def e_def Let_def)
  show "heap_wf h1"
  proof (rule heap_wfI)
    show "index (cells h1 ! (elements h1 ! j)) = j" if "j < first_free h1" for j
      using that ff d by (cases "j = first_free h") (auto simp: h1_def e_def nth_list_update)
  qed (use wf ff in \<open>simp_all add: h1_def heap_wf_def\<close>)
  show "first_free h1 = Suc (first_free h)" "capacity h1 = capacity h" by (simp_all add: h1_def)
  show "slot_key h1 j = (if j = first_free h then k else slot_key h j)" if "j < capacity h" for j
    using that ff d e by (auto simp: h1_def e_def slot_key_def nth_list_update)
qed

lemma xi_heap_element_insert_full:
  "heap_wf h \<Longrightarrow> first_free h = capacity h \<Longrightarrow> xi_heap_element_insert h k v = Inl Out_of_bounds"
  by (simp add: xi_heap_element_insert_def heap_wf_def)

lemma xi_heap_element_insert_cases:
  assumes "heap_wf h" "xi_heap_element_insert h k v = Inr (h', r)"
  shows "first_free h < capacity h"
  using assms heap_wfD(2,4) [OF assms(1)]
  by (auto simp: xi_heap_element_insert_def array_get_def split: if_splits)

lemma heap_ordered_insert:
  fixes h :: "('k::linorder, 'v) xi_heap"
  assumes wf: "heap_wf h" and ord: "heap_ordered h" and ins: "xi_heap_element_insert h k v = Inr (h', r)"
  shows "heap_ordered h'"
proof -
  have ff: "first_free h < capacity h" by (rule xi_heap_element_insert_cases [OF wf ins])
  note I = xi_heap_element_insert_Inr [OF wf ff, where k = k and v = v]
  let ?h1 = "h\<lparr>cells := (cells h)[elements h ! first_free h := (cells h ! (elements h ! first_free h))
                \<lparr>index := first_free h, key := k, heap_value := v\<rparr>], first_free := first_free h + 1\<rparr>"
  have h': "h' = xi_heap_fix_order_up ?h1 (first_free h)" using I(1) ins by simp
  have a: "\<forall>j. 0 < j \<longrightarrow> j < first_free ?h1 \<longrightarrow> j \<noteq> first_free h \<longrightarrow>
             slot_key ?h1 (PARENT j) \<le> slot_key ?h1 j"
  proof (intro allI impI)
    fix j assume j: "0 < j" "j < first_free ?h1" "j \<noteq> first_free h"
    then have jf: "j < first_free h" by simp
    then have "PARENT j < first_free h" using PARENT_less [of j] j(1) by linarith
    note this jf
    then show "slot_key ?h1 (PARENT j) \<le> slot_key ?h1 j"
      using ord j ff I(5) by (simp add: heap_ordered_iff)
  qed
  have b: "0 < first_free h \<longrightarrow> (\<forall>j. 0 < j \<longrightarrow> j < first_free ?h1 \<longrightarrow> PARENT j = first_free h \<longrightarrow>
             slot_key ?h1 (PARENT (first_free h)) \<le> slot_key ?h1 j)"
    using PARENT_less by (metis I(3) Suc_leI le_neq_implies_less less_or_eq_imp_le not_less_eq_eq)
  show ?thesis using fix_order_up_ordered [OF I(2) _ a b] I(3) h' by simp
qed

lemma mset_heap_keys_insert:
  fixes h :: "('k::linorder, 'v) xi_heap"
  assumes wf: "heap_wf h" and ins: "xi_heap_element_insert h k v = Inr (h', r)"
  shows "mset (heap_keys h') = add_mset k (mset (heap_keys h))"
proof -
  have ff: "first_free h < capacity h" by (rule xi_heap_element_insert_cases [OF wf ins])
  note I = xi_heap_element_insert_Inr [OF wf ff, where k = k and v = v]
  let ?h1 = "h\<lparr>cells := (cells h)[elements h ! first_free h := (cells h ! (elements h ! first_free h))
                \<lparr>index := first_free h, key := k, heap_value := v\<rparr>], first_free := first_free h + 1\<rparr>"
  have "heap_keys ?h1 = heap_keys h @ [k]"
    using I(3,5) ff unfolding heap_keys_def by (auto intro!: nth_equalityI simp: nth_append)
  then have "mset (heap_keys ?h1) = add_mset k (mset (heap_keys h))" by simp
  moreover have "h' = xi_heap_fix_order_up ?h1 (first_free h)" using I(1) ins by simp
  ultimately show ?thesis using mset_heap_keys_fix_order_up [OF I(2)] I(3) by simp
qed

lemma elements_fix_order_down_beyond:
  assumes "i < first_free h" "first_free h \<le> m"
  shows "elements (xi_heap_fix_order_down h i) ! m = elements h ! m"
proof -
  let ?P = "\<lambda>h'. first_free h' = first_free h \<and> elements h' ! m = elements h ! m"
  have step: "?P (xi_heap_elements_swap h' a b)" if "?P h'" "a < first_free h" "b < first_free h" for h' a b
    using that assms(2) by (simp add: elements_swap)
  have bound: "first_free h' \<le> first_free h" if "?P h'" for h' using that by simp
  show ?thesis unfolding xi_heap_fix_order_down_def
    using fix_order_down_loop_preserves [of ?P, OF step bound] assms(1) by blast
qed

lemma xi_heap_get_top_eq:
  assumes wf: "heap_wf h" and pos: "0 < first_free h"
  defines "h2 \<equiv> xi_heap_elements_swap (h\<lparr>first_free := first_free h - 1\<rparr>) 0 (first_free h - 1)"
  shows "xi_heap_get_top h =
    (if first_free h = 1 then (h\<lparr>first_free := 0\<rparr>, Some (elements h ! 0))
     else (xi_heap_fix_order_down h2 0, Some (elements h ! 0)))"
proof (cases "first_free h = 1")
  case True
  then show ?thesis by (simp add: xi_heap_get_top_def)
next
  case False
  note d = heap_wfD [OF wf]
  have last: "0 < first_free h - 1" "first_free h - 1 < length (elements h)" using False pos d by simp_all
  have "elements (xi_heap_fix_order_down h2 0) ! (first_free h - 1) = elements h2 ! (first_free h - 1)"
    using last by (intro elements_fix_order_down_beyond) (simp_all add: h2_def)
  also have "\<dots> = elements h ! 0" using last by (simp add: h2_def elements_swap nth_swap)
  finally show ?thesis using False pos by (simp add: xi_heap_get_top_def Let_def h2_def)
qed

lemma get_top_swap_facts:
  assumes wf: "heap_wf h" and ff: "1 < first_free h"
  defines "h2 \<equiv> xi_heap_elements_swap (h\<lparr>first_free := first_free h - 1\<rparr>) 0 (first_free h - 1)"
  shows "heap_wf h2" "first_free h2 = first_free h - 1"
    "slot_key h2 = (\<lambda>k. slot_key h (if k = first_free h - 1 then 0 else if k = 0 then first_free h - 1 else k))"
proof -
  have wf1: "heap_wf (h\<lparr>first_free := first_free h - 1\<rparr>)" using wf by (simp add: heap_wf_shrink)
  have c: "0 < capacity h" "first_free h - 1 < capacity h" using heap_wfD(1,4) [OF wf] by auto
  show "heap_wf h2" unfolding h2_def using wf1 c by (intro heap_wf_swap) simp_all
  show "first_free h2 = first_free h - 1" by (simp add: h2_def)
  have "slot_key (h\<lparr>first_free := first_free h - 1\<rparr>) = slot_key h" by (simp add: slot_key_def fun_eq_iff)
  then show "slot_key h2 = (\<lambda>k. slot_key h (if k = first_free h - 1 then 0 else if k = 0 then first_free h - 1 else k))"
    unfolding h2_def using slot_key_swap_fun [OF wf1, of 0 "first_free h - 1"] c by simp
qed

lemma mset_heap_keys_get_top:
  fixes h :: "('k::linorder, 'v) xi_heap"
  assumes wf: "heap_wf h" and pos: "0 < first_free h"
  shows "mset (heap_keys (fst (xi_heap_get_top h))) = mset (heap_keys h) - {#slot_key h 0#}"
proof (cases "first_free h = 1")
  case True
  then show ?thesis using xi_heap_get_top_eq [OF wf pos] by (simp add: heap_keys_def)
next
  case False
  let ?l = "first_free h - 1"
  let ?h2 = "xi_heap_elements_swap (h\<lparr>first_free := ?l\<rparr>) 0 ?l"
  have ff: "1 < first_free h" using False pos by simp
  note F = get_top_swap_facts [OF wf ff]
  let ?s = "\<lambda>k. if k = ?l then 0 else if k = 0 then ?l else k"
  obtain l where l: "first_free h = Suc l" using ff by (cases "first_free h") auto
  have split: "map (slot_key ?h2) [0..<first_free h] = heap_keys ?h2 @ [slot_key h 0]"
    using F(2,3) l by (simp add: heap_keys_def)
  have A: "mset (map (slot_key ?h2) [0..<first_free h]) = add_mset (slot_key h 0) (mset (heap_keys ?h2))"
    unfolding split by simp
  have lt: "?l < first_free h" using ff by simp
  have B: "mset (map (slot_key ?h2) [0..<first_free h]) = mset (heap_keys h)"
    unfolding F(3) heap_keys_def using mset_map_swap_upt [OF pos lt, of "slot_key h"]
    by (simp only: comp_def)
  have "mset (heap_keys ?h2) = mset (heap_keys h) - {#slot_key h 0#}"
    using A B by (metis add_mset_remove_trivial)
  moreover have "0 < first_free ?h2" using ff by simp
  ultimately show ?thesis
    using xi_heap_get_top_eq [OF wf pos] False mset_heap_keys_fix_order_down [OF F(1)] by simp
qed

lemma heap_ordered_get_top_even:
  fixes h :: "('k::linorder, 'v) xi_heap"
  assumes wf: "heap_wf h" and ord: "heap_ordered h" and ev: "even (first_free h)"
  shows "heap_ordered (fst (xi_heap_get_top h))"
proof (cases "first_free h = 0")
  case True
  then show ?thesis using ord by (simp add: xi_heap_get_top_def)
next
  case False
  then have ff: "1 < first_free h" using ev by (cases "first_free h = 1") auto
  let ?l = "first_free h - 1"
  let ?h2 = "xi_heap_elements_swap (h\<lparr>first_free := ?l\<rparr>) 0 ?l"
  note F = get_top_swap_facts [OF wf ff]
  have a: "\<forall>j. 0 < j \<longrightarrow> j < first_free ?h2 \<longrightarrow> PARENT j \<noteq> 0 \<longrightarrow>
             slot_key ?h2 (PARENT j) \<le> slot_key ?h2 j"
  proof (intro allI impI)
    fix j assume j: "0 < j" "j < first_free ?h2" "PARENT j \<noteq> 0"
    have pj: "PARENT j < j" using j(1) by simp
    have jl: "j < ?l" using j(2) F(2) by simp
    have "PARENT j \<noteq> ?l" "j \<noteq> ?l" "j < first_free h" using pj jl by linarith+
    then show "slot_key ?h2 (PARENT j) \<le> slot_key ?h2 j"
      using j F(3) ord by (simp add: heap_ordered_iff)
  qed
  have "heap_ordered (xi_heap_fix_order_down ?h2 0)"
    unfolding xi_heap_fix_order_down_def
    using ff ev F(2) by (intro fix_order_down_loop_ordered [OF F(1) _ _ a]) auto
  then show ?thesis using xi_heap_get_top_eq [OF wf] ff by simp
qed

lemma xi_heap_get_top_min:
  fixes h :: "('k::linorder, 'v) xi_heap"
  assumes wf: "heap_wf h" and ord: "heap_ordered h" and pos: "0 < first_free h"
  shows "snd (xi_heap_get_top h) = Some (elements h ! 0)"
    and "\<forall>x \<in> set (heap_keys h). key (cells h ! (elements h ! 0)) \<le> x"
proof -
  show "snd (xi_heap_get_top h) = Some (elements h ! 0)" using xi_heap_get_top_eq [OF wf pos] by simp
  show "\<forall>x \<in> set (heap_keys h). key (cells h ! (elements h ! 0)) \<le> x"
    using heap_ordered_min [OF ord] by (auto simp: heap_keys_def slot_key_def)
qed

subsection \<open>Liveness of handles and the key multiset under the remaining operations\<close>


lemma heap_live_ptr:
  assumes "heap_wf h" "heap_live h p"
  shows "p < capacity h"
proof -
  have "p \<in> set (elements h)" using assms(2) by (auto simp: heap_live_def dest: in_set_takeD)
  then show ?thesis using assms(1) by (simp add: heap_wf_def)
qed

lemma first_free_remove:
  assumes "heap_wf h" "heap_live h p"
  shows "\<exists>h'. xi_heap_element_remove h p = Inr h' \<and> first_free h' = first_free h - 1"
  using heap_live_slot [OF assms] by (auto simp: xi_heap_element_remove_def Let_def)

lemma xi_heap_element_update_key_parts:
  fixes h :: "('k::linorder, 'v) xi_heap" and k :: 'k
  assumes wf: "heap_wf h" and live: "heap_live h p"
  defines "h1 \<equiv> h\<lparr>cells := (cells h)[p := (cells h ! p)\<lparr>key := k\<rparr>]\<rparr>"
  shows "xi_heap_element_update_key h p k =
           xi_heap_fix_order_up (xi_heap_fix_order_down h1 (index (cells h ! p))) (index (cells h ! p))"
    and "heap_wf h1" and "first_free h1 = first_free h" and "heap_live h1 p" and "key (cells h1 ! p) = k"
    and "heap_keys h1 = (heap_keys h)[index (cells h ! p) := k]"
proof -
  note d = heap_wfD [OF wf] and l = heap_live_slot [OF wf live]
  have idx: "index ((cells h)[p := (cells h ! p)\<lparr>key := k\<rparr>] ! q) = index (cells h ! q)" for q
    by (simp add: nth_update_other_field)
  show "heap_wf h1" unfolding h1_def
    by (rule heap_wfI) (use wf heap_wfD [OF wf] in \<open>auto simp: heap_wf_def idx\<close>)
  have p: "p < length (cells h)" using heap_live_ptr [OF wf live] d by simp
  show "heap_keys h1 = (heap_keys h)[index (cells h ! p) := k]"
    using l d p unfolding heap_keys_def slot_key_def h1_def
    by (auto intro!: nth_equalityI simp: nth_list_update)
  show "xi_heap_element_update_key h p k =
      xi_heap_fix_order_up (xi_heap_fix_order_down h1 (index (cells h ! p))) (index (cells h ! p))"
    using l by (simp add: xi_heap_element_update_key_def Let_def idx h1_def)
  show "first_free h1 = first_free h" "heap_live h1 p" "key (cells h1 ! p) = k"
    using live p by (simp_all add: h1_def heap_live_def)
qed

lemma mset_heap_keys_update_key:
  fixes h :: "('k::linorder, 'v) xi_heap"
  assumes wf: "heap_wf h" and live: "heap_live h p"
  shows "mset (heap_keys (xi_heap_element_update_key h p k)) =
         add_mset k (mset (heap_keys h) - {#key (cells h ! p)#})"
proof -
  note u = xi_heap_element_update_key_parts [OF wf live, where k = k]
    and l = heap_live_slot [OF wf live]
  let ?ei = "index (cells h ! p)"
  let ?h1 = "h\<lparr>cells := (cells h)[p := (cells h ! p)\<lparr>key := k\<rparr>]\<rparr>"
  let ?h2 = "xi_heap_fix_order_down ?h1 ?ei"
  have i1: "?ei < first_free ?h1" using l u(3) by simp
  have p: "p < length (cells h)" using heap_live_ptr [OF wf live] heap_wfD(3) [OF wf] by simp
  have "mset (heap_keys ?h1) = add_mset k (mset (heap_keys h) - {#key (cells h ! p)#})"
    using l u(6) p by (simp add: mset_update heap_keys_def slot_key_def)
  moreover have wf2: "heap_wf ?h2"
    using heap_wf_fix_order_down [OF u(2)] i1 heap_wfD(4) [OF u(2)] by simp
  moreover have "mset (heap_keys ?h2) = mset (heap_keys ?h1)"
    using mset_heap_keys_fix_order_down [OF u(2) i1] .
  moreover have "mset (heap_keys (xi_heap_fix_order_up ?h2 ?ei)) = mset (heap_keys ?h2)"
    using mset_heap_keys_fix_order_up [OF wf2] i1 by simp
  ultimately show ?thesis using u(1) by simp
qed


lemma set_take_swap:
  assumes "a < n" "b < n" "n \<le> length xs"
  shows "set (take n (xs[a := xs ! b, b := xs ! a])) = set (take n xs)"
proof -
  have "take n (xs[a := xs ! b, b := xs ! a]) = (take n xs)[a := take n xs ! b, b := take n xs ! a]"
    using assms by (simp add: take_update_swap)
  also have "set \<dots> = set (take n xs)"
    using assms by (intro set_swap) simp_all
  finally show ?thesis .
qed

lemma heap_live_nth:
  assumes "heap_wf h" "k < first_free h"
  shows "heap_live h (elements h ! k)"
proof -
  have "k < length (take (first_free h) (elements h))" "take (first_free h) (elements h) ! k = elements h ! k"
    using assms heap_wfD(2,4) [OF assms(1)] by simp_all
  then show ?thesis unfolding heap_live_def by (metis nth_mem)
qed

lemma heap_live_fix_order:
  fixes h :: "('k::linorder, 'v) xi_heap"
  assumes "heap_wf h" "i < first_free h"
  shows "heap_live (xi_heap_fix_order_up h i) p \<longleftrightarrow> heap_live h p"
    and "key (cells (xi_heap_fix_order_up h i) ! p) = key (cells h ! p)"
    and "heap_live (xi_heap_fix_order_down h i) p \<longleftrightarrow> heap_live h p"
    and "key (cells (xi_heap_fix_order_down h i) ! p) = key (cells h ! p)"
proof -
  let ?P = "\<lambda>h'. heap_wf h' \<and> first_free h' = first_free h \<and>
     set (take (first_free h) (elements h')) = set (take (first_free h) (elements h)) \<and>
     key (cells h' ! p) = key (cells h ! p)"
  have step: "?P (xi_heap_elements_swap h' a b)"
    if "?P h'" "a < first_free h" "b < first_free h" for h' :: "('k, 'v) xi_heap" and a b
    using that heap_wfD(2,4) [of h'] heap_wf_swap [of h' a b]
    by (simp add: elements_swap set_take_swap)
  have "?P (xi_heap_fix_order_up h i)"
    by (rule fix_order_up_preserves [where P = ?P, OF step]) (use assms in simp_all)
  then show "heap_live (xi_heap_fix_order_up h i) p \<longleftrightarrow> heap_live h p"
    "key (cells (xi_heap_fix_order_up h i) ! p) = key (cells h ! p)"
    by (simp_all add: heap_live_def)
  have "?P (xi_heap_fix_order_down h i)"
    unfolding xi_heap_fix_order_down_def
    by (rule fix_order_down_loop_preserves [where P = ?P, OF step]) (use assms in simp_all)
  then show "heap_live (xi_heap_fix_order_down h i) p \<longleftrightarrow> heap_live h p"
    "key (cells (xi_heap_fix_order_down h i) ! p) = key (cells h ! p)"
    by (simp_all add: heap_live_def)
qed


subsection \<open>Removal: the sift-down after the swap with the last slot\<close>

lemma swap_swap:
  assumes wf: "heap_wf h" and ab: "a < capacity h" "b < capacity h"
  shows "xi_heap_elements_swap (xi_heap_elements_swap h a b) a b = h"
proof (cases "a = b")
  case True
  note d = heap_wfD [OF wf]
  then show ?thesis using True ab
    by (cases h) (simp add: xi_heap_elements_swap_def Let_def list_update_id)
next
  case False
  note d = heap_wfD [OF wf]
  have ne: "elements h ! a \<noteq> elements h ! b" using d(7) ab False by simp
  have lt: "elements h ! a < length (cells h)" "elements h ! b < length (cells h)" using d ab by simp_all
  show ?thesis using ab ne lt d(2)
    by (cases h) (auto simp: xi_heap_elements_swap_def Let_def list_update_swap list_update_overwrite
                    intro!: nth_equalityI simp: nth_list_update)
qed

lemma fix_order_up_ordered_id:
  fixes h :: "('k::linorder, 'v) xi_heap"
  assumes "heap_ordered h" "i < first_free h"
  shows "xi_heap_fix_order_up h i = h"
  using assms
proof (induction h i rule: xi_heap_fix_order_up.induct)
  case (1 h i)
  show ?case
  proof (cases "i = 0")
    case False
    have "\<not> slot_key h i < slot_key h (PARENT i)"
      using "1.prems" False by (simp add: heap_ordered_iff not_less)
    moreover have "PARENT i < first_free h" using PARENT_less [of i] False "1.prems"(2) by linarith
    ultimately show ?thesis using False "1.IH" [OF False refl] "1.prems"(1)
      by (simp add: xi_heap_fix_order_up.simps [of h i] Let_def)
  qed simp
qed

lemma fix_order_down_leaf:
  assumes "first_free h \<le> LEFT i"
  shows "xi_heap_fix_order_down h i = h"
  using assms
  by (simp add: xi_heap_fix_order_down_def xi_heap_fix_order_down_loop.simps [of True h i] bound_child_def Let_def)


lemma fix_order_down_loop_last:
  assumes "first_free h \<le> Suc c"
  shows "xi_heap_fix_order_down_loop False h c = h"
  using assms by (simp add: xi_heap_fix_order_down_loop.simps [of False h c] bound_child_def Let_def)

text \<open>When the last slot is a child of slot \<open>i\<close> and holds a larger key than slot \<open>i\<close>, the
  sift-down after the swap of \<open>i\<close> with the last slot swaps them back.\<close>

lemma fix_order_down_swap_back:
  fixes h :: "('k::linorder, 'v) xi_heap"
  assumes wf: "heap_wf h" and ord: "heap_ordered h"
    and c: "c = first_free h - 1" "0 < c" "PARENT c = i"
    and lt: "slot_key h i < slot_key h c"
  shows "xi_heap_fix_order_down (xi_heap_elements_swap h i c) i = h"
proof -
  note d = heap_wfD [OF wf]
  let ?h1 = "xi_heap_elements_swap h i c"
  have ic: "i < c" using c(2,3) PARENT_less by blast
  have cn: "c < first_free h" "c < capacity h" "i < capacity h" using c(1,2) ic d(4) by linarith+
  have f1: "slot_key ?h1 = (\<lambda>k. slot_key h (if k = c then i else if k = i then c else k))"
    using slot_key_swap_fun [OF wf cn(3,2)] .
  have swb: "xi_heap_fix_order_down_loop False (xi_heap_elements_swap ?h1 i c) c = h"
    using swap_swap [OF wf cn(3,2)] fix_order_down_loop_last [of "xi_heap_elements_swap ?h1 i c" c] c(1) cn
    by simp
  have "c = 2 * i + 1 \<or> c = 2 * i + 2" using PARENT_eq_iff [of c i] c(2,3) by simp
  then show ?thesis
  proof
    assume l: "c = 2 * i + 1"
    then have "bound_child ?h1 i (LEFT i) = c" "bound_child ?h1 i (RIGHT i) = i"
      using c(1) cn(1) by (auto simp: bound_child_def)
    then show ?thesis unfolding xi_heap_fix_order_down_def
      by (subst xi_heap_fix_order_down_loop.simps) (use swb lt ic f1 in \<open>simp add: Let_def\<close>)
  next
    assume r: "c = 2 * i + 2"
    have s: "2 * i + 1 < first_free h" "PARENT (2 * i + 1) = i" "0 < 2 * i + 1" using r cn(1) by simp_all
    have ks: "slot_key h i \<le> slot_key h (2 * i + 1)"
      using ord s unfolding heap_ordered_iff by metis
    have "bound_child ?h1 i (LEFT i) = 2 * i + 1" "bound_child ?h1 i (RIGHT i) = c"
      using r cn(1) by (auto simp: bound_child_def)
    then show ?thesis unfolding xi_heap_fix_order_down_def
      by (subst xi_heap_fix_order_down_loop.simps) (use swb lt ic f1 ks r in \<open>simp add: Let_def not_less\<close>)
  qed
qed


lemma nth_notin_take:
  assumes "distinct xs" "k < length xs"
  shows "xs ! k \<notin> set (take k xs)"
proof -
  have "distinct (take k xs @ [xs ! k])" using assms by (metis distinct_take take_Suc_conv_app_nth)
  then show ?thesis by simp
qed

lemma nth_in_take:
  assumes "j < k" "k \<le> length xs"
  shows "xs ! j \<in> set (take k xs)"
proof -
  have "take k xs ! j = xs ! j" "j < length (take k xs)" using assms by simp_all
  then show ?thesis by (metis nth_mem)
qed

lemma swap_first_free_upd:
  "xi_heap_elements_swap (h\<lparr>first_free := m\<rparr>) a b = (xi_heap_elements_swap h a b)\<lparr>first_free := m\<rparr>"
  by (simp add: xi_heap_elements_swap_def Let_def)

lemma slot_key_first_free_upd [simp]: "slot_key (h\<lparr>first_free := m\<rparr>) = slot_key h"
  by (simp add: slot_key_def fun_eq_iff)

lemma fix_order_up_first_free_upd:
  "xi_heap_fix_order_up (h\<lparr>first_free := m\<rparr>) i = (xi_heap_fix_order_up h i)\<lparr>first_free := m\<rparr>"
proof (induction h i rule: xi_heap_fix_order_up.induct)
  case (1 h i)
  show ?case
  proof (cases "i = 0")
    case False
    then show ?thesis using "1.IH" [OF False refl refl]
      by (simp add: xi_heap_fix_order_up.simps [of "h\<lparr>first_free := m\<rparr>" i]
                    xi_heap_fix_order_up.simps [of h i] Let_def swap_first_free_upd split: if_splits)
  qed simp
qed

lemma heap_ordered_shrink:
  "heap_ordered h \<Longrightarrow> m \<le> first_free h \<Longrightarrow> heap_ordered (h\<lparr>first_free := m\<rparr>)"
  by (simp add: heap_ordered_iff)

lemma take_last_split:
  assumes "0 < n" "n \<le> length xs"
  shows "take n xs = take (n - 1) xs @ [xs ! (n - 1)]"
  using assms by (metis Suc_diff_1 Suc_le_lessD take_Suc_conv_app_nth)


lemma leaf_swap_up_ordered:
  fixes h :: "('k::linorder, 'v) xi_heap"
  assumes wf: "heap_wf h" and ord: "heap_ordered h"
    and ilt: "i < first_free h - 1" and leaf: "first_free h \<le> LEFT i"
  shows "heap_ordered (xi_heap_fix_order_up
           ((xi_heap_elements_swap h i (first_free h - 1))\<lparr>first_free := first_free h - 1\<rparr>) i)"
proof -
  note d = heap_wfD [OF wf]
  let ?n = "first_free h" and ?i = i and ?f = "slot_key h"
  let ?c = "?n - 1"
  let ?h1 = "xi_heap_elements_swap h ?i ?c"
  let ?h1' = "?h1\<lparr>first_free := ?c\<rparr>"
  let ?h' = "xi_heap_fix_order_up ?h1' ?i"
  have cap: "?i < capacity h" "?c < capacity h" using ilt d(4) by linarith+
  have wf1': "heap_wf ?h1'" using heap_wf_shrink [OF heap_wf_swap [OF wf cap]] by simp
  have f1: "slot_key ?h1 = (\<lambda>k. ?f (if k = ?c then ?i else if k = ?i then ?c else k))"
    using slot_key_swap_fun [OF wf cap] .
  have nochild: "PARENT j \<noteq> ?i" if "0 < j" "j < ?n" for j
    using that leaf PARENT_eq_iff [of j ?i] by auto
  have ordered: "heap_ordered ?h'"
  proof (rule fix_order_up_ordered [OF wf1'])
    show "?i < first_free ?h1'" using ilt by simp
    show "\<forall>j. 0 < j \<longrightarrow> j < first_free ?h1' \<longrightarrow> j \<noteq> ?i \<longrightarrow>
            slot_key ?h1' (PARENT j) \<le> slot_key ?h1' j"
    proof (intro allI impI)
      fix j assume j: "0 < j" "j < first_free ?h1'" "j \<noteq> ?i"
      have pj: "PARENT j < j" "PARENT j \<noteq> ?i" using j nochild [of j] by simp_all
      then have "PARENT j \<noteq> ?c" using j(2) by simp
      with pj show "slot_key ?h1' (PARENT j) \<le> slot_key ?h1' j"
        using j f1 ord by (simp add: heap_ordered_iff)
    qed
    show "0 < ?i \<longrightarrow> (\<forall>j. 0 < j \<longrightarrow> j < first_free ?h1' \<longrightarrow> PARENT j = ?i \<longrightarrow>
            slot_key ?h1' (PARENT ?i) \<le> slot_key ?h1' j)"
      using nochild by auto
  qed
  then show ?thesis .
qed

lemma remove_leaf_last:
  fixes h :: "('k::linorder, 'v) xi_heap"
  assumes wf: "heap_wf h" and ord: "heap_ordered h" and live: "heap_live h p"
    and leaf: "first_free h \<le> LEFT (index (cells h ! p))"
    and last: "index (cells h ! p) = first_free h - 1"
  shows "\<exists>h'. xi_heap_element_remove h p = Inr h' \<and> heap_wf h' \<and> heap_ordered h' \<and>
           first_free h' = first_free h - 1 \<and> {q. heap_live h' q} = {q. heap_live h q} - {p} \<and>
           mset (heap_keys h') = mset (heap_keys h) - {#key (cells h ! p)#}"
proof -
  note d = heap_wfD [OF wf] and l = heap_live_slot [OF wf live]
  let ?i = "index (cells h ! p)" and ?n = "first_free h"
  let ?c = "?n - 1" and ?f = "slot_key h" and ?es = "elements h"
  have n0: "0 < ?n" using l(1) by simp
  have ic: "?i \<le> ?c" using l(1) by simp
  have len: "?n \<le> length ?es" using d(2,4) by simp
  have kp: "?f ?i = key (cells h ! p)" using l(2) by (simp add: slot_key_def)
  let ?h' = "h\<lparr>first_free := ?c\<rparr>"
  have rm: "xi_heap_element_remove h p = Inr ?h'"
    using last n0 by (simp add: xi_heap_element_remove_def Let_def)
  have tk: "take ?n ?es = take ?c ?es @ [p]"
    using take_last_split [OF n0 len] last l(2) by simp
  have "p \<notin> set (take ?c ?es)"
    using nth_notin_take [OF d(5), of ?c] len n0 last l(2) by simp
  then have lv: "heap_live ?h' q \<longleftrightarrow> heap_live h q \<and> q \<noteq> p" for q
    using tk by (auto simp: heap_live_def)
  have "heap_keys h = heap_keys ?h' @ [key (cells h ! p)]"
    using n0 last kp by (cases ?n) (simp_all add: heap_keys_def)
  then have ks: "mset (heap_keys ?h') = mset (heap_keys h) - {#key (cells h ! p)#}" by simp
  show ?thesis
    using rm heap_wf_shrink [OF wf] heap_ordered_shrink [OF ord] lv ks by auto
qed

lemma remove_leaf_inner:
  fixes h :: "('k::linorder, 'v) xi_heap"
  assumes wf: "heap_wf h" and ord: "heap_ordered h" and live: "heap_live h p"
    and leaf: "first_free h \<le> LEFT (index (cells h ! p))"
    and inner: "index (cells h ! p) \<noteq> first_free h - 1"
  shows "\<exists>h'. xi_heap_element_remove h p = Inr h' \<and> heap_wf h' \<and> heap_ordered h' \<and>
           first_free h' = first_free h - 1 \<and> {q. heap_live h' q} = {q. heap_live h q} - {p} \<and>
           mset (heap_keys h') = mset (heap_keys h) - {#key (cells h ! p)#}"
proof -
  note d = heap_wfD [OF wf] and l = heap_live_slot [OF wf live]
  let ?i = "index (cells h ! p)" and ?n = "first_free h"
  let ?c = "?n - 1" and ?f = "slot_key h" and ?es = "elements h"
  have n0: "0 < ?n" using l(1) by simp
  have ic: "?i \<le> ?c" using l(1) by simp
  have len: "?n \<le> length ?es" using d(2,4) by simp
  have kp: "?f ?i = key (cells h ! p)" using l(2) by (simp add: slot_key_def)
  have ilt: "?i < ?c" using ic inner by simp
  let ?h1 = "xi_heap_elements_swap h ?i ?c"
  let ?h1' = "?h1\<lparr>first_free := ?c\<rparr>"
  let ?h' = "xi_heap_fix_order_up ?h1' ?i"
  have cap: "?i < capacity h" "?c < capacity h" using ilt d(4) n0 by linarith+
  have wf1: "heap_wf ?h1" using heap_wf_swap [OF wf cap] .
  have wf1': "heap_wf ?h1'" using heap_wf_shrink [OF wf1] by simp
  have f1: "slot_key ?h1 = (\<lambda>k. ?f (if k = ?c then ?i else if k = ?i then ?c else k))"
    using slot_key_swap_fun [OF wf cap] .
  have down: "xi_heap_fix_order_down ?h1 ?i = ?h1"
    using fix_order_down_leaf [of ?h1 ?i] leaf by simp
  have e: "index (cells h ! (elements h ! ?i)) = ?i" using d(8) [OF l(1)] .
  have rm: "xi_heap_element_remove h p = Inr ?h'"
    using inner n0 down e
    by (simp add: xi_heap_element_remove_def Let_def fix_order_up_first_free_upd)
  have ordered: "heap_ordered ?h'"
    using leaf_swap_up_ordered [OF wf ord ilt leaf] .
  have es1: "elements ?h1 = ?es[?i := ?es ! ?c, ?c := ?es ! ?i]" by (simp add: elements_swap)
  have dist1: "distinct (elements ?h1)" using heap_wfD(5) [OF wf1] .
  have len1: "?n \<le> length (elements ?h1)" using len by (simp add: elements_swap)
  have last1: "elements ?h1 ! ?c = p" using es1 len n0 l(2) by simp
  have tk: "take ?n (elements ?h1) = take ?c (elements ?h1) @ [p]"
    using take_last_split [OF n0 len1] last1 by simp
  have st: "set (take ?n (elements ?h1)) = set (take ?n ?es)"
    using set_take_swap [of ?i ?n ?c ?es] ilt n0 len es1 by simp
  have "p \<notin> set (take ?c (elements ?h1))"
    using nth_notin_take [OF dist1, of ?c] len1 n0 last1 by simp
  then have lv1: "heap_live ?h1' q \<longleftrightarrow> heap_live h q \<and> q \<noteq> p" for q
    using tk st by (auto simp: heap_live_def)
  have lv: "heap_live ?h' q \<longleftrightarrow> heap_live h q \<and> q \<noteq> p" for q
    using heap_live_fix_order(1) [OF wf1', of ?i q] ilt lv1 by simp
  have m1: "mset (map (slot_key ?h1) [0..<?n]) = mset (heap_keys h)"
    using mset_heap_keys_swap [OF wf l(1), of ?c] ilt by (simp add: heap_keys_def)
  have "map (slot_key ?h1) [0..<?n] = heap_keys ?h1' @ [key (cells h ! p)]"
    using n0 f1 kp by (cases ?n) (simp_all add: heap_keys_def)
  then have "mset (heap_keys ?h1') = mset (heap_keys h) - {#key (cells h ! p)#}"
    using m1 by (metis add_mset_remove_trivial mset_append mset_single_iff_right union_mset_add_mset_right
                  add_mset_add_single)
  moreover have "mset (heap_keys ?h') = mset (heap_keys ?h1')"
    using mset_heap_keys_fix_order_up [OF wf1'] ilt by simp
  moreover have "heap_wf ?h'" using heap_wf_fix_order_up [OF wf1'] cap by simp
  ultimately show ?thesis using rm ordered lv by auto
qed

end
