(* ===== verification/Heap_Properties.thy ===== *)
theory Heap_Properties
  imports Heap_Order
begin

text \<open>
  The properties of the heap of \<^verbatim>\<open>src/src/libxively/xi_datastructures/xi_heap.c\<close> as a
  priority queue of handles: what each operation guarantees on a well-formed heap, where it
  refines the multiset of keys, and the general conditions under which the code departs from a
  heap. Witnesses evaluate the hypotheses on heaps built by \<open>xi_heap_run\<close> with
  \<open>code_simp\<close>.
\<close>

subsection \<open>Properties of the heap operations\<close>

text \<open>C1. \<^verbatim>\<open>xi_heap_element_add\<close> keeps the heap well formed (slots, cells and back-pointers
  agree) and min-ordered: after a successful insertion into a well-formed ordered heap, every
  live parent's key is at most its children's keys.\<close>

theorem xi_heap_element_add_invariant:
  assumes "heap_wf h" "heap_ordered h" "xi_heap_element_add h k v = Inr (h', r)"
  shows "heap_wf h' \<and> heap_ordered h'"
  using assms heap_wf_insert heap_ordered_insert by (metis xi_heap_element_add_def)

theorem xi_heap_element_add_invariant_witness:
  "heap_wf (fst (projr (xi_heap_run (the (xi_heap_create 4)) [Op_add (3::nat) (30::nat), Op_add 1 10]))) \<and>
   heap_ordered (fst (projr (xi_heap_run (the (xi_heap_create 4)) [Op_add (3::nat) (30::nat), Op_add 1 10]))) \<and>
   (\<exists>h'. xi_heap_element_add (fst (projr (xi_heap_run (the (xi_heap_create 4))
            [Op_add (3::nat) (30::nat), Op_add 1 10]))) 2 20 = Inr (h', Some 2) \<and>
         heap_wf h' \<and> heap_ordered h')"
proof -
  define h :: "(nat, nat) xi_heap" where
    "h = fst (projr (xi_heap_run (the (xi_heap_create 4)) [Op_add 3 30, Op_add 1 10]))"
  define h' where "h' = fst (projr (xi_heap_element_add h 2 20))"
  have hyp: "heap_wf h" "heap_ordered h" "xi_heap_element_add h 2 20 = Inr (h', Some 2)"
    unfolding h'_def h_def by code_simp+
  have "heap_wf h' \<and> heap_ordered h'"
    using xi_heap_element_add_invariant [OF hyp] .
  with hyp have "heap_wf h \<and> heap_ordered h \<and>
      (\<exists>h'. xi_heap_element_add h 2 20 = Inr (h', Some 2) \<and> heap_wf h' \<and> heap_ordered h')"
    by blast
  then show ?thesis unfolding h_def .
qed

text \<open>C2. \<^verbatim>\<open>xi_heap_element_remove\<close> removes the wrong handle whenever the last slot is a
  child of the removed handle's slot and holds a larger key: the removed element is swapped to
  the last slot, and the sift-down, which runs before \<^verbatim>\<open>first_free\<close> is decremented, swaps it
  straight back. The call then only drops the last slot: the handle asked for stays live and the
  handle of the last slot is lost.\<close>

theorem xi_heap_element_remove_keeps_removed:
  fixes h :: "('k::linorder, 'v) xi_heap"
  assumes wf: "heap_wf h" and ord: "heap_ordered h" and live: "heap_live h p"
    and par: "PARENT (first_free h - 1) = index (cells h ! p)" "1 < first_free h"
    and lt: "key (cells h ! p) < slot_key h (first_free h - 1)"
  shows "xi_heap_element_remove h p = Inr (h\<lparr>first_free := first_free h - 1\<rparr>) \<and>
         heap_live (h\<lparr>first_free := first_free h - 1\<rparr>) p \<and>
         \<not> heap_live (h\<lparr>first_free := first_free h - 1\<rparr>) (elements h ! (first_free h - 1))"
proof -
  note d = heap_wfD [OF wf] and l = heap_live_slot [OF wf live]
  let ?i = "index (cells h ! p)" and ?c = "first_free h - 1"
  have c0: "0 < ?c" using par(2) by simp
  have ic: "?i < ?c" using PARENT_less [OF c0] par(1) by simp
  have ki: "slot_key h ?i = key (cells h ! p)" using l(2) by (simp add: slot_key_def)
  have down: "xi_heap_fix_order_down (xi_heap_elements_swap h ?i ?c) ?i = h"
    using fix_order_down_swap_back [OF wf ord refl c0 par(1)] lt ki by simp
  have up: "xi_heap_fix_order_up h ?i = h"
    using fix_order_up_ordered_id [OF ord l(1)] .
  have e: "index (cells h ! (elements h ! ?i)) = ?i" using d(8) [OF l(1)] .
  have rm: "xi_heap_element_remove h p = Inr (h\<lparr>first_free := first_free h - 1\<rparr>)"
    using ic down up e par(2) unfolding xi_heap_element_remove_def Let_def by simp
  have len: "?c < length (elements h)" using d(2,4) par(2) by linarith
  have "p \<in> set (take ?c (elements h))"
    using nth_in_take [OF ic, of "elements h"] len l(2) by simp
  moreover have "elements h ! ?c \<notin> set (take ?c (elements h))"
    using nth_notin_take [OF d(5) len] .
  ultimately show ?thesis using rm by (simp add: heap_live_def)
qed

theorem xi_heap_element_remove_keeps_removed_witness:
  "let h = fst (projr (xi_heap_run (the (xi_heap_create 4))
             [Op_add (1::nat) (0::nat), Op_add 5 0, Op_add 2 0, Op_add 6 0]))
   in heap_wf h \<and> heap_ordered h \<and> heap_live h 1 \<and>
      PARENT (first_free h - 1) = index (cells h ! 1) \<and> 1 < first_free h \<and>
      key (cells h ! 1) < slot_key h (first_free h - 1) \<and>
      xi_heap_element_remove h 1 = Inr (h\<lparr>first_free := first_free h - 1\<rparr>) \<and>
      heap_live (h\<lparr>first_free := first_free h - 1\<rparr>) 1"
proof -
  define h :: "(nat, nat) xi_heap" where
    "h = fst (projr (xi_heap_run (the (xi_heap_create 4)) [Op_add 1 0, Op_add 5 0, Op_add 2 0, Op_add 6 0]))"
  have hyp: "heap_wf h" "heap_ordered h" "heap_live h 1" "PARENT (first_free h - 1) = index (cells h ! 1)"
    "1 < first_free h" "key (cells h ! 1) < slot_key h (first_free h - 1)"
    unfolding h_def by code_simp+
  show ?thesis
    using hyp xi_heap_element_remove_keeps_removed [OF hyp] unfolding h_def [symmetric] Let_def by blast
qed

text \<open>C3. Adding to a full heap is out of bounds: the capacity guard of
  \<^verbatim>\<open>xi_heap_element_add\<close> tests \<open>first_free > capacity\<close>, which never holds, so on a full
  heap the code reads \<^verbatim>\<open>elements[capacity]\<close>, one past the end of the array.\<close>

theorem xi_heap_element_add_full:
  assumes "heap_wf h" "first_free h = capacity h"
  shows "xi_heap_element_add h k v = Inl Out_of_bounds"
  using assms by (simp add: xi_heap_element_add_def xi_heap_element_insert_full)

theorem xi_heap_element_add_full_witness:
  "heap_wf (fst (projr (xi_heap_run (the (xi_heap_create 1)) [Op_add (1::nat) (0::nat)]))) \<and>
   first_free (fst (projr (xi_heap_run (the (xi_heap_create 1)) [Op_add (1::nat) (0::nat)]))) =
     capacity (fst (projr (xi_heap_run (the (xi_heap_create 1)) [Op_add (1::nat) (0::nat)]))) \<and>
   xi_heap_element_add (fst (projr (xi_heap_run (the (xi_heap_create 1)) [Op_add (1::nat) (0::nat)]))) 2 0 =
     Inl Out_of_bounds"
proof -
  define h :: "(nat, nat) xi_heap" where
    "h = fst (projr (xi_heap_run (the (xi_heap_create 1)) [Op_add 1 0]))"
  have hyp: "heap_wf h" "first_free h = capacity h" unfolding h_def by code_simp+
  have "heap_wf h \<and> first_free h = capacity h \<and> xi_heap_element_add h 2 0 = Inl Out_of_bounds"
    using hyp xi_heap_element_add_full [OF hyp] by blast
  then show ?thesis unfolding h_def .
qed

text \<open>C4. Adding to a well-formed heap that is not full succeeds and refines insertion into a
  multiset of keys: it returns a live handle carrying the new key, and the heap's keys grow by
  exactly that key.\<close>

theorem xi_heap_element_add_refines:
  fixes h :: "('k::linorder, 'v) xi_heap"
  assumes wf: "heap_wf h" and ff: "first_free h < capacity h"
  shows "\<exists>h' p. xi_heap_element_add h k v = Inr (h', Some p) \<and> heap_live h' p \<and>
            key (cells h' ! p) = k \<and> mset (heap_keys h') = add_mset k (mset (heap_keys h))"
proof -
  define e where "e = elements h ! first_free h"
  define h1 where "h1 = h\<lparr>cells := (cells h)[e := (cells h ! e)\<lparr>index := first_free h, key := k,
                    heap_value := Type_value v\<rparr>], first_free := Suc (first_free h)\<rparr>"
  note ins = xi_heap_element_insert_Inr [OF wf ff, where k = k and v = "Type_value v", folded e_def h1_def]
  note d = heap_wfD [OF wf]
  have add: "xi_heap_element_add h k v = Inr (xi_heap_fix_order_up h1 (first_free h), Some e)"
    using ins(1) by (simp add: xi_heap_element_add_def h1_def)
  have wf1: "heap_wf h1" using ins(2) by (simp add: h1_def)
  have lt: "first_free h < first_free h1" by (simp add: h1_def)
  have "heap_live h1 (elements h1 ! first_free h)" using heap_live_nth [OF wf1 lt] .
  then have live1: "heap_live h1 e" by (simp add: h1_def e_def)
  have key1: "key (cells h1 ! e) = k" using d ff by (simp add: h1_def e_def)
  have ms: "mset (heap_keys (xi_heap_fix_order_up h1 (first_free h))) = add_mset k (mset (heap_keys h))"
    using mset_heap_keys_insert [OF wf ins(1)] by (simp add: h1_def)
  show ?thesis
    using add heap_live_fix_order(1,2) [OF wf1 lt] live1 key1 ms by auto
qed

theorem xi_heap_element_add_refines_witness:
  "heap_wf (the (xi_heap_create 2) :: (nat, nat) xi_heap) \<and>
   first_free (the (xi_heap_create 2) :: (nat, nat) xi_heap) < capacity (the (xi_heap_create 2) :: (nat, nat) xi_heap) \<and>
   (\<exists>h' p. xi_heap_element_add (the (xi_heap_create 2) :: (nat, nat) xi_heap) 7 0 = Inr (h', Some p) \<and>
      heap_live h' p \<and> key (cells h' ! p) = 7 \<and>
      mset (heap_keys h') = add_mset 7 (mset (heap_keys (the (xi_heap_create 2) :: (nat, nat) xi_heap))))"
proof -
  define h :: "(nat, nat) xi_heap" where "h = the (xi_heap_create 2)"
  have hyp: "heap_wf h" "first_free h < capacity h" unfolding h_def by code_simp+
  have "heap_wf h \<and> first_free h < capacity h \<and>
    (\<exists>h' p. xi_heap_element_add h 7 0 = Inr (h', Some p) \<and> heap_live h' p \<and> key (cells h' ! p) = 7 \<and>
      mset (heap_keys h') = add_mset 7 (mset (heap_keys h)))"
    using hyp xi_heap_element_add_refines [OF hyp] by blast
  then show ?thesis unfolding h_def .
qed

text \<open>C5. On a non-empty well-formed ordered heap \<^verbatim>\<open>xi_heap_get_top\<close> refines deletion of the
  minimum from the multiset of keys: the returned handle carries the least key, the remaining
  keys are the old ones minus that key, and the heap stays well formed.\<close>

theorem xi_heap_get_top_refines:
  fixes h :: "('k::linorder, 'v) xi_heap"
  assumes wf: "heap_wf h" and ord: "heap_ordered h" and pos: "0 < first_free h"
  shows "\<exists>p. snd (xi_heap_get_top h) = Some p \<and> key (cells h ! p) = Min (set (heap_keys h)) \<and>
           mset (heap_keys (fst (xi_heap_get_top h))) = mset (heap_keys h) - {#key (cells h ! p)#} \<and>
           heap_wf (fst (xi_heap_get_top h))"
proof -
  note m = xi_heap_get_top_min [OF wf ord pos]
  have k0: "key (cells h ! (elements h ! 0)) = slot_key h 0" by (simp add: slot_key_def)
  have mem: "slot_key h 0 \<in> set (heap_keys h)" using pos by (simp add: heap_keys_def)
  have "key (cells h ! (elements h ! 0)) = Min (set (heap_keys h))"
    using m(2) mem k0 by (intro Min_eqI [symmetric]) simp_all
  then show ?thesis
    using m(1) k0 mset_heap_keys_get_top [OF wf pos] heap_wf_get_top [OF wf] by auto
qed

theorem xi_heap_get_top_refines_witness:
  "heap_wf (fst (projr (xi_heap_run (the (xi_heap_create 3)) [Op_add (2::nat) (0::nat), Op_add 1 0]))) \<and>
   heap_ordered (fst (projr (xi_heap_run (the (xi_heap_create 3)) [Op_add (2::nat) (0::nat), Op_add 1 0]))) \<and>
   0 < first_free (fst (projr (xi_heap_run (the (xi_heap_create 3)) [Op_add (2::nat) (0::nat), Op_add 1 0]))) \<and>
   (\<exists>p. snd (xi_heap_get_top (fst (projr (xi_heap_run (the (xi_heap_create 3))
            [Op_add (2::nat) (0::nat), Op_add 1 0])))) = Some p \<and>
      key (cells (fst (projr (xi_heap_run (the (xi_heap_create 3)) [Op_add (2::nat) (0::nat), Op_add 1 0]))) ! p) =
        Min (set (heap_keys (fst (projr (xi_heap_run (the (xi_heap_create 3)) [Op_add (2::nat) (0::nat), Op_add 1 0]))))) \<and>
      mset (heap_keys (fst (xi_heap_get_top (fst (projr (xi_heap_run (the (xi_heap_create 3))
            [Op_add (2::nat) (0::nat), Op_add 1 0])))))) =
        mset (heap_keys (fst (projr (xi_heap_run (the (xi_heap_create 3)) [Op_add (2::nat) (0::nat), Op_add 1 0])))) -
        {#key (cells (fst (projr (xi_heap_run (the (xi_heap_create 3)) [Op_add (2::nat) (0::nat), Op_add 1 0]))) ! p)#} \<and>
      heap_wf (fst (xi_heap_get_top (fst (projr (xi_heap_run (the (xi_heap_create 3))
            [Op_add (2::nat) (0::nat), Op_add 1 0]))))))"
proof -
  define h :: "(nat, nat) xi_heap" where
    "h = fst (projr (xi_heap_run (the (xi_heap_create 3)) [Op_add 2 0, Op_add 1 0]))"
  have hyp: "heap_wf h" "heap_ordered h" "0 < first_free h" unfolding h_def by code_simp+
  have "heap_wf h \<and> heap_ordered h \<and> 0 < first_free h \<and>
    (\<exists>p. snd (xi_heap_get_top h) = Some p \<and> key (cells h ! p) = Min (set (heap_keys h)) \<and>
      mset (heap_keys (fst (xi_heap_get_top h))) = mset (heap_keys h) - {#key (cells h ! p)#} \<and>
      heap_wf (fst (xi_heap_get_top h)))"
    using hyp xi_heap_get_top_refines [OF hyp] by blast
  then show ?thesis unfolding h_def .
qed

text \<open>C6. When the heap holds an even number of elements, \<^verbatim>\<open>xi_heap_get_top\<close> keeps a
  well-formed ordered heap well formed and ordered: after the shrink the size is odd, so no node
  has exactly one child and the early exit of the sift-down is harmless.\<close>

theorem xi_heap_get_top_even_invariant:
  fixes h :: "('k::linorder, 'v) xi_heap"
  assumes "heap_wf h" "heap_ordered h" "even (first_free h)"
  shows "heap_wf (fst (xi_heap_get_top h)) \<and> heap_ordered (fst (xi_heap_get_top h))"
  using heap_wf_get_top [OF assms(1)] heap_ordered_get_top_even [OF assms] by simp

theorem xi_heap_get_top_even_invariant_witness:
  "heap_wf (fst (projr (xi_heap_run (the (xi_heap_create 5))
      [Op_add (1::nat) (0::nat), Op_add 2 0, Op_add 9 0, Op_add 3 0]))) \<and>
   heap_ordered (fst (projr (xi_heap_run (the (xi_heap_create 5))
      [Op_add (1::nat) (0::nat), Op_add 2 0, Op_add 9 0, Op_add 3 0]))) \<and>
   even (first_free (fst (projr (xi_heap_run (the (xi_heap_create 5))
      [Op_add (1::nat) (0::nat), Op_add 2 0, Op_add 9 0, Op_add 3 0])))) \<and>
   heap_wf (fst (xi_heap_get_top (fst (projr (xi_heap_run (the (xi_heap_create 5))
      [Op_add (1::nat) (0::nat), Op_add 2 0, Op_add 9 0, Op_add 3 0]))))) \<and>
   heap_ordered (fst (xi_heap_get_top (fst (projr (xi_heap_run (the (xi_heap_create 5))
      [Op_add (1::nat) (0::nat), Op_add 2 0, Op_add 9 0, Op_add 3 0])))))"
proof -
  define h :: "(nat, nat) xi_heap" where
    "h = fst (projr (xi_heap_run (the (xi_heap_create 5)) [Op_add 1 0, Op_add 2 0, Op_add 9 0, Op_add 3 0]))"
  have hyp: "heap_wf h" "heap_ordered h" "even (first_free h)" unfolding h_def by code_simp+
  have "heap_wf h \<and> heap_ordered h \<and> even (first_free h) \<and>
      heap_wf (fst (xi_heap_get_top h)) \<and> heap_ordered (fst (xi_heap_get_top h))"
    using hyp xi_heap_get_top_even_invariant [OF hyp] by blast
  then show ?thesis unfolding h_def .
qed

text \<open>C7. Removing a handle that sits in a leaf slot of a well-formed ordered heap refines
  deletion from the priority queue: the result is well formed and ordered, one slot shorter,
  its live handles are the old ones without the removed handle, and its key multiset loses
  exactly the removed handle's key.\<close>

theorem xi_heap_element_remove_leaf_refines:
  fixes h :: "('k::linorder, 'v) xi_heap"
  assumes wf: "heap_wf h" and ord: "heap_ordered h" and live: "heap_live h p"
    and leaf: "first_free h \<le> LEFT (index (cells h ! p))"
  shows "\<exists>h'. xi_heap_element_remove h p = Inr h' \<and> heap_wf h' \<and> heap_ordered h' \<and>
           first_free h' = first_free h - 1 \<and> {q. heap_live h' q} = {q. heap_live h q} - {p} \<and>
           mset (heap_keys h') = mset (heap_keys h) - {#key (cells h ! p)#}"
  using remove_leaf_last [OF assms] remove_leaf_inner [OF assms] by blast

theorem xi_heap_element_remove_leaf_refines_witness:
  "let h = fst (projr (xi_heap_run (the (xi_heap_create 4))
             [Op_add (1::nat) (0::nat), Op_add 5 0, Op_add 2 0]))
   in heap_wf h \<and> heap_ordered h \<and> heap_live h 2 \<and> first_free h \<le> LEFT (index (cells h ! 2)) \<and>
      (\<exists>h'. xi_heap_element_remove h 2 = Inr h' \<and> heap_wf h' \<and> heap_ordered h' \<and>
           first_free h' = first_free h - 1 \<and> {q. heap_live h' q} = {q. heap_live h q} - {2} \<and>
           mset (heap_keys h') = mset (heap_keys h) - {#key (cells h ! 2)#})"
proof -
  define h :: "(nat, nat) xi_heap" where
    "h = fst (projr (xi_heap_run (the (xi_heap_create 4)) [Op_add 1 0, Op_add 5 0, Op_add 2 0]))"
  have hyp: "heap_wf h" "heap_ordered h" "heap_live h 2" "first_free h \<le> LEFT (index (cells h ! 2))"
    unfolding h_def by code_simp+
  show ?thesis
    using hyp xi_heap_element_remove_leaf_refines [OF hyp] unfolding h_def [symmetric] Let_def by blast
qed

text \<open>C8. Updating the key of a live handle keeps the heap well formed, keeps the handle live
  with the new key, and replaces the old key by the new one in the multiset of keys.\<close>

theorem xi_heap_element_update_key_refines:
  fixes h :: "('k::linorder, 'v) xi_heap"
  assumes wf: "heap_wf h" and live: "heap_live h p"
  shows "heap_wf (xi_heap_element_update_key h p k) \<and> heap_live (xi_heap_element_update_key h p k) p \<and>
         key (cells (xi_heap_element_update_key h p k) ! p) = k \<and>
         mset (heap_keys (xi_heap_element_update_key h p k)) = add_mset k (mset (heap_keys h) - {#key (cells h ! p)#})"
proof -
  note u = xi_heap_element_update_key_parts [OF wf live, where k = k]
    and l = heap_live_slot [OF wf live]
  let ?h1 = "h\<lparr>cells := (cells h)[p := (cells h ! p)\<lparr>key := k\<rparr>]\<rparr>"
  let ?ei = "index (cells h ! p)"
  let ?h2 = "xi_heap_fix_order_down ?h1 ?ei"
  have i1: "?ei < first_free ?h1" using l u(3) by simp
  have wf2: "heap_wf ?h2"
    using heap_wf_fix_order_down [OF u(2)] i1 heap_wfD(4) [OF u(2)] by simp
  have i2: "?ei < first_free ?h2" using i1 by simp
  have live2: "heap_live ?h2 p" "key (cells ?h2 ! p) = k"
    using heap_live_fix_order(3,4) [OF u(2) i1] u(4,5) by simp_all
  have "heap_wf (xi_heap_fix_order_up ?h2 ?ei)"
    using heap_wf_fix_order_up [OF wf2] i2 heap_wfD(4) [OF wf2] by simp
  then show ?thesis
    using u(1) heap_live_fix_order(1,2) [OF wf2 i2] live2 mset_heap_keys_update_key [OF wf live, of k, unfolded u(1)] by simp
qed

theorem xi_heap_element_update_key_refines_witness:
  "heap_wf (fst (projr (xi_heap_run (the (xi_heap_create 4)) [Op_add (1::nat) (0::nat), Op_add 5 0, Op_add 2 0]))) \<and>
   heap_live (fst (projr (xi_heap_run (the (xi_heap_create 4)) [Op_add (1::nat) (0::nat), Op_add 5 0, Op_add 2 0]))) 1 \<and>
   (let h' = xi_heap_element_update_key (fst (projr (xi_heap_run (the (xi_heap_create 4))
               [Op_add (1::nat) (0::nat), Op_add 5 0, Op_add 2 0]))) 1 0
    in heap_wf h' \<and> heap_live h' 1 \<and> key (cells h' ! 1) = 0 \<and>
       mset (heap_keys h') = add_mset 0 (mset (heap_keys (fst (projr (xi_heap_run (the (xi_heap_create 4))
               [Op_add (1::nat) (0::nat), Op_add 5 0, Op_add 2 0])))) -
         {#key (cells (fst (projr (xi_heap_run (the (xi_heap_create 4))
               [Op_add (1::nat) (0::nat), Op_add 5 0, Op_add 2 0]))) ! 1)#}))"
proof -
  define h :: "(nat, nat) xi_heap" where
    "h = fst (projr (xi_heap_run (the (xi_heap_create 4)) [Op_add 1 0, Op_add 5 0, Op_add 2 0]))"
  have hyp: "heap_wf h" "heap_live h 1" unfolding h_def by code_simp+
  have "heap_wf h \<and> heap_live h 1 \<and>
    (let h' = xi_heap_element_update_key h 1 0
     in heap_wf h' \<and> heap_live h' 1 \<and> key (cells h' ! 1) = 0 \<and>
        mset (heap_keys h') = add_mset 0 (mset (heap_keys h) - {#key (cells h ! 1)#}))"
    using hyp xi_heap_element_update_key_refines [OF hyp, of 0] by (simp only: Let_def)
  then show ?thesis unfolding h_def .
qed

text \<open>C9. The observers agree with the queue: on a well-formed heap \<^verbatim>\<open>xi_heap_is_empty\<close>
  answers 1 exactly when no key is stored, and \<^verbatim>\<open>xi_heap_get_top\<close> returns the handle
  \<^verbatim>\<open>xi_heap_peek_top\<close> shows whenever the heap is not empty, and nothing otherwise.\<close>

theorem xi_heap_observers:
  fixes h :: "('k::linorder, 'v) xi_heap"
  assumes "heap_wf h"
  shows "xi_heap_is_empty h = (if heap_keys h = [] then 1 else 0) \<and>
         snd (xi_heap_get_top h) = (if heap_keys h = [] then None else Some (xi_heap_peek_top h))"
proof (cases "first_free h = 0")
  case False
  then show ?thesis using xi_heap_get_top_eq [OF assms]
    by (simp add: heap_keys_def xi_heap_is_empty_def xi_heap_peek_top_def)
qed (simp add: heap_keys_def xi_heap_is_empty_def xi_heap_get_top_def)

theorem xi_heap_observers_witness:
  "heap_wf (fst (projr (xi_heap_run (the (xi_heap_create 3)) [Op_add (4::nat) (0::nat), Op_add 2 0]))) \<and>
   xi_heap_is_empty (fst (projr (xi_heap_run (the (xi_heap_create 3)) [Op_add (4::nat) (0::nat), Op_add 2 0]))) =
     (if heap_keys (fst (projr (xi_heap_run (the (xi_heap_create 3)) [Op_add (4::nat) (0::nat), Op_add 2 0]))) = []
      then 1 else 0) \<and>
   snd (xi_heap_get_top (fst (projr (xi_heap_run (the (xi_heap_create 3)) [Op_add (4::nat) (0::nat), Op_add 2 0])))) =
     (if heap_keys (fst (projr (xi_heap_run (the (xi_heap_create 3)) [Op_add (4::nat) (0::nat), Op_add 2 0]))) = []
      then None
      else Some (xi_heap_peek_top (fst (projr (xi_heap_run (the (xi_heap_create 3)) [Op_add (4::nat) (0::nat), Op_add 2 0])))))"
proof -
  define h :: "(nat, nat) xi_heap" where
    "h = fst (projr (xi_heap_run (the (xi_heap_create 3)) [Op_add 4 0, Op_add 2 0]))"
  have hyp: "heap_wf h" unfolding h_def by code_simp
  have "heap_wf h \<and> xi_heap_is_empty h = (if heap_keys h = [] then 1 else 0) \<and>
     snd (xi_heap_get_top h) = (if heap_keys h = [] then None else Some (xi_heap_peek_top h))"
    using hyp xi_heap_observers [OF hyp] by blast
  then show ?thesis unfolding h_def .
qed

end
