(* ===== verification/Layer_Chain.thy ===== *)
theory Layer_Chain
  imports Prelude
begin

text \<open>
  The interface between the request drivers of \<^verbatim>\<open>src/src/libxively/xively.c\<close> and the
  layer chain they drive. The layers themselves (the io layer, the http, csv and mqtt layers)
  are not part of the repository; a driver only calls them through the
  \<^verbatim>\<open>CALL_ON_SELF_*\<close> macros on the chain's \<^verbatim>\<open>top\<close> and \<^verbatim>\<open>bottom\<close> layers and looks at the
  \<^verbatim>\<open>layer_state_t\<close> they return. So the chain is a record of functions over an abstract
  world \<open>'w\<close> paired with the response buffer \<open>'r\<close> the top layer fills, and every driver is
  stated for every chain. Each call a driver makes is recorded in an explicit trace, so the
  order of the calls and the calls that are skipped are facts about the model.
\<close>

text \<open>The result codes of a layer operation, as the layer contract names them.\<close>

datatype layer_state = LAYER_STATE_OK | LAYER_STATE_ERROR | LAYER_STATE_INCOMPLETE | LAYER_STATE_TIMEOUT

text \<open>The operations of a chain a driver calls: init and connect and on-data-ready on the
  bottom (io) layer, data-ready and close on the top layer. Data-ready takes the driver's
  input descriptor, whose type \<open>'i\<close> depends on the protocol.\<close>

record ('i, 'w, 'r) layer_chain =
  io_init :: "'w \<times> 'r \<Rightarrow> ('w \<times> 'r) \<times> layer_state"
  io_connect :: "'w \<times> 'r \<Rightarrow> ('w \<times> 'r) \<times> layer_state"
  top_data_ready :: "'i \<Rightarrow> 'w \<times> 'r \<Rightarrow> ('w \<times> 'r) \<times> layer_state"
  io_on_data_ready :: "'w \<times> 'r \<Rightarrow> ('w \<times> 'r) \<times> layer_state"
  top_close :: "'w \<times> 'r \<Rightarrow> ('w \<times> 'r) \<times> layer_state"

datatype 'i layer_call = Init_io | Connect_io | Data_ready_top 'i | On_data_ready_io | Close_top

text \<open>
  The request sequence every blocking call of the HTTP build runs
  (\<^verbatim>\<open>xi_feed_get\<close> and its eight siblings): init the io layer and return 0 unless it answers
  OK; connect it with the compile-time host and port and return 0 unless OK; clear the
  response; hand the input to the top layer; only if that answers OK let the io layer deliver
  the reply upwards; close the top layer; return the response. \<open>Some r\<close> is the response the
  returned pointer shows, \<open>None\<close> the null pointer.
\<close>

definition xi_http_request ::
  "('i, 'w, 'r::zero) layer_chain \<Rightarrow> 'i \<Rightarrow> 'w \<times> 'r \<Rightarrow> ('w \<times> 'r) \<times> 'i layer_call list \<times> 'r option" where
  "xi_http_request ops input s0 =
     (case io_init ops s0 of
        (s1, state) \<Rightarrow>
          if state \<noteq> LAYER_STATE_OK then (s1, [Init_io], None)
          else
            (case io_connect ops s1 of
               (s2, state) \<Rightarrow>
                 if state \<noteq> LAYER_STATE_OK then (s2, [Init_io, Connect_io], None)
                 else
                   (case top_data_ready ops input (fst s2, 0) of
                      (s4, state) \<Rightarrow>
                        let s5 = (if state = LAYER_STATE_OK then fst (io_on_data_ready ops s4) else s4);
                            tr = [Init_io, Connect_io, Data_ready_top input] @
                                 (if state = LAYER_STATE_OK then [On_data_ready_io] else []);
                            s6 = fst (top_close ops s5)
                        in (s6, tr @ [Close_top], Some (snd s6)))))"

subsection \<open>The shapes of a request\<close>

lemma xi_http_request_init_fails:
  "snd (io_init ops s0) \<noteq> LAYER_STATE_OK \<Longrightarrow>
   xi_http_request ops input s0 = (fst (io_init ops s0), [Init_io], None)"
  by (cases "io_init ops s0") (simp add: xi_http_request_def)

lemma xi_http_request_connect_fails:
  "snd (io_init ops s0) = LAYER_STATE_OK \<Longrightarrow> snd (io_connect ops (fst (io_init ops s0))) \<noteq> LAYER_STATE_OK \<Longrightarrow>
   xi_http_request ops input s0 =
     (fst (io_connect ops (fst (io_init ops s0))), [Init_io, Connect_io], None)"
  by (cases "io_init ops s0", cases "io_connect ops (fst (io_init ops s0))") (simp add: xi_http_request_def)

lemma xi_http_request_connected:
  fixes input :: 'i and ops :: "('i, 'w, 'r::zero) layer_chain"
  assumes "snd (io_init ops s0) = LAYER_STATE_OK" "snd (io_connect ops (fst (io_init ops s0))) = LAYER_STATE_OK"
  defines "s3 \<equiv> (fst (fst (io_connect ops (fst (io_init ops s0)))), 0)"
  defines "s4 \<equiv> top_data_ready ops input s3"
  defines "s5 \<equiv> (if snd s4 = LAYER_STATE_OK then fst (io_on_data_ready ops (fst s4)) else fst s4)"
  shows "xi_http_request ops input s0 =
    (fst (top_close ops s5),
     [Init_io, Connect_io, Data_ready_top input] @
       (if snd s4 = LAYER_STATE_OK then [On_data_ready_io] else []) @ [Close_top],
     Some (snd (fst (top_close ops s5))))"
  using assms
  by (cases "io_init ops s0", cases "io_connect ops (fst (io_init ops s0))", cases s4)
    (simp add: xi_http_request_def s3_def s4_def s5_def Let_def)

lemmas xi_http_request_cases =
  xi_http_request_init_fails xi_http_request_connect_fails xi_http_request_connected

lemma xi_http_request_trace:
  fixes ops :: "('i, 'w, 'r::zero) layer_chain"
  shows "fst (snd (xi_http_request ops input s0)) \<in>
           {[Init_io], [Init_io, Connect_io], [Init_io, Connect_io, Data_ready_top input, Close_top],
            [Init_io, Connect_io, Data_ready_top input, On_data_ready_io, Close_top]} \<and>
         (snd (snd (xi_http_request ops input s0)) = None \<longleftrightarrow>
            Close_top \<notin> set (fst (snd (xi_http_request ops input s0))))"
proof (cases "snd (io_init ops s0) = LAYER_STATE_OK")
  case ok1: True
  show ?thesis
  proof (cases "snd (io_connect ops (fst (io_init ops s0))) = LAYER_STATE_OK")
    case True
    then show ?thesis using xi_http_request_connected [OF ok1 True, of input] by simp
  qed (simp add: ok1 xi_http_request_connect_fails)
qed (simp add: xi_http_request_init_fails)


lemma xi_http_request_trace_results:
  fixes ops :: "('i, 'w, 'r::zero) layer_chain" and s0 and input :: 'i
  defines "ok1 \<equiv> snd (io_init ops s0) = LAYER_STATE_OK"
    and "ok2 \<equiv> snd (io_connect ops (fst (io_init ops s0))) = LAYER_STATE_OK"
    and "ok3 \<equiv> snd (top_data_ready ops input (fst (fst (io_connect ops (fst (io_init ops s0)))), 0)) = LAYER_STATE_OK"
    and "tr \<equiv> fst (snd (xi_http_request ops input s0))"
  shows "(Connect_io \<in> set tr \<longleftrightarrow> ok1) \<and> (Data_ready_top input \<in> set tr \<longleftrightarrow> ok1 \<and> ok2) \<and>
         (On_data_ready_io \<in> set tr \<longleftrightarrow> ok1 \<and> ok2 \<and> ok3) \<and> (Close_top \<in> set tr \<longleftrightarrow> ok1 \<and> ok2)"
proof (cases ok1)
  case o1: True
  show ?thesis
  proof (cases ok2)
    case True
    then show ?thesis
      using o1 xi_http_request_connected [of ops s0 input] unfolding ok1_def ok2_def ok3_def tr_def by simp
  qed (use o1 xi_http_request_connect_fails [of ops s0 input] in \<open>simp add: ok1_def ok2_def tr_def\<close>)
qed (use xi_http_request_init_fails [of ops s0 input] in \<open>simp add: ok1_def tr_def\<close>)

end
