(* ===== verification/Xively_Context.thy ===== *)
theory Xively_Context
  imports Layer_Chain
begin

text \<open>
  Context creation and deletion of \<^verbatim>\<open>src/src/libxively/xively.c\<close>
  (\<^verbatim>\<open>xi_create_context\<close>, \<^verbatim>\<open>xi_delete_context\<close>, lines 354 to 489) and the global network
  timeout (lines 170 to 179). The function is written once for three builds, selected by the
  preprocessor; the build is an argument of the model. The global state is an explicit store:
  the allocator (addresses handed out and not yet freed, with an oracle saying which
  allocation fails), the event dispatcher's global instance and reference count, the
  dispatcher instances alive, the static response buffer shared by every HTTP chain, and the
  network timeout. The layer factory (\<^verbatim>\<open>create_and_connect_layers\<close>) is not in the repository;
  the chain it returns is recorded by its connection scheme and the user data it is given.
\<close>

record xi_build =
  XI_MQTT_ENABLED :: bool
  XI_NOB_ENABLED :: bool

datatype xi_protocol = XI_HTTP | XI_MQTT

datatype connection_scheme = CONNECTION_SCHEME_1 | CONNECTION_SCHEME_2

text \<open>Where a user-data pointer of a chain points: nowhere (0), or one of the function-local
  statics of the \<^verbatim>\<open>XI_HTTP\<close> branch.\<close>

datatype user_data = No_user_data | Static_http_layer_data | Static_csv_layer_data

record xi_context =
  protocol :: xi_protocol
  feed_id :: int
  api_key :: "ptr option"
  layer_chain :: "connection_scheme \<times> user_data list"

record 'r xi_globals =
  allocated :: "ptr set"
  next_ptr :: ptr
  alloc_oracle :: "bool list"
  contexts :: "ptr \<rightharpoonup> xi_context"
  xi_evtd_instance :: "ptr option"
  xi_evtd_ref_count :: int
  evtd_alive :: "ptr set"
  xi_response_static :: 'r
  network_timeout :: "32 word"

subsection \<open>The allocator and the dispatcher instance\<close>

text \<open>\<^verbatim>\<open>xi_alloc\<close> returns a fresh block or, when the oracle says so, the null pointer;
  \<^verbatim>\<open>xi_free\<close> of a block that is not allocated is a fault.\<close>

definition xi_alloc :: "'r xi_globals \<Rightarrow> ptr option \<times> 'r xi_globals" where
  "xi_alloc g =
     (case alloc_oracle g of
        False # os \<Rightarrow> (None, g\<lparr>alloc_oracle := os\<rparr>)
      | os \<Rightarrow> (Some (next_ptr g),
                g\<lparr>allocated := insert (next_ptr g) (allocated g), next_ptr := Suc (next_ptr g),
                  alloc_oracle := drop 1 os\<rparr>))"

definition xi_free :: "ptr \<Rightarrow> 'r xi_globals \<Rightarrow> c_fault + 'r xi_globals" where
  "xi_free p g = (if p \<in> allocated g then Inr (g\<lparr>allocated := allocated g - {p}\<rparr>) else Inl Use_after_free)"

definition xi_evtd_create_instance :: "'r xi_globals \<Rightarrow> ptr option \<times> 'r xi_globals" where
  "xi_evtd_create_instance g =
     (case xi_alloc g of
        (None, g') \<Rightarrow> (None, g')
      | (Some p, g') \<Rightarrow> (Some p, g'\<lparr>evtd_alive := insert p (evtd_alive g')\<rparr>))"

definition xi_evtd_destroy_instance :: "ptr option \<Rightarrow> 'r xi_globals \<Rightarrow> c_fault + 'r xi_globals" where
  "xi_evtd_destroy_instance inst g =
     (case inst of
        None \<Rightarrow> Inl Null_deref
      | Some p \<Rightarrow> (case xi_free p g of
                    Inl f \<Rightarrow> Inl f
                  | Inr g' \<Rightarrow> Inr (g'\<lparr>evtd_alive := evtd_alive g' - {p}\<rparr>)))"

subsection \<open>Creating and deleting a context\<close>

text \<open>The dispatcher prologue of \<^verbatim>\<open>xi_create_context\<close> in the MQTT build with NOB: create the
  global instance when the count is 0, otherwise count one more user. A failed creation stores
  the null pointer in the global instance and jumps to \<^verbatim>\<open>err_handling\<close>, which in this build
  frees nothing.\<close>

definition xi_create_context_evtd :: "xi_build \<Rightarrow> 'r xi_globals \<Rightarrow> 'r xi_globals \<times> bool" where
  "xi_create_context_evtd b g =
     (if XI_MQTT_ENABLED b \<and> XI_NOB_ENABLED b then
        (if xi_evtd_ref_count g = 0 then
           (case xi_evtd_create_instance g of
              (None, g') \<Rightarrow> (g'\<lparr>xi_evtd_instance := None\<rparr>, False)
            | (Some i, g') \<Rightarrow> (g'\<lparr>xi_evtd_instance := Some i\<rparr>, True))
         else (g\<lparr>xi_evtd_ref_count := xi_evtd_ref_count g + 1\<rparr>, True))
      else (g, True))"

text \<open>The error exit: in the HTTP build it frees the duplicated api key and the context; in the
  MQTT build it frees nothing.\<close>

definition xi_create_context_err :: "xi_build \<Rightarrow> ptr \<Rightarrow> ptr option \<Rightarrow> 'r xi_globals \<Rightarrow> 'r xi_globals" where
  "xi_create_context_err b ret key g =
     (if XI_MQTT_ENABLED b then g
      else (let g1 = (case key of None \<Rightarrow> g | Some k \<Rightarrow> g\<lparr>allocated := allocated g - {k}\<rparr>)
            in g1\<lparr>allocated := allocated g1 - {ret}\<rparr>))"

text \<open>What follows the allocation of the context \<open>ret\<close>: copy the feed id, duplicate the
  api key (HTTP build), then the protocol switch of the build: build the chain with its user
  data, or jump to the error exit for a protocol the build does not know.\<close>

definition xi_create_context_fill ::
  "xi_build \<Rightarrow> xi_protocol \<Rightarrow> string option \<Rightarrow> int \<Rightarrow> ptr \<Rightarrow> 'r::zero xi_globals \<Rightarrow> 'r xi_globals \<times> ptr option" where
  "xi_create_context_fill b proto key fid ret g2 =
     (let dup = (if \<not> XI_MQTT_ENABLED b \<and> key \<noteq> None then xi_alloc g2 else (None, g2));
          g3 = snd dup; k = fst dup
      in if \<not> XI_MQTT_ENABLED b \<and> key \<noteq> None \<and> k = None then
           (xi_create_context_err b ret None g3, None)
         else
           (let c = \<lparr>protocol = proto, feed_id = (if XI_MQTT_ENABLED b then 0 else fid),
                     api_key = k, layer_chain = (CONNECTION_SCHEME_1, [])\<rparr>
            in if \<not> XI_MQTT_ENABLED b \<and> proto = XI_HTTP then
                 (g3\<lparr>xi_response_static := 0,
                      contexts := (contexts g3)(ret \<mapsto> c\<lparr>layer_chain := (CONNECTION_SCHEME_1,
                        [No_user_data, Static_http_layer_data, Static_csv_layer_data])\<rparr>)\<rparr>,
                  Some ret)
               else if XI_MQTT_ENABLED b \<and> proto = XI_MQTT then
                 (g3\<lparr>contexts := (contexts g3)(ret \<mapsto> c\<lparr>layer_chain := (CONNECTION_SCHEME_2,
                        [No_user_data, No_user_data, No_user_data])\<rparr>)\<rparr>,
                  Some ret)
               else (xi_create_context_err b ret k g3, None)))"

definition xi_create_context ::
  "xi_build \<Rightarrow> xi_protocol \<Rightarrow> string option \<Rightarrow> int \<Rightarrow> 'r::zero xi_globals \<Rightarrow> 'r xi_globals \<times> ptr option" where
  "xi_create_context b proto key fid g0 =
     (case xi_create_context_evtd b g0 of
        (g1, False) \<Rightarrow> (g1, None)
      | (g1, True) \<Rightarrow>
          (case xi_alloc g1 of
             (None, g2) \<Rightarrow> (g2, None)
           | (Some ret, g2) \<Rightarrow> xi_create_context_fill b proto key fid ret g2))"

text \<open>\<^verbatim>\<open>xi_delete_context\<close>: the null-context and unknown-protocol asserts become faults
  (the behaviour of a debug build). Reading \<^verbatim>\<open>context->protocol\<close> is a use of freed memory
  when the block is not allocated, and an indeterminate read when the allocated block was never
  filled as a context. The layers are destroyed by the factory, which is not modelled. Then
  \<^verbatim>\<open>XI_SAFE_FREE\<close> frees the api key (HTTP build) and the context. In the MQTT build with NOB
  the dispatcher count is decremented, and the instance is destroyed when the count reaches 0.
  A freed block keeps its contents in \<open>contexts\<close>, as freed C memory does; only the
  allocation guard tells the two apart.\<close>

definition xi_delete_context :: "xi_build \<Rightarrow> ptr \<Rightarrow> 'r xi_globals \<Rightarrow> c_fault + 'r xi_globals" where
  "xi_delete_context b ctx g =
     (if ctx = 0 then Inl Assert_fail
      else if ctx \<notin> allocated g then Inl Use_after_free
      else case contexts g ctx of
        None \<Rightarrow> Inl Indeterminate_value
      | Some c \<Rightarrow>
          if \<not> ((\<not> XI_MQTT_ENABLED b \<and> protocol c = XI_HTTP) \<or> (XI_MQTT_ENABLED b \<and> protocol c = XI_MQTT))
          then Inl Assert_fail
          else
            (case (if \<not> XI_MQTT_ENABLED b then
                     (case api_key c of None \<Rightarrow> Inr g | Some k \<Rightarrow> xi_free k g)
                   else Inr g) of
               Inl f \<Rightarrow> Inl f
             | Inr g1 \<Rightarrow>
                 (case xi_free ctx g1 of
                    Inl f \<Rightarrow> Inl f
                  | Inr g2 \<Rightarrow>
                      if XI_MQTT_ENABLED b \<and> XI_NOB_ENABLED b then
                        (let g3 = g2\<lparr>xi_evtd_ref_count := xi_evtd_ref_count g2 - 1\<rparr>
                         in if xi_evtd_ref_count g3 = 0 then xi_evtd_destroy_instance (xi_evtd_instance g3) g3
                            else Inr g3)
                      else Inr g2)))"

definition xi_set_network_timeout :: "32 word \<Rightarrow> 'r xi_globals \<Rightarrow> 'r xi_globals" where
  "xi_set_network_timeout timeout g = g\<lparr>network_timeout := timeout\<rparr>"

definition xi_get_network_timeout :: "'r xi_globals \<Rightarrow> 32 word" where
  "xi_get_network_timeout g = network_timeout g"

text \<open>The initial global state: nothing allocated, no dispatcher, count 0.\<close>

definition xi_globals_init :: "bool list \<Rightarrow> 'r::zero xi_globals" where
  "xi_globals_init oracle =
     \<lparr>allocated = {}, next_ptr = 1, alloc_oracle = oracle, contexts = Map.empty, xi_evtd_instance = None,
      xi_evtd_ref_count = 0, evtd_alive = {}, xi_response_static = 0, network_timeout = 0\<rparr>"

text \<open>The dispatcher's part of the global state, which only the dispatcher prologue of
  creation and the epilogue of deletion change; and the MQTT build with NOB.\<close>

definition evtd_fields :: "'r xi_globals \<Rightarrow> int \<times> ptr option \<times> ptr set" where
  "evtd_fields g = (xi_evtd_ref_count g, xi_evtd_instance g, evtd_alive g)"

definition mqtt_nob :: xi_build where
  "mqtt_nob = \<lparr>XI_MQTT_ENABLED = True, XI_NOB_ENABLED = True\<rparr>"

text \<open>The states a program reaches by any sequence of context creations and deletions, with
  any arguments and any allocation failures.\<close>

inductive xi_context_reachable :: "xi_build \<Rightarrow> 'r::zero xi_globals \<Rightarrow> bool" for b where
  init: "xi_context_reachable b (xi_globals_init oracle)"
| create: "xi_context_reachable b g \<Longrightarrow> xi_context_reachable b (fst (xi_create_context b proto key fid g))"
| delete: "xi_context_reachable b g \<Longrightarrow> xi_delete_context b ctx g = Inr g' \<Longrightarrow> xi_context_reachable b g'"
| set_oracle: "xi_context_reachable b g \<Longrightarrow> xi_context_reachable b (g\<lparr>alloc_oracle := os\<rparr>)"

subsection \<open>Frame lemmas: what each phase leaves unchanged\<close>

lemma xi_alloc_cases:
  obtains "xi_alloc g = (None, g\<lparr>alloc_oracle := drop 1 (alloc_oracle g)\<rparr>)"
  | "xi_alloc g = (Some (next_ptr g), g\<lparr>allocated := insert (next_ptr g) (allocated g),
        next_ptr := Suc (next_ptr g), alloc_oracle := drop 1 (alloc_oracle g)\<rparr>)"
  by (cases "alloc_oracle g" rule: list.exhaust; case_tac "hd (alloc_oracle g)")
     (auto simp: xi_alloc_def)

lemma xi_alloc_False [simp]:
  "alloc_oracle g = False # os \<Longrightarrow> xi_alloc g = (None, g\<lparr>alloc_oracle := os\<rparr>)"
  by (simp add: xi_alloc_def)

lemma xi_alloc_True [simp]:
  "alloc_oracle g = True # os \<Longrightarrow>
   xi_alloc g = (Some (next_ptr g), g\<lparr>allocated := insert (next_ptr g) (allocated g), next_ptr := Suc (next_ptr g),
                   alloc_oracle := os\<rparr>)"
  by (simp add: xi_alloc_def)

lemma xi_alloc_Nil [simp]:
  "alloc_oracle g = [] \<Longrightarrow>
   xi_alloc g = (Some (next_ptr g), g\<lparr>allocated := insert (next_ptr g) (allocated g), next_ptr := Suc (next_ptr g)\<rparr>)"
  by (simp add: xi_alloc_def)

lemma evtd_fields_alloc [simp]: "evtd_fields (snd (xi_alloc g)) = evtd_fields g"
  by (cases rule: xi_alloc_cases [of g]) (simp_all add: evtd_fields_def)

lemma evtd_fields_err [simp]: "evtd_fields (xi_create_context_err b r k g) = evtd_fields g"
  by (simp add: xi_create_context_err_def Let_def evtd_fields_def split: option.splits)

lemma evtd_fields_fill: "evtd_fields (fst (xi_create_context_fill b proto key fid ret g)) = evtd_fields g"
  by (cases rule: xi_alloc_cases [of g]; cases key)
    (simp_all add: xi_create_context_fill_def xi_create_context_err_def Let_def evtd_fields_def)

lemma evtd_fields_create:
  "evtd_fields (fst (xi_create_context b proto key fid g)) = evtd_fields (fst (xi_create_context_evtd b g))"
proof (cases "xi_create_context_evtd b g")
  case (Pair g1 ok)
  then show ?thesis
  proof (cases "xi_alloc g1")
    case (Pair r g2)
    have "evtd_fields g2 = evtd_fields g1" using evtd_fields_alloc [of g1] Pair by simp
    then show ?thesis
      using \<open>xi_create_context_evtd b g = (g1, ok)\<close> Pair
      by (cases ok; cases r) (simp_all add: xi_create_context_def evtd_fields_fill)
  qed
qed

lemma ref_count_evtd:
  "xi_evtd_ref_count (fst (xi_create_context_evtd b g)) =
     (if XI_MQTT_ENABLED b \<and> XI_NOB_ENABLED b \<and> xi_evtd_ref_count g \<noteq> 0
      then xi_evtd_ref_count g + 1 else xi_evtd_ref_count g)"
  by (cases rule: xi_alloc_cases [of g])
    (auto simp: xi_create_context_evtd_def xi_evtd_create_instance_def)

lemma ref_count_create:
  "xi_evtd_ref_count (fst (xi_create_context b proto key fid g)) =
     (if XI_MQTT_ENABLED b \<and> XI_NOB_ENABLED b \<and> xi_evtd_ref_count g \<noteq> 0
      then xi_evtd_ref_count g + 1 else xi_evtd_ref_count g)"
  using evtd_fields_create [of b proto key fid g] ref_count_evtd [of b g]
  by (simp add: evtd_fields_def)

lemma xi_delete_context_Inr:
  assumes "xi_delete_context b ctx g = Inr g'"
  shows "xi_evtd_ref_count g' = (if XI_MQTT_ENABLED b \<and> XI_NOB_ENABLED b then xi_evtd_ref_count g - 1
                                 else xi_evtd_ref_count g)"
    and "\<not> (XI_MQTT_ENABLED b \<and> XI_NOB_ENABLED b \<and> xi_evtd_ref_count g = 1) \<Longrightarrow> evtd_alive g' = evtd_alive g"
    and "ctx \<notin> allocated g'"
  using assms
  by (auto simp: xi_delete_context_def xi_free_def xi_evtd_destroy_instance_def Let_def
      split: if_splits option.splits sum.splits)

lemma ref_count_reachable: "xi_context_reachable b g \<Longrightarrow> xi_evtd_ref_count g \<le> 0"
proof (induction rule: xi_context_reachable.induct)
  case (delete g ctx g')
  then show ?case using xi_delete_context_Inr(1) [OF delete.hyps(2)] by simp
qed (auto simp: xi_globals_init_def ref_count_create)

subsection \<open>Properties of context creation and deletion\<close>

text \<open>C13. In every state a program reaches by creating and deleting contexts, the
  dispatcher's reference count is at most 0: the first creation leaves it at 0 instead of 1, so
  it never counts a live context. Consequently no deletion ever destroys the dispatcher
  instance: the count would have to fall from 1 to 0.\<close>

theorem xi_evtd_ref_count_never_counts:
  assumes "xi_context_reachable b g"
  shows "xi_evtd_ref_count g \<le> 0 \<and>
         (\<forall>ctx g'. xi_delete_context b ctx g = Inr g' \<longrightarrow> evtd_alive g' = evtd_alive g)"
  using ref_count_reachable [OF assms] xi_delete_context_Inr(2) by fastforce

theorem xi_evtd_ref_count_never_counts_witness:
  "let g = fst (xi_create_context mqtt_nob XI_MQTT None 0 (xi_globals_init [] :: nat xi_globals))
   in xi_context_reachable mqtt_nob g \<and> xi_evtd_ref_count g \<le> 0 \<and>
      xi_delete_context mqtt_nob 2 g = Inr (projr (xi_delete_context mqtt_nob 2 g)) \<and>
      evtd_alive (projr (xi_delete_context mqtt_nob 2 g)) = evtd_alive g"
proof -
  define g where "g = fst (xi_create_context mqtt_nob XI_MQTT None 0 (xi_globals_init [] :: nat xi_globals))"
  have r: "xi_context_reachable mqtt_nob g"
    unfolding g_def by (intro xi_context_reachable.create xi_context_reachable.init)
  have "case xi_delete_context mqtt_nob 2 g of Inl _ \<Rightarrow> False | Inr _ \<Rightarrow> True"
    unfolding g_def by code_simp
  then have d: "xi_delete_context mqtt_nob 2 g = Inr (projr (xi_delete_context mqtt_nob 2 g))"
    by (cases "xi_delete_context mqtt_nob 2 g") simp_all
  show ?thesis using xi_evtd_ref_count_never_counts [OF r] r d unfolding Let_def g_def [symmetric] by blast
qed

text \<open>C14. In the MQTT build, creating a context for a protocol the build does not know
  (\<^verbatim>\<open>XI_HTTP\<close>) returns 0 but leaks the context block: the error exit frees only in the
  HTTP build.\<close>

theorem xi_create_context_mqtt_unknown_protocol_leaks:
  fixes g :: "'r::zero xi_globals"
  assumes "XI_MQTT_ENABLED b" "alloc_oracle g = []" "\<forall>p \<in> allocated g. p < next_ptr g"
  shows "snd (xi_create_context b XI_HTTP key fid g) = None \<and>
         allocated g \<subset> allocated (fst (xi_create_context b XI_HTTP key fid g)) \<and>
         contexts (fst (xi_create_context b XI_HTTP key fid g)) = contexts g"
proof -
  define g1 where "g1 = fst (xi_create_context_evtd b g)"
  have e: "xi_create_context_evtd b g = (g1, True)" "allocated g \<subseteq> allocated g1"
      "alloc_oracle g1 = []" "contexts g1 = contexts g" "\<forall>p \<in> allocated g1. p < next_ptr g1"
    using assms(2,3) unfolding g1_def
    by (auto simp: xi_create_context_evtd_def xi_evtd_create_instance_def xi_alloc_def)
  show ?thesis
    using e assms(1)
    by (auto simp: xi_create_context_def xi_create_context_fill_def xi_create_context_err_def
        xi_alloc_def Let_def)
qed

theorem xi_create_context_mqtt_unknown_protocol_leaks_witness:
  "XI_MQTT_ENABLED mqtt_nob \<and> alloc_oracle (xi_globals_init [] :: nat xi_globals) = [] \<and>
   allocated (xi_globals_init [] :: nat xi_globals) = {} \<and>
   snd (xi_create_context mqtt_nob XI_HTTP None 0 (xi_globals_init [] :: nat xi_globals)) = None \<and>
   allocated (xi_globals_init [] :: nat xi_globals) \<subset>
     allocated (fst (xi_create_context mqtt_nob XI_HTTP None 0 (xi_globals_init [] :: nat xi_globals))) \<and>
   contexts (fst (xi_create_context mqtt_nob XI_HTTP None 0 (xi_globals_init [] :: nat xi_globals))) =
     contexts (xi_globals_init [] :: nat xi_globals)"
proof -
  have hyp: "XI_MQTT_ENABLED mqtt_nob" "alloc_oracle (xi_globals_init [] :: nat xi_globals) = []"
    "\<forall>p \<in> allocated (xi_globals_init [] :: nat xi_globals). p < next_ptr (xi_globals_init [] :: nat xi_globals)"
    by (simp_all add: mqtt_nob_def xi_globals_init_def)
  have "allocated (xi_globals_init [] :: nat xi_globals) = {}" by (simp add: xi_globals_init_def)
  then show ?thesis using hyp xi_create_context_mqtt_unknown_protocol_leaks [OF hyp] by blast
qed

text \<open>C15. In the HTTP build the same error exit is clean: creating a context for
  \<^verbatim>\<open>XI_MQTT\<close> returns 0 and leaves the allocated blocks and the contexts as they were, whichever
  allocations fail.\<close>

theorem xi_create_context_http_unknown_protocol_clean:
  fixes g :: "'r::zero xi_globals"
  assumes "\<not> XI_MQTT_ENABLED b" "\<forall>p \<in> allocated g. p < next_ptr g"
  shows "snd (xi_create_context b XI_MQTT key fid g) = None \<and>
         allocated (fst (xi_create_context b XI_MQTT key fid g)) = allocated g \<and>
         contexts (fst (xi_create_context b XI_MQTT key fid g)) = contexts g"
  using assms
  by (cases rule: xi_alloc_cases [of g]; cases key; cases rule: xi_alloc_cases [of "snd (xi_alloc g)"])
    (auto simp: xi_create_context_def xi_create_context_evtd_def xi_create_context_fill_def
      xi_create_context_err_def Let_def)

theorem xi_create_context_http_unknown_protocol_clean_witness:
  "\<not> XI_MQTT_ENABLED \<lparr>XI_MQTT_ENABLED = False, XI_NOB_ENABLED = False\<rparr> \<and>
   allocated (xi_globals_init [True, False] :: nat xi_globals) = {} \<and>
   snd (xi_create_context \<lparr>XI_MQTT_ENABLED = False, XI_NOB_ENABLED = False\<rparr> XI_MQTT (Some ''key'') 3
          (xi_globals_init [True, False] :: nat xi_globals)) = None \<and>
   allocated (fst (xi_create_context \<lparr>XI_MQTT_ENABLED = False, XI_NOB_ENABLED = False\<rparr> XI_MQTT (Some ''key'') 3
          (xi_globals_init [True, False] :: nat xi_globals))) = allocated (xi_globals_init [True, False] :: nat xi_globals) \<and>
   contexts (fst (xi_create_context \<lparr>XI_MQTT_ENABLED = False, XI_NOB_ENABLED = False\<rparr> XI_MQTT (Some ''key'') 3
          (xi_globals_init [True, False] :: nat xi_globals))) = contexts (xi_globals_init [True, False] :: nat xi_globals)"
proof -
  have hyp: "\<not> XI_MQTT_ENABLED \<lparr>XI_MQTT_ENABLED = False, XI_NOB_ENABLED = False\<rparr>"
    "\<forall>p \<in> allocated (xi_globals_init [True, False] :: nat xi_globals).
      p < next_ptr (xi_globals_init [True, False] :: nat xi_globals)"
    by (simp_all add: xi_globals_init_def)
  have "allocated (xi_globals_init [True, False] :: nat xi_globals) = {}" by (simp add: xi_globals_init_def)
  then show ?thesis using hyp xi_create_context_http_unknown_protocol_clean [OF hyp] by blast
qed

text \<open>C16. Deleting a context twice is caught as a use of freed memory: the first deletion
  frees the context block through \<^verbatim>\<open>XI_SAFE_FREE\<close>, so the second reads
  \<^verbatim>\<open>context->protocol\<close> from a block that is no longer allocated.\<close>

theorem xi_delete_context_twice:
  assumes "xi_delete_context b ctx g = Inr g'"
  shows "xi_delete_context b ctx g' = Inl Use_after_free"
proof -
  have "ctx \<noteq> 0" using assms by (rule contrapos_pn) (simp add: xi_delete_context_def)
  then show ?thesis using xi_delete_context_Inr(3) [OF assms] by (simp add: xi_delete_context_def)
qed

theorem xi_delete_context_twice_witness:
  "let g1 = fst (xi_create_context mqtt_nob XI_MQTT None 0 (xi_globals_init [] :: nat xi_globals))
   in xi_delete_context mqtt_nob 2 g1 = Inr (projr (xi_delete_context mqtt_nob 2 g1)) \<and>
      xi_delete_context mqtt_nob 2 (projr (xi_delete_context mqtt_nob 2 g1)) = Inl Use_after_free"
proof -
  define g1 where "g1 = fst (xi_create_context mqtt_nob XI_MQTT None 0 (xi_globals_init [] :: nat xi_globals))"
  have "case xi_delete_context mqtt_nob 2 g1 of Inl _ \<Rightarrow> False | Inr _ \<Rightarrow> True"
    unfolding g1_def by code_simp
  then have hyp: "xi_delete_context mqtt_nob 2 g1 = Inr (projr (xi_delete_context mqtt_nob 2 g1))"
    by (cases "xi_delete_context mqtt_nob 2 g1") simp_all
  show ?thesis using hyp xi_delete_context_twice [OF hyp] unfolding Let_def g1_def [symmetric] by blast
qed

end
