(* ===== verification/Heap_Alloc.thy ===== *)
theory Heap_Alloc
  imports Heap Xively_Context
begin

text \<open>
  The memory side of \<^verbatim>\<open>xi_heap_create\<close> and \<^verbatim>\<open>xi_heap_destroy\<close>
  (\<^verbatim>\<open>src/src/libxively/xi_datastructures/xi_heap.c\<close>, lines 3 to 68): the blocks the heap
  consists of, the heap record (\<^verbatim>\<open>ret\<close>), its array of element pointers (\<^verbatim>\<open>ret->elements\<close>)
  and one element cell per slot, taken from and returned to the allocator of
  \<^verbatim>\<open>Xively_Context\<close>, whose oracle decides which allocation fails. The heap's contents after
  creation are the model \<^verbatim>\<open>Heap.xi_heap_create\<close>; this theory follows the blocks.
\<close>

record heap_blocks =
  hb_heap :: ptr
  hb_elements :: ptr
  hb_cells :: "ptr list"
  hb_capacity :: nat

text \<open>The loop that allocates the cells. After each allocation the code checks
  \<^verbatim>\<open>ret->elements\<close>, which is not null at this point, instead of the cell it just allocated,
  and then clears the cell with \<^verbatim>\<open>memset\<close>: a failed cell allocation is a null dereference.\<close>

primrec xi_heap_alloc_cells :: "nat \<Rightarrow> 'r xi_globals \<Rightarrow> c_fault + 'r xi_globals \<times> ptr list" where
  "xi_heap_alloc_cells 0 g = Inr (g, [])"
| "xi_heap_alloc_cells (Suc n) g =
     (case xi_alloc g of
        (None, g1) \<Rightarrow> Inl Null_deref
      | (Some c, g1) \<Rightarrow>
          (case xi_heap_alloc_cells n g1 of
             Inl f \<Rightarrow> Inl f
           | Inr (g2, cs) \<Rightarrow> Inr (g2, c # cs)))"

text \<open>\<^verbatim>\<open>xi_heap_create\<close>: \<open>None\<close> is the null pointer it returns from \<^verbatim>\<open>err_handling\<close>.
  When the first allocation fails, \<^verbatim>\<open>err_handling\<close> reads \<^verbatim>\<open>ret->elements\<close> through the null
  \<^verbatim>\<open>ret\<close>. When the array allocation fails, \<^verbatim>\<open>ret->elements\<close> is null, the loop is skipped and
  only \<^verbatim>\<open>ret\<close> is freed.\<close>

definition xi_heap_create_mem ::
  "nat \<Rightarrow> 'r xi_globals \<Rightarrow> c_fault + 'r xi_globals \<times> heap_blocks option" where
  "xi_heap_create_mem cap g =
     (if cap = 0 then Inl Assert_fail
      else
        (case xi_alloc g of
           (None, g1) \<Rightarrow> Inl Null_deref
         | (Some r, g1) \<Rightarrow>
             (case xi_alloc g1 of
                (None, g2) \<Rightarrow> (case xi_free r g2 of Inl f \<Rightarrow> Inl f | Inr g3 \<Rightarrow> Inr (g3, None))
              | (Some e, g2) \<Rightarrow>
                  (case xi_heap_alloc_cells cap g2 of
                     Inl f \<Rightarrow> Inl f
                   | Inr (g3, cs) \<Rightarrow>
                       Inr (g3, Some \<lparr>hb_heap = r, hb_elements = e, hb_cells = cs, hb_capacity = cap\<rparr>)))))"

text \<open>The loop of \<^verbatim>\<open>xi_heap_destroy\<close> over \<open>i < xi_heap->capacity\<close>, freeing
  \<^verbatim>\<open>xi_heap->elements[ i ]\<close>.\<close>

fun xi_heap_free_cells :: "ptr list \<Rightarrow> nat list \<Rightarrow> 'r xi_globals \<Rightarrow> c_fault + 'r xi_globals" where
  "xi_heap_free_cells cs [] g = Inr g"
| "xi_heap_free_cells cs (i # is) g =
     (case array_get cs i of
        Inl f \<Rightarrow> Inl f
      | Inr c \<Rightarrow> (case xi_free c g of Inl f \<Rightarrow> Inl f | Inr g1 \<Rightarrow> xi_heap_free_cells cs is g1))"

definition xi_heap_destroy_mem :: "heap_blocks \<Rightarrow> 'r xi_globals \<Rightarrow> c_fault + 'r xi_globals" where
  "xi_heap_destroy_mem hb g =
     (if hb_capacity hb = 0 then Inl Assert_fail
      else
        (case xi_heap_free_cells (hb_cells hb) [0..<hb_capacity hb] g of
           Inl f \<Rightarrow> Inl f
         | Inr g1 \<Rightarrow> (case xi_free (hb_elements hb) g1 of
                       Inl f \<Rightarrow> Inl f
                     | Inr g2 \<Rightarrow> xi_free (hb_heap hb) g2)))"

subsection \<open>Allocating and freeing the cells\<close>

definition alloc_fresh :: "'r xi_globals \<Rightarrow> bool" where
  "alloc_fresh g = (\<forall>p \<in> allocated g. p < next_ptr g)"

lemma xi_heap_alloc_cells_Nil:
  "alloc_oracle g = [] \<Longrightarrow>
   xi_heap_alloc_cells n g =
     Inr (g\<lparr>allocated := allocated g \<union> set [next_ptr g..<next_ptr g + n], next_ptr := next_ptr g + n\<rparr>,
          [next_ptr g..<next_ptr g + n])"
proof (induction n arbitrary: g)
  case (Suc n)
  have "[next_ptr g..<next_ptr g + Suc n] = next_ptr g # [Suc (next_ptr g)..<Suc (next_ptr g) + n]"
    by (simp add: upt_conv_Cons)
  with Suc show ?case by (simp del: upt_Suc)
qed simp


lemma xi_heap_free_cells_allocated:
  assumes "distinct cs" "distinct is" "\<forall>i \<in> set is. i < length cs" "\<forall>i \<in> set is. cs ! i \<in> allocated g"
  shows "xi_heap_free_cells cs is g = Inr (g\<lparr>allocated := allocated g - (\<lambda>i. cs ! i) ` set is\<rparr>)"
  using assms(2-)
proof (induction "is" arbitrary: g)
  case (Cons i "is")
  have "\<forall>j \<in> set is. cs ! j \<noteq> cs ! i"
    using Cons.prems assms(1) by (auto simp: nth_eq_iff_index_eq)
  then have "xi_heap_free_cells cs is (g\<lparr>allocated := allocated g - {cs ! i}\<rparr>) =
             Inr (g\<lparr>allocated := allocated g - {cs ! i} - (\<lambda>i. cs ! i) ` set is\<rparr>)"
    using Cons by (intro trans [OF Cons.IH]) auto
  then show ?case using Cons.prems by (simp add: xi_free_def Diff_insert2 [symmetric])
qed simp

lemma xi_heap_create_mem_Nil:
  assumes "alloc_oracle g = []" "0 < cap"
  defines "n \<equiv> next_ptr g"
  shows "xi_heap_create_mem cap g =
           Inr (g\<lparr>allocated := insert (Suc n) (insert n (allocated g)) \<union> set [Suc (Suc n)..<Suc (Suc n) + cap],
                  next_ptr := Suc (Suc n) + cap\<rparr>,
                Some \<lparr>hb_heap = n, hb_elements = Suc n, hb_cells = [Suc (Suc n)..<Suc (Suc n) + cap],
                      hb_capacity = cap\<rparr>)"
  using assms by (simp add: xi_heap_create_mem_def xi_heap_alloc_cells_Nil)


lemma xi_heap_alloc_cells_fail:
  "alloc_oracle g = replicate k True @ False # os \<Longrightarrow> k < n \<Longrightarrow> xi_heap_alloc_cells n g = Inl Null_deref"
proof (induction k arbitrary: n g)
  case 0
  then obtain m where "n = Suc m" by (cases n) auto
  with 0 show ?case by simp
next
  case (Suc k)
  then obtain m where m: "n = Suc m" "k < m" by (cases n) auto
  let ?g1 = "snd (xi_alloc g)"
  have o: "alloc_oracle g = True # (replicate k True @ False # os)" using Suc.prems(1) by simp
  then have "alloc_oracle ?g1 = replicate k True @ False # os" by simp
  then have "xi_heap_alloc_cells m ?g1 = Inl Null_deref" using Suc.IH m(2) by blast
  then show ?case using o m(1) by simp
qed

subsection \<open>Properties\<close>

text \<open>C29. When no allocation fails, \<^verbatim>\<open>xi_heap_create\<close> of a positive capacity returns a heap
  made of the heap record, the element array and one cell per slot, all fresh, and
  \<^verbatim>\<open>xi_heap_destroy\<close> of that heap frees exactly these blocks: the pair leaks nothing and frees
  nothing twice.\<close>

theorem xi_heap_create_destroy_no_leak:
  assumes "alloc_oracle g = []" "0 < cap" "alloc_fresh g"
  shows "\<exists>g1 hb g2. xi_heap_create_mem cap g = Inr (g1, Some hb) \<and>
           hb_capacity hb = cap \<and> length (hb_cells hb) = cap \<and>
           allocated g1 = allocated g \<union> {next_ptr g..<next_ptr g + cap + 2} \<and>
           xi_heap_destroy_mem hb g1 = Inr g2 \<and> allocated g2 = allocated g"
proof -
  define n where "n = next_ptr g"
  define cs where "cs = [Suc (Suc n)..<Suc (Suc n) + cap]"
  define A1 where "A1 = insert (Suc n) (insert n (allocated g)) \<union> set cs"
  have fresh: "p < n" if "p \<in> allocated g" for p
    using assms(3) that by (simp add: alloc_fresh_def n_def)
  have len: "length cs = cap" by (simp only: cs_def length_upt diff_add_inverse)
  have img: "(\<lambda>i. cs ! i) ` {0..<cap} = set cs"
    unfolding len [symmetric] by (force simp: in_set_conv_nth image_iff simp del: upt_Suc)
  have dcs: "distinct cs" by (simp only: cs_def distinct_upt)
  have mem: "\<forall>i \<in> set [0..<cap]. cs ! i \<in> A1"
    using len by (auto simp: A1_def simp del: upt_Suc)
  have cells: "xi_heap_free_cells cs [0..<cap] (g1\<lparr>allocated := A1\<rparr>) =
                 Inr (g1\<lparr>allocated := A1 - set cs\<rparr>)" for g1 :: "'a xi_globals"
    using xi_heap_free_cells_allocated [of cs "[0..<cap]" "g1\<lparr>allocated := A1\<rparr>"] dcs mem len
    by (simp add: img del: upt_Suc)
  have A: "A1 - set cs - {Suc n} - {n} = allocated g"
    by (auto simp: A1_def cs_def dest: fresh simp del: upt_Suc)
  have A1: "A1 = allocated g \<union> {n..<n + cap + 2}"
    by (auto simp: A1_def cs_def)
  define g1 where "g1 = g\<lparr>allocated := A1, next_ptr := Suc (Suc n) + cap\<rparr>"
  define hb where "hb = \<lparr>hb_heap = n, hb_elements = Suc n, hb_cells = cs, hb_capacity = cap\<rparr>"
  have create: "xi_heap_create_mem cap g = Inr (g1, Some hb)"
    unfolding g1_def hb_def A1_def cs_def n_def by (rule xi_heap_create_mem_Nil [OF assms(1,2)])
  have "xi_heap_free_cells (hb_cells hb) [0..<hb_capacity hb] g1 = Inr (g1\<lparr>allocated := A1 - set cs\<rparr>)"
  proof -
    have "g1\<lparr>allocated := A1\<rparr> = g1" by (cases g) (simp add: g1_def)
    then show ?thesis using cells [of g1] by (simp add: hb_def del: upt_Suc)
  qed
  moreover have "Suc n \<notin> set cs" "n \<notin> set cs"
    by (simp_all add: cs_def del: upt_Suc)
  ultimately have "xi_heap_destroy_mem hb g1 = Inr (g1\<lparr>allocated := A1 - set cs - {Suc n} - {n}\<rparr>)"
    using assms(2) by (simp add: xi_heap_destroy_mem_def xi_free_def hb_def A1_def del: upt_Suc)
  then show ?thesis
    using create A A1 len by (auto simp: hb_def g1_def n_def)
qed

theorem xi_heap_create_destroy_no_leak_witness:
  "\<exists>g1 hb g2. xi_heap_create_mem 3 (xi_globals_init [] :: nat xi_globals) = Inr (g1, Some hb) \<and>
     hb_capacity hb = 3 \<and> length (hb_cells hb) = 3 \<and> allocated g1 = {1..<6} \<and>
     xi_heap_destroy_mem hb g1 = Inr g2 \<and> allocated g2 = {}"
  using xi_heap_create_destroy_no_leak [of "xi_globals_init [] :: nat xi_globals" 3]
  by (simp add: xi_globals_init_def alloc_fresh_def)

text \<open>C30. The error exit of \<^verbatim>\<open>xi_heap_create\<close> is only right for a failure of the element
  array, whatever the capacity and the allocator state. When the heap record cannot be
  allocated, \<^verbatim>\<open>err_handling\<close> dereferences the null \<^verbatim>\<open>ret\<close>. When the array cannot be
  allocated, the record is freed and the null pointer returned with nothing held. When any cell
  cannot be allocated, the check of the wrong pointer lets \<^verbatim>\<open>memset\<close> clear a null cell.\<close>

theorem xi_heap_create_error_paths:
  assumes "0 < cap" "alloc_fresh g"
  shows "(alloc_oracle g = False # os \<longrightarrow> xi_heap_create_mem cap g = Inl Null_deref) \<and>
         (alloc_oracle g = True # False # os \<longrightarrow>
            (\<exists>g'. xi_heap_create_mem cap g = Inr (g', None) \<and> allocated g' = allocated g)) \<and>
         (\<forall>k < cap. alloc_oracle g = True # True # replicate k True @ False # os \<longrightarrow>
            xi_heap_create_mem cap g = Inl Null_deref)"
proof (intro conjI impI allI)
  assume "alloc_oracle g = True # False # os"
  moreover have "next_ptr g \<notin> allocated g" using assms(2) by (auto simp: alloc_fresh_def)
  ultimately show "\<exists>g'. xi_heap_create_mem cap g = Inr (g', None) \<and> allocated g' = allocated g"
    using assms(1) by (simp add: xi_heap_create_mem_def xi_free_def)
next
  fix k assume k: "k < cap" and o: "alloc_oracle g = True # True # replicate k True @ False # os"
  let ?g2 = "snd (xi_alloc (snd (xi_alloc g)))"
  have "alloc_oracle ?g2 = replicate k True @ False # os" using o by simp
  then have "xi_heap_alloc_cells cap ?g2 = Inl Null_deref" using xi_heap_alloc_cells_fail k by blast
  then show "xi_heap_create_mem cap g = Inl Null_deref" using o assms(1) by (simp add: xi_heap_create_mem_def)
qed (use assms(1) in \<open>simp add: xi_heap_create_mem_def\<close>)

theorem xi_heap_create_error_paths_witness:
  "0 < (2::nat) \<and> alloc_fresh (xi_globals_init [True, True, True, False] :: nat xi_globals) \<and>
   xi_heap_create_mem 2 (xi_globals_init [True, True, True, False] :: nat xi_globals) = Inl Null_deref \<and>
   (\<exists>g'. xi_heap_create_mem 2 (xi_globals_init [True, False] :: nat xi_globals) = Inr (g', None) \<and>
         allocated g' = {})"
proof -
  have f: "alloc_fresh (xi_globals_init os :: nat xi_globals)" for os
    by (simp add: alloc_fresh_def xi_globals_init_def)
  have o: "alloc_oracle (xi_globals_init os :: nat xi_globals) = os"
    "allocated (xi_globals_init os :: nat xi_globals) = {}" for os
    by (simp_all add: xi_globals_init_def)
  note a = xi_heap_create_error_paths [of 2 "xi_globals_init [True, True, True, False] :: nat xi_globals" "[]", OF _ f]
  note b = xi_heap_create_error_paths [of 2 "xi_globals_init [True, False] :: nat xi_globals" "[]", OF _ f]
  have "xi_heap_create_mem 2 (xi_globals_init [True, True, True, False] :: nat xi_globals) = Inl Null_deref"
    using a [THEN conjunct2, THEN conjunct2, rule_format, of 1] o by simp
  moreover have "\<exists>g'. xi_heap_create_mem 2 (xi_globals_init [True, False] :: nat xi_globals) = Inr (g', None) \<and>
      allocated g' = {}"
    using b o by simp
  ultimately show ?thesis using f by simp
qed

end
