(* ===== verification/Xively_Http.thy ===== *)
theory Xively_Http
  imports Layer_Chain
begin

text \<open>
  The blocking CRUD calls of the HTTP build of \<^verbatim>\<open>src/src/libxively/xively.c\<close>
  (\<^verbatim>\<open>!XI_MQTT_ENABLED && !XI_NOB_ENABLED\<close>, lines 490 to 915): each builds an
  \<^verbatim>\<open>http_layer_input_t\<close> naming its query and its arguments and runs the request sequence
  \<open>xi_http_request\<close> of the context's chain. Pointers to feeds, datapoints and timestamps are
  the caller's and are modelled as addresses; the datastream id is a string. The third member
  of the input, always 0 in these calls, is not modelled.
\<close>

datatype http_layer_input_type =
    HTTP_LAYER_INPUT_FEED_GET | HTTP_LAYER_INPUT_FEED_GET_ALL | HTTP_LAYER_INPUT_FEED_UPDATE
  | HTTP_LAYER_INPUT_DATASTREAM_GET | HTTP_LAYER_INPUT_DATASTREAM_CREATE
  | HTTP_LAYER_INPUT_DATASTREAM_UPDATE | HTTP_LAYER_INPUT_DATASTREAM_DELETE
  | HTTP_LAYER_INPUT_DATAPOINT_DELETE | HTTP_LAYER_INPUT_DATAPOINT_DELETE_RANGE

datatype http_union_data =
    Http_no_data
  | Xi_get_feed ptr
  | Xi_update_feed ptr
  | Xi_get_datastream string ptr
  | Xi_create_datastream string ptr
  | Xi_update_datastream string ptr
  | Xi_delete_datastream string
  | Xi_delete_datapoint string ptr
  | Xi_delete_datapoint_range string ptr ptr

record http_layer_input =
  query_type :: http_layer_input_type
  xi_context :: ptr
  http_union_data :: http_union_data

type_synonym ('w, 'r) http_chain = "(http_layer_input, 'w, 'r) layer_chain"
type_synonym ('w, 'r) http_result = "('w \<times> 'r) \<times> http_layer_input layer_call list \<times> 'r option"

definition xi_feed_get :: "('w, 'r::zero) http_chain \<Rightarrow> 'w \<times> 'r \<Rightarrow> ptr \<Rightarrow> ptr \<Rightarrow> ('w, 'r) http_result" where
  "xi_feed_get ops s xi feed =
     xi_http_request ops \<lparr>query_type = HTTP_LAYER_INPUT_FEED_GET, xi_context = xi,
                          http_union_data = Xi_get_feed feed\<rparr> s"

definition xi_feed_get_all :: "('w, 'r::zero) http_chain \<Rightarrow> 'w \<times> 'r \<Rightarrow> ptr \<Rightarrow> ptr \<Rightarrow> ('w, 'r) http_result" where
  "xi_feed_get_all ops s xi feed =
     xi_http_request ops \<lparr>query_type = HTTP_LAYER_INPUT_FEED_GET_ALL, xi_context = xi,
                          http_union_data = Xi_get_feed feed\<rparr> s"

definition xi_feed_update :: "('w, 'r::zero) http_chain \<Rightarrow> 'w \<times> 'r \<Rightarrow> ptr \<Rightarrow> ptr \<Rightarrow> ('w, 'r) http_result" where
  "xi_feed_update ops s xi feed =
     xi_http_request ops \<lparr>query_type = HTTP_LAYER_INPUT_FEED_UPDATE, xi_context = xi,
                          http_union_data = Xi_update_feed feed\<rparr> s"

definition xi_datastream_get ::
  "('w, 'r::zero) http_chain \<Rightarrow> 'w \<times> 'r \<Rightarrow> ptr \<Rightarrow> int \<Rightarrow> string \<Rightarrow> ptr \<Rightarrow> ('w, 'r) http_result" where
  "xi_datastream_get ops s xi feed_id datastream_id dp =
     xi_http_request ops \<lparr>query_type = HTTP_LAYER_INPUT_DATASTREAM_GET, xi_context = xi,
                          http_union_data = Xi_get_datastream datastream_id dp\<rparr> s"

definition xi_datastream_create ::
  "('w, 'r::zero) http_chain \<Rightarrow> 'w \<times> 'r \<Rightarrow> ptr \<Rightarrow> int \<Rightarrow> string \<Rightarrow> ptr \<Rightarrow> ('w, 'r) http_result" where
  "xi_datastream_create ops s xi feed_id datastream_id datapoint =
     xi_http_request ops \<lparr>query_type = HTTP_LAYER_INPUT_DATASTREAM_CREATE, xi_context = xi,
                          http_union_data = Xi_create_datastream datastream_id datapoint\<rparr> s"

definition xi_datastream_update ::
  "('w, 'r::zero) http_chain \<Rightarrow> 'w \<times> 'r \<Rightarrow> ptr \<Rightarrow> int \<Rightarrow> string \<Rightarrow> ptr \<Rightarrow> ('w, 'r) http_result" where
  "xi_datastream_update ops s xi feed_id datastream_id datapoint =
     xi_http_request ops \<lparr>query_type = HTTP_LAYER_INPUT_DATASTREAM_UPDATE, xi_context = xi,
                          http_union_data = Xi_update_datastream datastream_id datapoint\<rparr> s"

definition xi_datastream_delete ::
  "('w, 'r::zero) http_chain \<Rightarrow> 'w \<times> 'r \<Rightarrow> ptr \<Rightarrow> int \<Rightarrow> string \<Rightarrow> ('w, 'r) http_result" where
  "xi_datastream_delete ops s xi feed_id datastream_id =
     xi_http_request ops \<lparr>query_type = HTTP_LAYER_INPUT_DATASTREAM_DELETE, xi_context = xi,
                          http_union_data = Xi_delete_datastream datastream_id\<rparr> s"

definition xi_datapoint_delete ::
  "('w, 'r::zero) http_chain \<Rightarrow> 'w \<times> 'r \<Rightarrow> ptr \<Rightarrow> int \<Rightarrow> string \<Rightarrow> ptr \<Rightarrow> ('w, 'r) http_result" where
  "xi_datapoint_delete ops s xi feed_id datastream_id dp =
     xi_http_request ops \<lparr>query_type = HTTP_LAYER_INPUT_DATAPOINT_DELETE, xi_context = xi,
                          http_union_data = Xi_delete_datapoint datastream_id dp\<rparr> s"

definition xi_datapoint_delete_range ::
  "('w, 'r::zero) http_chain \<Rightarrow> 'w \<times> 'r \<Rightarrow> ptr \<Rightarrow> int \<Rightarrow> string \<Rightarrow> ptr \<Rightarrow> ptr \<Rightarrow> ('w, 'r) http_result" where
  "xi_datapoint_delete_range ops s xi feed_id datastream_id start end_ts =
     xi_http_request ops \<lparr>query_type = HTTP_LAYER_INPUT_DATAPOINT_DELETE_RANGE, xi_context = xi,
                          http_union_data = Xi_delete_datapoint_range datastream_id start end_ts\<rparr> s"

text \<open>The nine calls as one operation type, so that properties can be stated for all of
  them at once. Each constructor carries the C function's arguments after the context.\<close>

datatype http_call =
    Call_feed_get ptr ptr | Call_feed_get_all ptr ptr | Call_feed_update ptr ptr
  | Call_datastream_get ptr int string ptr | Call_datastream_create ptr int string ptr
  | Call_datastream_update ptr int string ptr | Call_datastream_delete ptr int string
  | Call_datapoint_delete ptr int string ptr | Call_datapoint_delete_range ptr int string ptr ptr

fun xi_http_call :: "('w, 'r::zero) http_chain \<Rightarrow> 'w \<times> 'r \<Rightarrow> http_call \<Rightarrow> ('w, 'r) http_result" where
  "xi_http_call ops s (Call_feed_get xi f) = xi_feed_get ops s xi f"
| "xi_http_call ops s (Call_feed_get_all xi f) = xi_feed_get_all ops s xi f"
| "xi_http_call ops s (Call_feed_update xi f) = xi_feed_update ops s xi f"
| "xi_http_call ops s (Call_datastream_get xi fid d dp) = xi_datastream_get ops s xi fid d dp"
| "xi_http_call ops s (Call_datastream_create xi fid d p) = xi_datastream_create ops s xi fid d p"
| "xi_http_call ops s (Call_datastream_update xi fid d p) = xi_datastream_update ops s xi fid d p"
| "xi_http_call ops s (Call_datastream_delete xi fid d) = xi_datastream_delete ops s xi fid d"
| "xi_http_call ops s (Call_datapoint_delete xi fid d dp) = xi_datapoint_delete ops s xi fid d dp"
| "xi_http_call ops s (Call_datapoint_delete_range xi fid d a b) =
     xi_datapoint_delete_range ops s xi fid d a b"

text \<open>The input descriptor each call hands to the top layer.\<close>

fun http_call_input :: "http_call \<Rightarrow> http_layer_input" where
  "http_call_input (Call_feed_get xi f) =
     \<lparr>query_type = HTTP_LAYER_INPUT_FEED_GET, xi_context = xi, http_union_data = Xi_get_feed f\<rparr>"
| "http_call_input (Call_feed_get_all xi f) =
     \<lparr>query_type = HTTP_LAYER_INPUT_FEED_GET_ALL, xi_context = xi, http_union_data = Xi_get_feed f\<rparr>"
| "http_call_input (Call_feed_update xi f) =
     \<lparr>query_type = HTTP_LAYER_INPUT_FEED_UPDATE, xi_context = xi, http_union_data = Xi_update_feed f\<rparr>"
| "http_call_input (Call_datastream_get xi fid d dp) =
     \<lparr>query_type = HTTP_LAYER_INPUT_DATASTREAM_GET, xi_context = xi, http_union_data = Xi_get_datastream d dp\<rparr>"
| "http_call_input (Call_datastream_create xi fid d p) =
     \<lparr>query_type = HTTP_LAYER_INPUT_DATASTREAM_CREATE, xi_context = xi,
      http_union_data = Xi_create_datastream d p\<rparr>"
| "http_call_input (Call_datastream_update xi fid d p) =
     \<lparr>query_type = HTTP_LAYER_INPUT_DATASTREAM_UPDATE, xi_context = xi,
      http_union_data = Xi_update_datastream d p\<rparr>"
| "http_call_input (Call_datastream_delete xi fid d) =
     \<lparr>query_type = HTTP_LAYER_INPUT_DATASTREAM_DELETE, xi_context = xi, http_union_data = Xi_delete_datastream d\<rparr>"
| "http_call_input (Call_datapoint_delete xi fid d dp) =
     \<lparr>query_type = HTTP_LAYER_INPUT_DATAPOINT_DELETE, xi_context = xi, http_union_data = Xi_delete_datapoint d dp\<rparr>"
| "http_call_input (Call_datapoint_delete_range xi fid d a b) =
     \<lparr>query_type = HTTP_LAYER_INPUT_DATAPOINT_DELETE_RANGE, xi_context = xi,
      http_union_data = Xi_delete_datapoint_range d a b\<rparr>"

text \<open>Two concrete chains over a counter world, used to exercise the properties below: in
  the first every layer answers OK except the top layer's data-ready, which writes 1 into the
  response and answers ERROR; in the second the io layer's connect answers TIMEOUT.\<close>

definition chain_data_ready_error :: "(nat, nat) http_chain" where
  "chain_data_ready_error =
     \<lparr>io_init = \<lambda>s. (s, LAYER_STATE_OK), io_connect = \<lambda>s. (s, LAYER_STATE_OK),
      top_data_ready = \<lambda>q s. ((fst s, 1), LAYER_STATE_ERROR),
      io_on_data_ready = \<lambda>s. (s, LAYER_STATE_OK), top_close = \<lambda>s. ((Suc (fst s), snd s), LAYER_STATE_OK)\<rparr>"

definition chain_connect_timeout :: "(nat, nat) http_chain" where
  "chain_connect_timeout =
     \<lparr>io_init = \<lambda>s. ((Suc (fst s), snd s), LAYER_STATE_OK), io_connect = \<lambda>s. (s, LAYER_STATE_TIMEOUT),
      top_data_ready = \<lambda>q s. (s, LAYER_STATE_OK),
      io_on_data_ready = \<lambda>s. (s, LAYER_STATE_OK), top_close = \<lambda>s. (s, LAYER_STATE_OK)\<rparr>"

subsection \<open>Every call is the request sequence on its own descriptor\<close>

lemma xi_http_call_request: "xi_http_call ops s c = xi_http_request ops (http_call_input c) s"
  by (cases c)
    (simp_all add: xi_feed_get_def xi_feed_get_all_def xi_feed_update_def xi_datastream_get_def
      xi_datastream_create_def xi_datastream_update_def xi_datastream_delete_def
      xi_datapoint_delete_def xi_datapoint_delete_range_def)

subsection \<open>Properties of the blocking calls\<close>

text \<open>C10. Every one of the nine blocking calls drives the chain in the order of the source and
  stops at the first failure. It connects exactly when init answered OK, hands its descriptor
  to data-ready and closes exactly when init and connect both answered OK, lets the io layer
  deliver the reply exactly when data-ready answered OK as well, and returns the null pointer
  exactly when it never reached close.\<close>

theorem xi_http_call_order:
  fixes ops :: "('w, 'r::zero) http_chain"
  shows "let tr = fst (snd (xi_http_call ops s c)) in
         tr \<in> {[Init_io], [Init_io, Connect_io],
                [Init_io, Connect_io, Data_ready_top (http_call_input c), Close_top],
                [Init_io, Connect_io, Data_ready_top (http_call_input c), On_data_ready_io, Close_top]} \<and>
         (Connect_io \<in> set tr \<longleftrightarrow> snd (io_init ops s) = LAYER_STATE_OK) \<and>
         (Close_top \<in> set tr \<longleftrightarrow>
            snd (io_init ops s) = LAYER_STATE_OK \<and> snd (io_connect ops (fst (io_init ops s))) = LAYER_STATE_OK) \<and>
         (On_data_ready_io \<in> set tr \<longleftrightarrow>
            snd (io_init ops s) = LAYER_STATE_OK \<and> snd (io_connect ops (fst (io_init ops s))) = LAYER_STATE_OK \<and>
            snd (top_data_ready ops (http_call_input c) (fst (fst (io_connect ops (fst (io_init ops s)))), 0)) =
              LAYER_STATE_OK) \<and>
         (snd (snd (xi_http_call ops s c)) = None \<longleftrightarrow> Close_top \<notin> set tr)"
  using xi_http_request_trace [of ops "http_call_input c" s]
    xi_http_request_trace_results [of ops "http_call_input c" s]
  unfolding Let_def xi_http_call_request by blast

theorem xi_http_call_order_witness:
  "Connect_io \<in> set (fst (snd (xi_http_call chain_connect_timeout (0, 0) (Call_feed_get 7 9)))) \<and>
   Close_top \<notin> set (fst (snd (xi_http_call chain_connect_timeout (0, 0) (Call_feed_get 7 9)))) \<and>
   On_data_ready_io \<notin> set (fst (snd (xi_http_call chain_data_ready_error (0, 0) (Call_feed_get 7 9)))) \<and>
   snd (snd (xi_http_call chain_connect_timeout (0, 0) (Call_feed_get 7 9))) = None"
proof -
  note a = xi_http_call_order [of chain_connect_timeout "(0, 0)" "Call_feed_get 7 9"]
  note b = xi_http_call_order [of chain_data_ready_error "(0, 0)" "Call_feed_get 7 9"]
  have i: "snd (io_init chain_connect_timeout (0, 0)) = LAYER_STATE_OK"
    "snd (io_connect chain_connect_timeout (fst (io_init chain_connect_timeout (0, 0)))) \<noteq> LAYER_STATE_OK"
    by (simp_all add: chain_connect_timeout_def)
  have j: "snd (top_data_ready chain_data_ready_error (http_call_input (Call_feed_get 7 9))
     (fst (fst (io_connect chain_data_ready_error (fst (io_init chain_data_ready_error (0, 0))))), 0)) \<noteq>
     LAYER_STATE_OK"
    by (simp add: chain_data_ready_error_def)
  show ?thesis using a b i j by (auto simp: Let_def)
qed

text \<open>C11. Failure propagation: when the top layer's data-ready answers anything but OK, the
  io layer's on-data-ready is never invoked for that request, and the top layer is closed
  exactly once.\<close>

theorem xi_http_call_data_ready_fails:
  fixes ops :: "('w, 'r::zero) http_chain"
  assumes "snd (io_init ops s) = LAYER_STATE_OK" "snd (io_connect ops (fst (io_init ops s))) = LAYER_STATE_OK"
    and "snd (top_data_ready ops (http_call_input c) (fst (fst (io_connect ops (fst (io_init ops s)))), 0))
           \<noteq> LAYER_STATE_OK"
  shows "On_data_ready_io \<notin> set (fst (snd (xi_http_call ops s c))) \<and>
         filter (\<lambda>x. x = Close_top) (fst (snd (xi_http_call ops s c))) = [Close_top]"
  using assms
  by (cases "io_init ops s", cases "io_connect ops (fst (io_init ops s))",
      cases "top_data_ready ops (http_call_input c) (fst (fst (io_connect ops (fst (io_init ops s)))), 0)")
    (simp add: xi_http_call_request xi_http_request_def Let_def)

theorem xi_http_call_data_ready_fails_witness:
  "snd (io_init chain_data_ready_error (0, 0)) = LAYER_STATE_OK \<and>
   snd (io_connect chain_data_ready_error (fst (io_init chain_data_ready_error (0, 0)))) = LAYER_STATE_OK \<and>
   snd (top_data_ready chain_data_ready_error (http_call_input (Call_feed_get 7 9))
          (fst (fst (io_connect chain_data_ready_error (fst (io_init chain_data_ready_error (0, 0))))), 0))
     \<noteq> LAYER_STATE_OK \<and>
   On_data_ready_io \<notin> set (fst (snd (xi_http_call chain_data_ready_error (0, 0) (Call_feed_get 7 9)))) \<and>
   filter (\<lambda>x. x = Close_top) (fst (snd (xi_http_call chain_data_ready_error (0, 0) (Call_feed_get 7 9))))
     = [Close_top]"
proof -
  have hyp: "snd (io_init chain_data_ready_error (0, 0)) = LAYER_STATE_OK"
    "snd (io_connect chain_data_ready_error (fst (io_init chain_data_ready_error (0, 0)))) = LAYER_STATE_OK"
    "snd (top_data_ready chain_data_ready_error (http_call_input (Call_feed_get 7 9))
          (fst (fst (io_connect chain_data_ready_error (fst (io_init chain_data_ready_error (0, 0))))), 0))
     \<noteq> LAYER_STATE_OK"
    by (simp_all add: chain_data_ready_error_def)
  show ?thesis using hyp xi_http_call_data_ready_fails [OF hyp] by blast
qed

text \<open>C12. A failure before the request is sent is not unwound: when the io layer's init or
  connect answers anything but OK, the call returns the null pointer without closing any
  layer, so an io layer that was initialised (or a connection that was half set up) is left
  as it is.\<close>

theorem xi_http_call_setup_fails:
  fixes ops :: "('w, 'r::zero) http_chain"
  assumes "snd (io_init ops s) \<noteq> LAYER_STATE_OK \<or> snd (io_connect ops (fst (io_init ops s))) \<noteq> LAYER_STATE_OK"
  shows "snd (snd (xi_http_call ops s c)) = None \<and> Close_top \<notin> set (fst (snd (xi_http_call ops s c))) \<and>
         Data_ready_top (http_call_input c) \<notin> set (fst (snd (xi_http_call ops s c)))"
  using assms xi_http_request_init_fails [of ops s] xi_http_request_connect_fails [of ops s]
  by (cases "snd (io_init ops s) = LAYER_STATE_OK") (auto simp: xi_http_call_request)

theorem xi_http_call_setup_fails_witness:
  "snd (io_init chain_connect_timeout (0, 0)) = LAYER_STATE_OK \<and>
   snd (io_connect chain_connect_timeout (fst (io_init chain_connect_timeout (0, 0)))) = LAYER_STATE_TIMEOUT \<and>
   snd (snd (xi_http_call chain_connect_timeout (0, 0) (Call_datastream_delete 1 5 ''temp''))) = None \<and>
   Close_top \<notin> set (fst (snd (xi_http_call chain_connect_timeout (0, 0) (Call_datastream_delete 1 5 ''temp'')))) \<and>
   Data_ready_top (http_call_input (Call_datastream_delete 1 5 ''temp'')) \<notin>
     set (fst (snd (xi_http_call chain_connect_timeout (0, 0) (Call_datastream_delete 1 5 ''temp'')))) \<and>
   fst (fst (xi_http_call chain_connect_timeout (0, 0) (Call_datastream_delete 1 5 ''temp''))) = 1"
proof -
  have hyp: "snd (io_init chain_connect_timeout (0, 0)) \<noteq> LAYER_STATE_OK \<or>
    snd (io_connect chain_connect_timeout (fst (io_init chain_connect_timeout (0, 0)))) \<noteq> LAYER_STATE_OK"
    by (simp add: chain_connect_timeout_def)
  have st: "snd (io_init chain_connect_timeout (0, 0)) = LAYER_STATE_OK"
    "snd (io_connect chain_connect_timeout (fst (io_init chain_connect_timeout (0, 0)))) = LAYER_STATE_TIMEOUT"
    by (simp_all add: chain_connect_timeout_def)
  have "fst (fst (xi_http_call chain_connect_timeout (0, 0) (Call_datastream_delete 1 5 ''temp''))) = 1"
    by (simp add: xi_http_call_request xi_http_request_def chain_connect_timeout_def)
  then show ?thesis using st xi_http_call_setup_fails [OF hyp] by blast
qed

end
