(* ===== verification/Xively_Nob.thy ===== *)
theory Xively_Nob
  imports Xively_Http
begin

text \<open>
  The non-blocking calls of the HTTP build with \<^verbatim>\<open>XI_NOB_ENABLED\<close>
  (\<^verbatim>\<open>xi_nob_feed_update\<close> ... \<^verbatim>\<open>xi_nob_datapoint_delete_range\<close>, lines 917 to 1218 of
  \<^verbatim>\<open>src/src/libxively/xively.c\<close>). Each only inits the io layer, clears the response, fills a
  function-local \<^verbatim>\<open>static http_layer_input_t\<close> and stores its address in the context's
  \<^verbatim>\<open>input\<close> member, for a runner to execute later. The statics are an explicit store indexed
  by the function that owns them, and the context's \<^verbatim>\<open>input\<close> is a reference into that store,
  so that what a context will send is read through the pointer, as the runner reads it.
\<close>

datatype nob_static =
    Static_nob_feed_update | Static_nob_feed_get | Static_nob_feed_get_all
  | Static_nob_datastream_create | Static_nob_datastream_update | Static_nob_datastream_get
  | Static_nob_datastream_delete | Static_nob_datapoint_delete | Static_nob_datapoint_delete_range

record ('w, 'r) nob_state =
  nob_layers :: "'w \<times> 'r"
  nob_statics :: "nob_static \<Rightarrow> http_layer_input"
  nob_input :: "ptr \<rightharpoonup> nob_static"
  nob_trace :: "http_layer_input layer_call list"

text \<open>The shared body: init the io layer (and give up with 0 unless OK), clear the response,
  reset the function's static to zero and fill it, point the context's input at it.\<close>

definition xi_nob_request ::
  "('w, 'r::zero) http_chain \<Rightarrow> nob_static \<Rightarrow> http_layer_input_type \<Rightarrow> http_union_data \<Rightarrow> ptr \<Rightarrow>
   ('w, 'r) nob_state \<Rightarrow> ('w, 'r) nob_state \<times> ptr option" where
  "xi_nob_request ops st qt data xi s =
     (case io_init ops (nob_layers s) of
        (l1, state) \<Rightarrow>
          let s1 = s\<lparr>nob_layers := l1, nob_trace := nob_trace s @ [Init_io]\<rparr>
          in if state \<noteq> LAYER_STATE_OK then (s1, None)
             else
               (let zero_input = \<lparr>query_type = HTTP_LAYER_INPUT_FEED_GET, xi_context = 0,
                                  http_union_data = Http_no_data\<rparr>;
                    filled = zero_input\<lparr>query_type := qt, xi_context := xi, http_union_data := data\<rparr>
                in (s1\<lparr>nob_layers := (fst l1, 0), nob_statics := (nob_statics s1)(st := filled),
                       nob_input := (nob_input s1)(xi \<mapsto> st)\<rparr>,
                    Some xi)))"

definition xi_nob_feed_update :: "('w, 'r::zero) http_chain \<Rightarrow> ptr \<Rightarrow> ptr \<Rightarrow> ('w, 'r) nob_state \<Rightarrow> ('w, 'r) nob_state \<times> ptr option" where
  "xi_nob_feed_update ops xi value =
     xi_nob_request ops Static_nob_feed_update HTTP_LAYER_INPUT_FEED_UPDATE (Xi_update_feed value) xi"

definition xi_nob_feed_get :: "('w, 'r::zero) http_chain \<Rightarrow> ptr \<Rightarrow> ptr \<Rightarrow> ('w, 'r) nob_state \<Rightarrow> ('w, 'r) nob_state \<times> ptr option" where
  "xi_nob_feed_get ops xi value =
     xi_nob_request ops Static_nob_feed_get HTTP_LAYER_INPUT_FEED_GET (Xi_get_feed value) xi"

definition xi_nob_feed_get_all :: "('w, 'r::zero) http_chain \<Rightarrow> ptr \<Rightarrow> ptr \<Rightarrow> ('w, 'r) nob_state \<Rightarrow> ('w, 'r) nob_state \<times> ptr option" where
  "xi_nob_feed_get_all ops xi value =
     xi_nob_request ops Static_nob_feed_get_all HTTP_LAYER_INPUT_FEED_GET_ALL (Xi_get_feed value) xi"

definition xi_nob_datastream_create ::
  "('w, 'r::zero) http_chain \<Rightarrow> ptr \<Rightarrow> int \<Rightarrow> string \<Rightarrow> ptr \<Rightarrow> ('w, 'r) nob_state \<Rightarrow> ('w, 'r) nob_state \<times> ptr option" where
  "xi_nob_datastream_create ops xi feed_id datastream_id value =
     xi_nob_request ops Static_nob_datastream_create HTTP_LAYER_INPUT_DATASTREAM_CREATE
       (Xi_create_datastream datastream_id value) xi"

definition xi_nob_datastream_update ::
  "('w, 'r::zero) http_chain \<Rightarrow> ptr \<Rightarrow> int \<Rightarrow> string \<Rightarrow> ptr \<Rightarrow> ('w, 'r) nob_state \<Rightarrow> ('w, 'r) nob_state \<times> ptr option" where
  "xi_nob_datastream_update ops xi feed_id datastream_id value =
     xi_nob_request ops Static_nob_datastream_update HTTP_LAYER_INPUT_DATASTREAM_UPDATE
       (Xi_update_datastream datastream_id value) xi"

definition xi_nob_datastream_get ::
  "('w, 'r::zero) http_chain \<Rightarrow> ptr \<Rightarrow> int \<Rightarrow> string \<Rightarrow> ptr \<Rightarrow> ('w, 'r) nob_state \<Rightarrow> ('w, 'r) nob_state \<times> ptr option" where
  "xi_nob_datastream_get ops xi feed_id datastream_id dp =
     xi_nob_request ops Static_nob_datastream_get HTTP_LAYER_INPUT_DATASTREAM_GET
       (Xi_get_datastream datastream_id dp) xi"

definition xi_nob_datastream_delete ::
  "('w, 'r::zero) http_chain \<Rightarrow> ptr \<Rightarrow> int \<Rightarrow> string \<Rightarrow> ('w, 'r) nob_state \<Rightarrow> ('w, 'r) nob_state \<times> ptr option" where
  "xi_nob_datastream_delete ops xi feed_id datastream_id =
     xi_nob_request ops Static_nob_datastream_delete HTTP_LAYER_INPUT_DATASTREAM_DELETE
       (Xi_delete_datastream datastream_id) xi"

definition xi_nob_datapoint_delete ::
  "('w, 'r::zero) http_chain \<Rightarrow> ptr \<Rightarrow> int \<Rightarrow> string \<Rightarrow> ptr \<Rightarrow> ('w, 'r) nob_state \<Rightarrow> ('w, 'r) nob_state \<times> ptr option" where
  "xi_nob_datapoint_delete ops xi feed_id datastream_id dp =
     xi_nob_request ops Static_nob_datapoint_delete HTTP_LAYER_INPUT_DATAPOINT_DELETE
       (Xi_delete_datapoint datastream_id dp) xi"

definition xi_nob_datapoint_delete_range ::
  "('w, 'r::zero) http_chain \<Rightarrow> ptr \<Rightarrow> int \<Rightarrow> string \<Rightarrow> ptr \<Rightarrow> ptr \<Rightarrow> ('w, 'r) nob_state \<Rightarrow> ('w, 'r) nob_state \<times> ptr option" where
  "xi_nob_datapoint_delete_range ops xi feed_id datastream_id start end_ts =
     xi_nob_request ops Static_nob_datapoint_delete_range HTTP_LAYER_INPUT_DATAPOINT_DELETE_RANGE
       (Xi_delete_datapoint_range datastream_id start end_ts) xi"

text \<open>The request a context's runner will send: the static its \<^verbatim>\<open>input\<close> points at, read
  when the runner runs, not when the call was made.\<close>

definition nob_pending :: "('w, 'r) nob_state \<Rightarrow> ptr \<Rightarrow> http_layer_input option" where
  "nob_pending s xi = map_option (nob_statics s) (nob_input s xi)"

text \<open>The nine non-blocking calls as one operation over the same call type as the blocking
  ones, and the context each call is made on.\<close>

fun xi_nob_call :: "('w, 'r::zero) http_chain \<Rightarrow> ('w, 'r) nob_state \<Rightarrow> http_call \<Rightarrow> ('w, 'r) nob_state \<times> ptr option" where
  "xi_nob_call ops s (Call_feed_get xi f) = xi_nob_feed_get ops xi f s"
| "xi_nob_call ops s (Call_feed_get_all xi f) = xi_nob_feed_get_all ops xi f s"
| "xi_nob_call ops s (Call_feed_update xi f) = xi_nob_feed_update ops xi f s"
| "xi_nob_call ops s (Call_datastream_get xi fid d dp) = xi_nob_datastream_get ops xi fid d dp s"
| "xi_nob_call ops s (Call_datastream_create xi fid d p) = xi_nob_datastream_create ops xi fid d p s"
| "xi_nob_call ops s (Call_datastream_update xi fid d p) = xi_nob_datastream_update ops xi fid d p s"
| "xi_nob_call ops s (Call_datastream_delete xi fid d) = xi_nob_datastream_delete ops xi fid d s"
| "xi_nob_call ops s (Call_datapoint_delete xi fid d dp) = xi_nob_datapoint_delete ops xi fid d dp s"
| "xi_nob_call ops s (Call_datapoint_delete_range xi fid d a b) = xi_nob_datapoint_delete_range ops xi fid d a b s"

fun http_call_ctx :: "http_call \<Rightarrow> ptr" where
  "http_call_ctx (Call_feed_get xi f) = xi"
| "http_call_ctx (Call_feed_get_all xi f) = xi"
| "http_call_ctx (Call_feed_update xi f) = xi"
| "http_call_ctx (Call_datastream_get xi fid d dp) = xi"
| "http_call_ctx (Call_datastream_create xi fid d p) = xi"
| "http_call_ctx (Call_datastream_update xi fid d p) = xi"
| "http_call_ctx (Call_datastream_delete xi fid d) = xi"
| "http_call_ctx (Call_datapoint_delete xi fid d dp) = xi"
| "http_call_ctx (Call_datapoint_delete_range xi fid d a b) = xi"

fun nob_call_static :: "http_call \<Rightarrow> nob_static" where
  "nob_call_static (Call_feed_get xi f) = Static_nob_feed_get"
| "nob_call_static (Call_feed_get_all xi f) = Static_nob_feed_get_all"
| "nob_call_static (Call_feed_update xi f) = Static_nob_feed_update"
| "nob_call_static (Call_datastream_get xi fid d dp) = Static_nob_datastream_get"
| "nob_call_static (Call_datastream_create xi fid d p) = Static_nob_datastream_create"
| "nob_call_static (Call_datastream_update xi fid d p) = Static_nob_datastream_update"
| "nob_call_static (Call_datastream_delete xi fid d) = Static_nob_datastream_delete"
| "nob_call_static (Call_datapoint_delete xi fid d dp) = Static_nob_datapoint_delete"
| "nob_call_static (Call_datapoint_delete_range xi fid d a b) = Static_nob_datapoint_delete_range"

text \<open>A chain whose io layer always initialises, used to exercise the properties.\<close>

definition chain_ok :: "(nat, nat) http_chain" where
  "chain_ok =
     \<lparr>io_init = \<lambda>s. (s, LAYER_STATE_OK), io_connect = \<lambda>s. (s, LAYER_STATE_OK),
      top_data_ready = \<lambda>q s. (s, LAYER_STATE_OK), io_on_data_ready = \<lambda>s. (s, LAYER_STATE_OK),
      top_close = \<lambda>s. (s, LAYER_STATE_OK)\<rparr>"

definition nob_state_init :: "(nat, nat) nob_state" where
  "nob_state_init =
     \<lparr>nob_layers = (0, 0), nob_statics = (\<lambda>_. \<lparr>query_type = HTTP_LAYER_INPUT_FEED_GET, xi_context = 0,
        http_union_data = Http_no_data\<rparr>), nob_input = Map.empty, nob_trace = []\<rparr>"

subsection \<open>The shape of a non-blocking call\<close>

lemma xi_nob_request_ok:
  assumes "snd (io_init ops (nob_layers s)) = LAYER_STATE_OK"
  shows "xi_nob_request ops st qt data xi s =
    (s\<lparr>nob_layers := (fst (fst (io_init ops (nob_layers s))), 0),
       nob_statics := (nob_statics s)(st := \<lparr>query_type = qt, xi_context = xi, http_union_data = data\<rparr>),
       nob_input := (nob_input s)(xi \<mapsto> st), nob_trace := nob_trace s @ [Init_io]\<rparr>, Some xi)"
  using assms by (cases "io_init ops (nob_layers s)") (simp add: xi_nob_request_def)

lemma xi_nob_request_fails:
  assumes "snd (io_init ops (nob_layers s)) \<noteq> LAYER_STATE_OK"
  shows "xi_nob_request ops st qt data xi s =
    (s\<lparr>nob_layers := fst (io_init ops (nob_layers s)), nob_trace := nob_trace s @ [Init_io]\<rparr>, None)"
  using assms by (cases "io_init ops (nob_layers s)") (simp add: xi_nob_request_def)

lemma xi_nob_call_request:
  "xi_nob_call ops s c =
     xi_nob_request ops (nob_call_static c) (query_type (http_call_input c)) (http_union_data (http_call_input c))
       (http_call_ctx c) s"
  by (cases c)
    (simp_all add: xi_nob_feed_update_def xi_nob_feed_get_def xi_nob_feed_get_all_def
      xi_nob_datastream_create_def xi_nob_datastream_update_def xi_nob_datastream_get_def
      xi_nob_datastream_delete_def xi_nob_datapoint_delete_def xi_nob_datapoint_delete_range_def)

lemma http_call_input_ctx [simp]: "xi_context (http_call_input c) = http_call_ctx c"
  by (cases c) simp_all

lemma http_call_input_eq:
  "\<lparr>query_type = query_type (http_call_input c), xi_context = http_call_ctx c,
    http_union_data = http_union_data (http_call_input c)\<rparr> = http_call_input c"
  by (cases c) simp_all

subsection \<open>Properties of the non-blocking calls\<close>

text \<open>C17. The non-blocking calls queue exactly what the blocking calls send: when the io
  layer initialises, each call returns its context, makes no layer call but the init, and
  leaves the context's input pointing at the descriptor the blocking call of the same name
  hands to the top layer.\<close>

theorem xi_nob_call_queues_blocking_input:
  fixes ops :: "('w, 'r::zero) http_chain"
  assumes "snd (io_init ops (nob_layers s)) = LAYER_STATE_OK"
  shows "snd (xi_nob_call ops s c) = Some (http_call_ctx c) \<and>
         nob_pending (fst (xi_nob_call ops s c)) (http_call_ctx c) = Some (http_call_input c) \<and>
         nob_trace (fst (xi_nob_call ops s c)) = nob_trace s @ [Init_io]"
  using xi_nob_request_ok [OF assms] by (simp add: xi_nob_call_request nob_pending_def http_call_input_eq)

theorem xi_nob_call_queues_blocking_input_witness:
  "snd (io_init chain_ok (nob_layers nob_state_init)) = LAYER_STATE_OK \<and>
   snd (xi_nob_call chain_ok nob_state_init (Call_datastream_update 3 11 ''temp'' 8)) = Some 3 \<and>
   nob_pending (fst (xi_nob_call chain_ok nob_state_init (Call_datastream_update 3 11 ''temp'' 8))) 3 =
     Some (http_call_input (Call_datastream_update 3 11 ''temp'' 8)) \<and>
   nob_trace (fst (xi_nob_call chain_ok nob_state_init (Call_datastream_update 3 11 ''temp'' 8))) =
     nob_trace nob_state_init @ [Init_io]"
proof -
  have hyp: "snd (io_init chain_ok (nob_layers nob_state_init)) = LAYER_STATE_OK"
    by (simp add: chain_ok_def)
  have "http_call_ctx (Call_datastream_update 3 11 ''temp'' 8) = 3" by simp
  then show ?thesis
    using hyp xi_nob_call_queues_blocking_input [OF hyp, of "Call_datastream_update 3 11 ''temp'' 8"]
    by (simp only:)
qed

text \<open>C18. All contexts share each call's static descriptor: after two successful calls of the
  same non-blocking function on contexts \<open>x\<close> and then \<open>y\<close>, the runner of \<open>x\<close> will send
  \<open>y\<close>'s request, with \<open>y\<close> as its context.\<close>

theorem xi_nob_same_call_aliases:
  fixes ops :: "('w, 'r::zero) http_chain"
  assumes "xi_nob_datastream_get ops x f1 d1 dp1 s = (s1, Some x)"
    and "xi_nob_datastream_get ops y f2 d2 dp2 s1 = (s2, Some y)"
  shows "nob_pending s2 x = Some \<lparr>query_type = HTTP_LAYER_INPUT_DATASTREAM_GET, xi_context = y,
                                  http_union_data = Xi_get_datastream d2 dp2\<rparr>"
proof -
  have ok: "snd (io_init ops (nob_layers s)) = LAYER_STATE_OK" "snd (io_init ops (nob_layers s1)) = LAYER_STATE_OK"
    using assms xi_nob_request_fails by (fastforce simp: xi_nob_datastream_get_def)+
  show ?thesis
    using assms xi_nob_request_ok [OF ok(1)] xi_nob_request_ok [OF ok(2)]
    by (auto simp: xi_nob_datastream_get_def nob_pending_def)
qed

theorem xi_nob_same_call_aliases_witness:
  "let s1 = fst (xi_nob_datastream_get chain_ok 1 0 ''temp'' 10 nob_state_init);
       s2 = fst (xi_nob_datastream_get chain_ok 2 0 ''humidity'' 20 s1)
   in xi_nob_datastream_get chain_ok 1 0 ''temp'' 10 nob_state_init = (s1, Some 1) \<and>
      xi_nob_datastream_get chain_ok 2 0 ''humidity'' 20 s1 = (s2, Some 2) \<and>
      nob_pending s2 1 = Some \<lparr>query_type = HTTP_LAYER_INPUT_DATASTREAM_GET, xi_context = 2,
                               http_union_data = Xi_get_datastream ''humidity'' 20\<rparr>"
proof -
  define s1 where "s1 = fst (xi_nob_datastream_get chain_ok 1 0 ''temp'' 10 nob_state_init)"
  define s2 where "s2 = fst (xi_nob_datastream_get chain_ok 2 0 ''humidity'' 20 s1)"
  have h1: "xi_nob_datastream_get chain_ok 1 0 ''temp'' 10 nob_state_init = (s1, Some 1)"
    unfolding s1_def by (simp add: xi_nob_datastream_get_def xi_nob_request_def chain_ok_def nob_state_init_def)
  have h2: "xi_nob_datastream_get chain_ok 2 0 ''humidity'' 20 s1 = (s2, Some 2)"
    unfolding s2_def by (simp add: xi_nob_datastream_get_def xi_nob_request_def chain_ok_def)
  show ?thesis using h1 h2 xi_nob_same_call_aliases [OF h1 h2] unfolding Let_def s1_def [symmetric] s2_def [symmetric]
    by blast
qed

text \<open>C19. A non-blocking call whose io init fails returns 0 and changes neither the statics
  nor which request any context has pending.\<close>

theorem xi_nob_call_init_fails:
  fixes ops :: "('w, 'r::zero) http_chain"
  assumes "snd (io_init ops (nob_layers s)) \<noteq> LAYER_STATE_OK"
  shows "snd (xi_nob_call ops s c) = None \<and> nob_pending (fst (xi_nob_call ops s c)) = nob_pending s \<and>
         nob_trace (fst (xi_nob_call ops s c)) = nob_trace s @ [Init_io]"
  using xi_nob_request_fails [OF assms] by (simp add: xi_nob_call_request nob_pending_def fun_eq_iff)

theorem xi_nob_call_init_fails_witness:
  "snd (io_init chain_connect_timeout (nob_layers nob_state_init)) = LAYER_STATE_OK \<and>
   snd (io_init (chain_ok\<lparr>io_init := \<lambda>s. (s, LAYER_STATE_ERROR)\<rparr>) (nob_layers nob_state_init)) \<noteq> LAYER_STATE_OK \<and>
   snd (xi_nob_call (chain_ok\<lparr>io_init := \<lambda>s. (s, LAYER_STATE_ERROR)\<rparr>) nob_state_init (Call_feed_get 1 2)) = None \<and>
   nob_pending (fst (xi_nob_call (chain_ok\<lparr>io_init := \<lambda>s. (s, LAYER_STATE_ERROR)\<rparr>) nob_state_init (Call_feed_get 1 2)))
     = nob_pending nob_state_init \<and>
   nob_trace (fst (xi_nob_call (chain_ok\<lparr>io_init := \<lambda>s. (s, LAYER_STATE_ERROR)\<rparr>) nob_state_init (Call_feed_get 1 2)))
     = nob_trace nob_state_init @ [Init_io]"
proof -
  have hyp: "snd (io_init (chain_ok\<lparr>io_init := \<lambda>s. (s, LAYER_STATE_ERROR)\<rparr>) (nob_layers nob_state_init)) \<noteq> LAYER_STATE_OK"
    by simp
  have "snd (io_init chain_connect_timeout (nob_layers nob_state_init)) = LAYER_STATE_OK"
    by (simp add: chain_connect_timeout_def)
  then show ?thesis using hyp xi_nob_call_init_fails [OF hyp] by blast
qed

end
