(* ===== verification/Xively_Mqtt.thy ===== *)
theory Xively_Mqtt
  imports Xively_Context
begin

text \<open>
  The MQTT entry points of \<^verbatim>\<open>src/src/libxively/xively.c\<close> and the MQTT logic layer of
  \<^verbatim>\<open>src/src/libxively/mqtt/logic_layer/xi_mqtt_logic_layer.c\<close>. \<^verbatim>\<open>xi_mqtt_publish\<close> (MQTT build
  without NOB, lines 1224 to 1307) runs a blocking connect-then-publish sequence over the
  chain. The NOB build's \<^verbatim>\<open>xi_nob_mqtt_connect\<close>, \<^verbatim>\<open>xi_nob_mqtt_publish\<close> and
  \<^verbatim>\<open>xi_nob_mqtt_subscribe\<close> (lines 1311 to 1416) hand a connection or a freshly allocated task to
  the top layer; their allocations and error exits run over the allocator of
  \<open>Xively_Context\<close>, with each local pointer of the C code a local of the model, including
  the one field the code reads before writing it. The message type of \<^verbatim>\<open>message.h\<close> is not in
  the repository; the message is modelled as a record of the fields the code writes, not as
  the C union, so fields that share storage in C are separate here.
\<close>

datatype mqtt_type =
    MQTT_TYPE_RESERVED | MQTT_TYPE_CONNECT | MQTT_TYPE_CONNACK | MQTT_TYPE_PUBLISH | MQTT_TYPE_PUBACK
  | MQTT_TYPE_PUBREC | MQTT_TYPE_PUBREL | MQTT_TYPE_PUBCOMP | MQTT_TYPE_SUBSCRIBE | MQTT_TYPE_SUBACK

record mqtt_message =
  mqtt_retain :: bool
  mqtt_qos :: nat
  mqtt_dup :: bool
  mqtt_type :: mqtt_type
  remaining_length :: nat
  protocol_name :: string
  protocol_version :: "8 word"
  username_follows :: bool
  password_follows :: bool
  will_retain :: bool
  will_qos :: nat
  will :: bool
  clean_session :: bool
  keep_alive :: "16 word"
  client_id :: string
  topic_name :: string
  content :: string

definition mqtt_message_zero :: mqtt_message where
  "mqtt_message_zero =
     \<lparr>mqtt_retain = False, mqtt_qos = 0, mqtt_dup = False, mqtt_type = MQTT_TYPE_RESERVED,
      remaining_length = 0, protocol_name = [], protocol_version = 0, username_follows = False,
      password_follows = False, will_retain = False, will_qos = 0, will = False, clean_session = False,
      keep_alive = 0, client_id = [], topic_name = [], content = []\<rparr>"

text \<open>The CONNECT message \<^verbatim>\<open>xi_mqtt_publish\<close> fills in after clearing it (lines 1246 to 1272).\<close>

definition mqtt_connect_message :: mqtt_message where
  "mqtt_connect_message =
     mqtt_message_zero\<lparr>mqtt_retain := False, mqtt_qos := 0, mqtt_dup := False, mqtt_type := MQTT_TYPE_CONNECT,
       remaining_length := 0, protocol_name := ''MQIsdp'', protocol_version := 3,
       username_follows := False, password_follows := False, will_retain := False, will_qos := 0,
       will := False, clean_session := False, keep_alive := 0, client_id := ''xi_test_client''\<rparr>"

definition xi_mqtt_publish ::
  "(mqtt_message, 'w, 'r) layer_chain \<Rightarrow> string \<Rightarrow> string \<Rightarrow> 'w \<times> 'r \<Rightarrow>
   ('w \<times> 'r) \<times> mqtt_message layer_call list \<times> ptr option" where
  "xi_mqtt_publish ops topic msg s0 =
     (case io_init ops s0 of
        (s1, state) \<Rightarrow>
          if state \<noteq> LAYER_STATE_OK then (s1, [Init_io], None)
          else
            (case io_connect ops s1 of
               (s2, state) \<Rightarrow>
                 if state \<noteq> LAYER_STATE_OK then (s2, [Init_io, Connect_io], None)
                 else
                   (case top_data_ready ops mqtt_connect_message s2 of
                      (s3, state) \<Rightarrow>
                        let (s4, state, tr) =
                              (if state = LAYER_STATE_OK then
                                 (case io_on_data_ready ops s3 of
                                    (s4, state') \<Rightarrow> (s4, state', [On_data_ready_io]))
                               else (s3, state, []));
                            message = mqtt_connect_message\<lparr>mqtt_type := MQTT_TYPE_PUBLISH,
                                        topic_name := topic, content := msg\<rparr>;
                            (s5, tr') = (if state = LAYER_STATE_OK
                                         then (fst (top_data_ready ops message s4), [Data_ready_top message])
                                         else (s4, []));
                            s6 = fst (top_close ops s5)
                        in (s6, [Init_io, Connect_io, Data_ready_top mqtt_connect_message] @ tr @ tr' @ [Close_top],
                            None))))"

subsection \<open>The NOB build: tasks handed to the logic layer\<close>

datatype xi_mqtt_scenario = XI_MQTT_PUBLISH | XI_MQTT_SUBSCRIBE

datatype xi_mqtt_qos = XI_MQTT_QOS_ZERO | XI_MQTT_QOS_ONE

text \<open>A task as the top layer receives it: the settings, the blocks the task and its
  \<^verbatim>\<open>data_u\<close> live in, and the members of \<^verbatim>\<open>data_u\<close> (the duplicated topic, and the duplicated
  message or the handler).\<close>

record xi_mqtt_logic_task =
  scenario_t :: xi_mqtt_scenario
  qos_t :: xi_mqtt_qos
  task_block :: ptr
  data_u :: ptr
  task_topic :: "ptr \<times> string"
  task_msg :: "(ptr \<times> string) option"
  task_handler :: "nat option"

record xi_connection_data =
  on_connected :: nat

text \<open>The top layer's entry points the NOB calls use. A result \<open>None\<close> says the function
  called returns \<open>void\<close>, so the value the caller reads back is indeterminate.\<close>

record 'w mqtt_top_layer =
  top_init_mqtt :: "xi_connection_data \<Rightarrow> 'w \<Rightarrow> 'w \<times> layer_state option"
  top_push_task :: "xi_mqtt_logic_task \<Rightarrow> 'w \<Rightarrow> 'w \<times> layer_state option"

record 'w mqtt_nob_state =
  mq_heap :: "nat xi_globals"
  mq_world :: 'w
  handlers_for_topics :: "ptr list"

definition xi_safe_free :: "ptr option \<Rightarrow> nat xi_globals \<Rightarrow> c_fault + nat xi_globals" where
  "xi_safe_free p g = (case p of None \<Rightarrow> Inr g | Some q \<Rightarrow> xi_free q g)"

definition call_top :: "'w \<times> layer_state option \<Rightarrow> 'w mqtt_nob_state \<Rightarrow> c_fault + 'w mqtt_nob_state \<times> layer_state" where
  "call_top r s = (case r of (w, None) \<Rightarrow> Inl Indeterminate_value | (w, Some st) \<Rightarrow> Inr (s\<lparr>mq_world := w\<rparr>, st))"

definition xi_nob_mqtt_connect ::
  "'w mqtt_top_layer \<Rightarrow> xi_connection_data \<Rightarrow> nat \<Rightarrow> 'w mqtt_nob_state \<Rightarrow> c_fault + 'w mqtt_nob_state \<times> layer_state" where
  "xi_nob_mqtt_connect top_layer connection_data handler s =
     call_top (top_init_mqtt top_layer (connection_data\<lparr>on_connected := handler\<rparr>) (mq_world s)) s"

text \<open>The error exit of \<^verbatim>\<open>xi_nob_mqtt_publish\<close> (lines 1358 to 1369), with its locals: the
  task, its \<^verbatim>\<open>data_u\<close>, the topic copy, and the message copy, which is \<open>None\<close> while it is still
  uninitialised memory of the \<^verbatim>\<open>data_u\<close> block. \<^verbatim>\<open>XI_SAFE_FREE\<close> frees a non-null pointer and
  nulls it, so \<^verbatim>\<open>task\<close> is null when its \<^verbatim>\<open>data_u\<close> member is read on the last line.\<close>

definition xi_nob_mqtt_publish_err ::
  "ptr option \<Rightarrow> ptr option \<Rightarrow> ptr option \<Rightarrow> ptr option option \<Rightarrow> nat xi_globals \<Rightarrow> c_fault + nat xi_globals" where
  "xi_nob_mqtt_publish_err task du topic msg g =
     (case task of
        None \<Rightarrow> Inr g
      | Some t \<Rightarrow>
          (case du of
             None \<Rightarrow> Inr g
           | Some d \<Rightarrow>
               (case msg of
                  None \<Rightarrow> Inl Indeterminate_value
                | Some m \<Rightarrow>
                    (case xi_safe_free m g of
                       Inl f \<Rightarrow> Inl f
                     | Inr g1 \<Rightarrow> (case xi_safe_free topic g1 of
                                   Inl f \<Rightarrow> Inl f
                                 | Inr g2 \<Rightarrow> (case xi_free t g2 of
                                               Inl f \<Rightarrow> Inl f
                                             | Inr g3 \<Rightarrow> Inl Null_deref))))))"

definition xi_nob_mqtt_publish ::
  "'w mqtt_top_layer \<Rightarrow> string \<Rightarrow> string \<Rightarrow> 'w mqtt_nob_state \<Rightarrow> c_fault + 'w mqtt_nob_state \<times> layer_state" where
  "xi_nob_mqtt_publish top_layer topic msg s =
     (let fail = (\<lambda>r. case r of Inl f \<Rightarrow> Inl f | Inr g \<Rightarrow> Inr (s\<lparr>mq_heap := g\<rparr>, LAYER_STATE_ERROR))
      in case xi_alloc (mq_heap s) of
           (None, g1) \<Rightarrow> fail (xi_nob_mqtt_publish_err None None None None g1)
         | (Some t, g1) \<Rightarrow>
             (case xi_alloc g1 of
                (None, g2) \<Rightarrow> fail (xi_nob_mqtt_publish_err (Some t) None None None g2)
              | (Some d, g2) \<Rightarrow>
                  (case xi_alloc g2 of
                     (None, g3) \<Rightarrow> fail (xi_nob_mqtt_publish_err (Some t) (Some d) None None g3)
                   | (Some tp, g3) \<Rightarrow>
                       (case xi_alloc g3 of
                          (None, g4) \<Rightarrow> fail (xi_nob_mqtt_publish_err (Some t) (Some d) (Some tp) (Some None) g4)
                        | (Some mp, g4) \<Rightarrow>
                            (let task = \<lparr>scenario_t = XI_MQTT_PUBLISH, qos_t = XI_MQTT_QOS_ZERO, task_block = t,
                                         data_u = d, task_topic = (tp, topic), task_msg = Some (mp, msg),
                                         task_handler = None\<rparr>
                             in call_top (top_push_task top_layer task (mq_world s)) (s\<lparr>mq_heap := g4\<rparr>))))))"

text \<open>The error exit of \<^verbatim>\<open>xi_nob_mqtt_subscribe\<close> (lines 1404 to 1415).\<close>

definition xi_nob_mqtt_subscribe_err ::
  "ptr option \<Rightarrow> ptr option \<Rightarrow> ptr option \<Rightarrow> nat xi_globals \<Rightarrow> c_fault + nat xi_globals" where
  "xi_nob_mqtt_subscribe_err task du topic g =
     (case task of
        None \<Rightarrow> Inr g
      | Some t \<Rightarrow>
          (case (case du of
                   None \<Rightarrow> Inr g
                 | Some d \<Rightarrow> (case xi_safe_free topic g of Inl f \<Rightarrow> Inl f | Inr g1 \<Rightarrow> xi_free d g1)) of
             Inl f \<Rightarrow> Inl f
           | Inr g2 \<Rightarrow> xi_free t g2))"

definition xi_nob_mqtt_subscribe ::
  "'w mqtt_top_layer \<Rightarrow> string \<Rightarrow> nat \<Rightarrow> 'w mqtt_nob_state \<Rightarrow> c_fault + 'w mqtt_nob_state \<times> layer_state" where
  "xi_nob_mqtt_subscribe top_layer topic handler s =
     (let fail = (\<lambda>r. case r of Inl f \<Rightarrow> Inl f | Inr g \<Rightarrow> Inr (s\<lparr>mq_heap := g\<rparr>, LAYER_STATE_ERROR))
      in case xi_alloc (mq_heap s) of
           (None, g1) \<Rightarrow> fail (xi_nob_mqtt_subscribe_err None None None g1)
         | (Some t, g1) \<Rightarrow>
             (case xi_alloc g1 of
                (None, g2) \<Rightarrow> fail (xi_nob_mqtt_subscribe_err (Some t) None None g2)
              | (Some d, g2) \<Rightarrow>
                  (case xi_alloc g2 of
                     (None, g3) \<Rightarrow> fail (xi_nob_mqtt_subscribe_err (Some t) (Some d) None g3)
                   | (Some tp, g3) \<Rightarrow>
                       (let task = \<lparr>scenario_t = XI_MQTT_SUBSCRIBE, qos_t = XI_MQTT_QOS_ONE, task_block = t,
                                    data_u = d, task_topic = (tp, topic), task_msg = None,
                                    task_handler = Some handler\<rparr>;
                            s' = s\<lparr>mq_heap := g3, handlers_for_topics := handlers_for_topics s @ [d]\<rparr>
                        in call_top (top_push_task top_layer task (mq_world s)) s'))))"

subsection \<open>The MQTT logic layer\<close>

text \<open>The logic layer's entry points as the repository has them: \<^verbatim>\<open>data_ready\<close>,
  \<^verbatim>\<open>on_data_ready\<close>, \<^verbatim>\<open>close\<close> and \<^verbatim>\<open>on_close\<close> are empty \<open>void\<close> functions; \<^verbatim>\<open>init\<close> passes the
  call on to the previous layer and, being \<open>void\<close>, returns no value; \<^verbatim>\<open>connect\<close> schedules the
  layer's \<^verbatim>\<open>on_connected\<close> handle on the global dispatcher. The dispatcher queue is a list of
  handles; the previous layer's init is a parameter.\<close>

record xi_mqtt_logic_layer_data =
  logic_on_connected :: nat

definition xi_mqtt_logic_layer_data_ready :: "'d \<Rightarrow> 'w \<Rightarrow> 'w" where
  "xi_mqtt_logic_layer_data_ready data w = w"

definition xi_mqtt_logic_layer_on_data_ready :: "'d \<Rightarrow> 'w \<Rightarrow> 'w" where
  "xi_mqtt_logic_layer_on_data_ready data w = w"

definition xi_mqtt_logic_layer_init :: "('d \<Rightarrow> 'w \<Rightarrow> 'w \<times> layer_state) \<Rightarrow> 'd \<Rightarrow> 'w \<Rightarrow> 'w" where
  "xi_mqtt_logic_layer_init prev_init data w = fst (prev_init data w)"

definition xi_mqtt_logic_layer_connect :: "xi_mqtt_logic_layer_data \<Rightarrow> nat list \<Rightarrow> nat list" where
  "xi_mqtt_logic_layer_connect layer_data evtd_queue = evtd_queue @ [logic_on_connected layer_data]"

definition xi_mqtt_logic_layer_close :: "'d \<Rightarrow> 'w \<Rightarrow> 'w" where
  "xi_mqtt_logic_layer_close data w = w"

definition xi_mqtt_logic_layer_on_close :: "'d \<Rightarrow> 'w \<Rightarrow> 'w" where
  "xi_mqtt_logic_layer_on_close data w = w"

text \<open>The logic layer as the top layer of the NOB chain: every entry point the NOB calls
  reach is \<open>void\<close>.\<close>

definition logic_layer_top :: "(xi_connection_data \<Rightarrow> 'w \<Rightarrow> 'w \<times> layer_state) \<Rightarrow> 'w mqtt_top_layer" where
  "logic_layer_top prev_init =
     \<lparr>top_init_mqtt = \<lambda>c w. (xi_mqtt_logic_layer_init prev_init c w, None),
      top_push_task = \<lambda>t w. (xi_mqtt_logic_layer_data_ready t w, None)\<rparr>"

text \<open>The PUBLISH message the second data-ready sends: the cleared-and-filled CONNECT
  message with its type, topic and content changed (lines 1283 to 1298). In C the
  \<^verbatim>\<open>publish\<close> members share the storage of the \<^verbatim>\<open>connect\<close> members of the union, whose layout is
  not in the repository. The record keeps the CONNECT fields apart, so no lemma reads a CONNECT
  field of this message.\<close>

definition mqtt_publish_message :: "string \<Rightarrow> string \<Rightarrow> mqtt_message" where
  "mqtt_publish_message topic msg = mqtt_connect_message\<lparr>mqtt_type := MQTT_TYPE_PUBLISH, topic_name := topic, content := msg\<rparr>"

definition mqtt_chain_ok :: "(mqtt_message, nat, nat) layer_chain" where
  "mqtt_chain_ok =
     \<lparr>io_init = \<lambda>s. (s, LAYER_STATE_OK), io_connect = \<lambda>s. (s, LAYER_STATE_OK),
      top_data_ready = \<lambda>q s. ((Suc (fst s), snd s), LAYER_STATE_OK), io_on_data_ready = \<lambda>s. (s, LAYER_STATE_OK),
      top_close = \<lambda>s. (s, LAYER_STATE_OK)\<rparr>"

text \<open>A top layer that accepts every task, and the initial NOB state, used to exercise the
  properties.\<close>

definition top_accepts :: "nat mqtt_top_layer" where
  "top_accepts = \<lparr>top_init_mqtt = \<lambda>c w. (w, Some LAYER_STATE_OK), top_push_task = \<lambda>t w. (Suc w, Some LAYER_STATE_OK)\<rparr>"

definition mqtt_nob_init :: "bool list \<Rightarrow> nat mqtt_nob_state" where
  "mqtt_nob_init oracle = \<lparr>mq_heap = xi_globals_init oracle, mq_world = 0, handlers_for_topics = []\<rparr>"

subsection \<open>The outcomes of the NOB calls\<close>

lemma call_top_void [simp]: "call_top (w, None) s = Inl Indeterminate_value"
  by (simp add: call_top_def)

lemma xi_nob_mqtt_publish_shape:
  "(\<exists>f. xi_nob_mqtt_publish top_layer topic msg s = Inl f) \<or>
   (\<exists>s'. xi_nob_mqtt_publish top_layer topic msg s = Inr (s', LAYER_STATE_ERROR)) \<or>
   (\<exists>t s'. xi_nob_mqtt_publish top_layer topic msg s = call_top (top_push_task top_layer t (mq_world s)) s')"
  unfolding xi_nob_mqtt_publish_def Let_def
  by (auto split: prod.split option.split sum.split)

lemma xi_nob_mqtt_subscribe_shape:
  "(\<exists>f. xi_nob_mqtt_subscribe top_layer topic handler s = Inl f) \<or>
   (\<exists>s'. xi_nob_mqtt_subscribe top_layer topic handler s = Inr (s', LAYER_STATE_ERROR)) \<or>
   (\<exists>t s'. xi_nob_mqtt_subscribe top_layer topic handler s = call_top (top_push_task top_layer t (mq_world s)) s')"
  unfolding xi_nob_mqtt_subscribe_def Let_def
  by (auto split: prod.split option.split sum.split)

subsection \<open>Properties of the MQTT entry points\<close>

text \<open>C20. \<^verbatim>\<open>xi_mqtt_publish\<close> drives the chain in the order of the source, each call gated by
  the answer before it. It connects exactly when init answered OK, and closes exactly when init
  and connect did. It lets the io layer deliver the reply exactly when the top layer accepted
  CONNECT as well, and sends PUBLISH exactly when that delivery answered OK too. Whatever happens
  it returns the null pointer.\<close>

theorem xi_mqtt_publish_order:
  "let tr = fst (snd (xi_mqtt_publish ops topic msg s));
       s1 = io_init ops s; s2 = io_connect ops (fst s1);
       s3 = top_data_ready ops mqtt_connect_message (fst s2); s4 = io_on_data_ready ops (fst s3)
   in tr \<in> {[Init_io], [Init_io, Connect_io], [Init_io, Connect_io, Data_ready_top mqtt_connect_message, Close_top],
            [Init_io, Connect_io, Data_ready_top mqtt_connect_message, On_data_ready_io, Close_top],
            [Init_io, Connect_io, Data_ready_top mqtt_connect_message, On_data_ready_io,
             Data_ready_top (mqtt_publish_message topic msg), Close_top]} \<and>
      (Connect_io \<in> set tr \<longleftrightarrow> snd s1 = LAYER_STATE_OK) \<and>
      (Close_top \<in> set tr \<longleftrightarrow> snd s1 = LAYER_STATE_OK \<and> snd s2 = LAYER_STATE_OK) \<and>
      (On_data_ready_io \<in> set tr \<longleftrightarrow>
         snd s1 = LAYER_STATE_OK \<and> snd s2 = LAYER_STATE_OK \<and> snd s3 = LAYER_STATE_OK) \<and>
      (Data_ready_top (mqtt_publish_message topic msg) \<in> set tr \<longleftrightarrow>
         snd s1 = LAYER_STATE_OK \<and> snd s2 = LAYER_STATE_OK \<and> snd s3 = LAYER_STATE_OK \<and> snd s4 = LAYER_STATE_OK) \<and>
      snd (snd (xi_mqtt_publish ops topic msg s)) = None"
proof -
  have "mqtt_type (mqtt_publish_message topic msg) \<noteq> mqtt_type mqtt_connect_message"
    by (simp add: mqtt_publish_message_def mqtt_connect_message_def)
  then have ne: "mqtt_publish_message topic msg \<noteq> mqtt_connect_message" by metis
  show ?thesis
    using ne by (simp add: xi_mqtt_publish_def mqtt_publish_message_def Let_def split: prod.split)
qed

theorem xi_mqtt_publish_order_witness:
  "On_data_ready_io \<in> set (fst (snd (xi_mqtt_publish mqtt_chain_ok ''t'' ''m'' (0, 0)))) \<and>
   Data_ready_top (mqtt_publish_message ''t'' ''m'') \<in> set (fst (snd (xi_mqtt_publish mqtt_chain_ok ''t'' ''m'' (0, 0)))) \<and>
   snd (snd (xi_mqtt_publish mqtt_chain_ok ''t'' ''m'' (0, 0))) = None"
  using xi_mqtt_publish_order [of mqtt_chain_ok "''t''" "''m''" "(0, 0)"]
  by (simp add: Let_def mqtt_chain_ok_def)

text \<open>C21. The error exit of \<^verbatim>\<open>xi_nob_mqtt_publish\<close> is wrong on every path but the first,
  for every state, top layer, topic and message. When the task allocation fails it reports ERROR
  and holds nothing. When the \<^verbatim>\<open>data_u\<close> allocation fails it reports ERROR but leaks the task.
  When the topic copy fails it frees the never-initialised message pointer of \<^verbatim>\<open>data_u\<close>. When
  the message copy fails it frees the task, nulls it, and then dereferences it.\<close>

theorem xi_nob_mqtt_publish_error_paths:
  "(alloc_oracle (mq_heap s) = False # os \<longrightarrow>
      (\<exists>s'. xi_nob_mqtt_publish top_layer topic msg s = Inr (s', LAYER_STATE_ERROR) \<and>
            allocated (mq_heap s') = allocated (mq_heap s))) \<and>
   (alloc_oracle (mq_heap s) = True # False # os \<longrightarrow>
      (\<exists>s'. xi_nob_mqtt_publish top_layer topic msg s = Inr (s', LAYER_STATE_ERROR) \<and>
            allocated (mq_heap s') = insert (next_ptr (mq_heap s)) (allocated (mq_heap s)))) \<and>
   (alloc_oracle (mq_heap s) = True # True # False # os \<longrightarrow>
      xi_nob_mqtt_publish top_layer topic msg s = Inl Indeterminate_value) \<and>
   (alloc_oracle (mq_heap s) = True # True # True # False # os \<longrightarrow>
      xi_nob_mqtt_publish top_layer topic msg s = Inl Null_deref)"
  by (simp add: xi_nob_mqtt_publish_def xi_nob_mqtt_publish_err_def xi_safe_free_def xi_free_def Let_def)

theorem xi_nob_mqtt_publish_error_paths_witness:
  "alloc_oracle (mq_heap (mqtt_nob_init [True, False])) = True # False # [] \<and>
   (\<exists>s'. xi_nob_mqtt_publish top_accepts ''t'' ''m'' (mqtt_nob_init [True, False]) = Inr (s', LAYER_STATE_ERROR) \<and>
         allocated (mq_heap s') = {1})"
proof -
  have o: "alloc_oracle (mq_heap (mqtt_nob_init [True, False])) = True # False # []"
    "next_ptr (mq_heap (mqtt_nob_init [True, False])) = 1" "allocated (mq_heap (mqtt_nob_init [True, False])) = {}"
    by (simp_all add: mqtt_nob_init_def xi_globals_init_def)
  show ?thesis
    using xi_nob_mqtt_publish_error_paths [of "mqtt_nob_init [True, False]" "[]" top_accepts "''t''" "''m''"] o
    by simp
qed

text \<open>C22. The error exit of \<^verbatim>\<open>xi_nob_mqtt_subscribe\<close> is clean: whichever of its three
  allocations fails, it reports ERROR, never faults, and every block it allocated is freed.\<close>
theorem xi_nob_mqtt_subscribe_error_clean:
  assumes "False \<in> set (take 3 (alloc_oracle (mq_heap s)))"
    and "\<forall>p \<in> allocated (mq_heap s). p < next_ptr (mq_heap s)"
  shows "\<exists>s'. xi_nob_mqtt_subscribe top_layer topic handler s = Inr (s', LAYER_STATE_ERROR) \<and>
              allocated (mq_heap s') = allocated (mq_heap s)"
proof -
  obtain os where "alloc_oracle (mq_heap s) = False # os \<or> alloc_oracle (mq_heap s) = True # False # os \<or>
      alloc_oracle (mq_heap s) = True # True # False # os"
    using False_in_take3 [OF assms(1)] by blast
  then show ?thesis
    using assms(2)
    by (elim disjE) (auto simp: xi_nob_mqtt_subscribe_def xi_nob_mqtt_subscribe_err_def xi_safe_free_def xi_free_def)
qed

theorem xi_nob_mqtt_subscribe_error_clean_witness:
  "False \<in> set (take 3 (alloc_oracle (mq_heap (mqtt_nob_init [True, False])))) \<and>
   allocated (mq_heap (mqtt_nob_init [True, False])) = {} \<and>
   (\<exists>s'. xi_nob_mqtt_subscribe top_accepts ''sensors/#'' 7 (mqtt_nob_init [True, False]) = Inr (s', LAYER_STATE_ERROR) \<and>
         allocated (mq_heap s') = allocated (mq_heap (mqtt_nob_init [True, False])))"
proof -
  have hyp: "False \<in> set (take 3 (alloc_oracle (mq_heap (mqtt_nob_init [True, False]))))"
    "\<forall>p \<in> allocated (mq_heap (mqtt_nob_init [True, False])). p < next_ptr (mq_heap (mqtt_nob_init [True, False]))"
    by (simp_all add: mqtt_nob_init_def xi_globals_init_def)
  have "allocated (mq_heap (mqtt_nob_init [True, False])) = {}" by (simp add: mqtt_nob_init_def xi_globals_init_def)
  then show ?thesis using hyp(1) xi_nob_mqtt_subscribe_error_clean [OF hyp] by blast
qed

text \<open>C23. Composed with the repository's MQTT logic layer as the top layer, the NOB calls can
  never report success: the logic layer's \<^verbatim>\<open>init\<close> and \<^verbatim>\<open>data_ready\<close> are \<open>void\<close>, so
  \<^verbatim>\<open>xi_nob_mqtt_connect\<close> always returns an indeterminate value, and \<^verbatim>\<open>xi_nob_mqtt_publish\<close> and
  \<^verbatim>\<open>xi_nob_mqtt_subscribe\<close> return an indeterminate value or ERROR.\<close>
theorem xi_logic_layer_top_never_reports_success:
  "(case xi_nob_mqtt_publish (logic_layer_top pi) topic msg s of
      Inl _ \<Rightarrow> True | Inr (_, st) \<Rightarrow> st = LAYER_STATE_ERROR) \<and>
   (case xi_nob_mqtt_subscribe (logic_layer_top pi) topic handler s of
      Inl _ \<Rightarrow> True | Inr (_, st) \<Rightarrow> st = LAYER_STATE_ERROR) \<and>
   xi_nob_mqtt_connect (logic_layer_top pi) conn handler s = Inl Indeterminate_value"
proof -
  have void: "call_top (top_push_task (logic_layer_top pi) t w) s' = Inl Indeterminate_value" for t w s'
    by (simp add: logic_layer_top_def)
  show ?thesis
    using xi_nob_mqtt_publish_shape [of "logic_layer_top pi" topic msg s]
      xi_nob_mqtt_subscribe_shape [of "logic_layer_top pi" topic handler s]
    by (auto simp: void xi_nob_mqtt_connect_def logic_layer_top_def)
qed

end
