(* ===== verification/Xively_Datapoint.thy ===== *)
theory Xively_Datapoint
  imports Prelude
begin

text \<open>
  The datapoint accessors of the HTTP build of \<^verbatim>\<open>src/src/libxively/xively.c\<close> (the helper
  functions under \<^verbatim>\<open>#ifndef XI_MQTT_ENABLED\<close>): a datapoint carries a type tag and a C union
  \<^verbatim>\<open>value\<close> whose members \<^verbatim>\<open>i32_value\<close>, \<^verbatim>\<open>f32_value\<close> and \<^verbatim>\<open>str_value\<close> share the same
  bytes. The union is modelled as that list of bytes, so that writing one member overwrites the
  others as it does in C: a 32-bit member occupies the first four bytes in little-endian order,
  the string member is a NUL-terminated C string from byte 0. A \<^verbatim>\<open>float\<close> is carried as its
  32-bit IEEE-754 pattern (the accessors only copy it). Datapoints live in a store from
  pointers to datapoints; the accessors' \<^verbatim>\<open>assert( p != 0 )\<close> is a fault, and so is the use
  of a pointer that names no datapoint.
\<close>

unbundle bit_operations_syntax

datatype xi_value_type = XI_VALUE_TYPE_I32 | XI_VALUE_TYPE_F32 | XI_VALUE_TYPE_STR

text \<open>The size of the string member, the library's default configuration value.\<close>

definition XI_VALUE_STRING_MAX_SIZE :: nat where
  "XI_VALUE_STRING_MAX_SIZE = 32"

type_synonym float32 = "32 word"

record xi_datapoint =
  value_type :: xi_value_type
  dp_value :: "8 word list"

type_synonym xi_datapoint_store = "ptr \<Rightarrow> xi_datapoint option"

text \<open>A datapoint is well formed when its union has the size of its largest member.\<close>

definition xi_datapoint_wf :: "xi_datapoint \<Rightarrow> bool" where
  "xi_datapoint_wf d = (length (dp_value d) = XI_VALUE_STRING_MAX_SIZE)"

definition dp_store_wf :: "xi_datapoint_store \<Rightarrow> bool" where
  "dp_store_wf st = (\<forall>d \<in> ran st. xi_datapoint_wf d)"

subsection \<open>The union's bytes\<close>

text \<open>Storing and loading a 32-bit member of the union, in the byte order of a little-endian
  target.\<close>

definition le32_bytes :: "32 word \<Rightarrow> 8 word list" where
  "le32_bytes v = [ucast v, ucast (drop_bit 8 v), ucast (drop_bit 16 v), ucast (drop_bit 24 v)]"

fun le32_load :: "8 word list \<Rightarrow> 32 word" where
  "le32_load (b0 # b1 # b2 # b3 # _) =
     ucast b0 OR push_bit 8 (ucast b1) OR push_bit 16 (ucast b2) OR push_bit 24 (ucast b3)"
| "le32_load _ = 0"

definition union_store :: "8 word list \<Rightarrow> 8 word list \<Rightarrow> 8 word list" where
  "union_store ws bs = ws @ drop (length ws) bs"

text \<open>The C string a \<^verbatim>\<open>char*\<close> into the union shows: the bytes up to the first NUL.\<close>

definition c_string :: "8 word list \<Rightarrow> string" where
  "c_string bs = map (\<lambda>b. char_of (unat b)) (takeWhile (\<lambda>b. b \<noteq> 0) bs)"

definition char_byte :: "char \<Rightarrow> 8 word" where
  "char_byte c = of_nat (of_char c)"

text \<open>
  The two helpers \<^verbatim>\<open>xi_set_value_str\<close> calls are defined outside the repository
  (\<^verbatim>\<open>xi_helpers.c\<close>, \<^verbatim>\<open>xi_macros.h\<close>); they are modelled after their contracts.
  \<^verbatim>\<open>xi_str_copy_untiln\<close> copies characters of the source until the delimiter, the end of the
  source string or \<open>dst_size - 1\<close> characters, writes the terminating NUL and returns the number
  of characters copied; \<^verbatim>\<open>XI_CHECK_SIZE\<close> takes the error exit when that count is negative or
  not below the buffer size.
\<close>

definition xi_str_copy_untiln :: "nat \<Rightarrow> string \<Rightarrow> char \<Rightarrow> 8 word list \<times> int" where
  "xi_str_copy_untiln dst_size src delim =
     (let cs = take (dst_size - 1) (takeWhile (\<lambda>c. c \<noteq> delim \<and> c \<noteq> CHR 0x00) src)
      in (map char_byte cs @ [0], int (length cs)))"

definition XI_CHECK_SIZE_fails :: "int \<Rightarrow> nat \<Rightarrow> bool" where
  "XI_CHECK_SIZE_fails s bs = (s < 0 \<or> int bs \<le> s)"

subsection \<open>The accessors\<close>

text \<open>The precondition every accessor asserts, followed by the dereference.\<close>

definition xi_datapoint_at :: "xi_datapoint_store \<Rightarrow> ptr \<Rightarrow> c_fault + xi_datapoint" where
  "xi_datapoint_at st p =
     (if p = 0 then Inl Assert_fail
      else (case st p of None \<Rightarrow> Inl Use_after_free | Some d \<Rightarrow> Inr d))"

definition xi_get_value_type :: "xi_datapoint_store \<Rightarrow> ptr \<Rightarrow> c_fault + xi_value_type" where
  "xi_get_value_type st p = map_sum id value_type (xi_datapoint_at st p)"

definition xi_set_value_i32 ::
  "xi_datapoint_store \<Rightarrow> ptr \<Rightarrow> 32 word \<Rightarrow> c_fault + xi_datapoint_store \<times> ptr" where
  "xi_set_value_i32 st p v =
     (case xi_datapoint_at st p of
        Inl f \<Rightarrow> Inl f
      | Inr d \<Rightarrow> Inr (st(p \<mapsto> d\<lparr>dp_value := union_store (le32_bytes v) (dp_value d),
                                value_type := XI_VALUE_TYPE_I32\<rparr>), p))"

definition xi_get_value_i32 :: "xi_datapoint_store \<Rightarrow> ptr \<Rightarrow> c_fault + 32 word" where
  "xi_get_value_i32 st p =
     (case xi_datapoint_at st p of
        Inl f \<Rightarrow> Inl f
      | Inr d \<Rightarrow> if value_type d \<noteq> XI_VALUE_TYPE_I32 then Inl Assert_fail
                 else Inr (le32_load (dp_value d)))"

text \<open>The pointer functions return the address of the union (\<open>Some p\<close>, the union of
  datapoint \<open>p\<close>) or \<^verbatim>\<open>NULL\<close> (\<open>None\<close>).\<close>

definition xi_value_pointer_i32 :: "xi_datapoint_store \<Rightarrow> ptr \<Rightarrow> c_fault + ptr option" where
  "xi_value_pointer_i32 st p =
     map_sum id (\<lambda>d. if value_type d = XI_VALUE_TYPE_I32 then Some p else None) (xi_datapoint_at st p)"

definition xi_set_value_f32 ::
  "xi_datapoint_store \<Rightarrow> ptr \<Rightarrow> float32 \<Rightarrow> c_fault + xi_datapoint_store \<times> ptr" where
  "xi_set_value_f32 st p v =
     (case xi_datapoint_at st p of
        Inl f \<Rightarrow> Inl f
      | Inr d \<Rightarrow> Inr (st(p \<mapsto> d\<lparr>dp_value := union_store (le32_bytes v) (dp_value d),
                                value_type := XI_VALUE_TYPE_F32\<rparr>), p))"

text \<open>\<^verbatim>\<open>xi_get_value_f32\<close> asserts the tag and then tests it again; the second test's else
  branch, returning \<open>0.\<close>, is only reached in a build without assertions.\<close>

definition xi_get_value_f32 :: "xi_datapoint_store \<Rightarrow> ptr \<Rightarrow> c_fault + float32" where
  "xi_get_value_f32 st p =
     (case xi_datapoint_at st p of
        Inl f \<Rightarrow> Inl f
      | Inr d \<Rightarrow> if value_type d \<noteq> XI_VALUE_TYPE_F32 then Inl Assert_fail
                 else Inr (if value_type d = XI_VALUE_TYPE_F32 then le32_load (dp_value d) else 0))"

definition xi_value_pointer_f32 :: "xi_datapoint_store \<Rightarrow> ptr \<Rightarrow> c_fault + ptr option" where
  "xi_value_pointer_f32 st p =
     map_sum id (\<lambda>d. if value_type d = XI_VALUE_TYPE_F32 then Some p else None) (xi_datapoint_at st p)"

text \<open>\<^verbatim>\<open>xi_set_value_str\<close> copies into the union first and checks the size after; on the error
  exit it returns the null pointer (\<open>0\<close>) with the union already written and the tag
  unchanged.\<close>

definition xi_set_value_str ::
  "xi_datapoint_store \<Rightarrow> ptr \<Rightarrow> string \<Rightarrow> c_fault + xi_datapoint_store \<times> ptr" where
  "xi_set_value_str st p value =
     (case xi_datapoint_at st p of
        Inl f \<Rightarrow> Inl f
      | Inr d \<Rightarrow>
          (case xi_str_copy_untiln XI_VALUE_STRING_MAX_SIZE value CHR 0x00 of
             (ws, s) \<Rightarrow>
               let d1 = d\<lparr>dp_value := union_store ws (dp_value d)\<rparr>
               in if XI_CHECK_SIZE_fails s XI_VALUE_STRING_MAX_SIZE then Inr (st(p \<mapsto> d1), 0)
                  else Inr (st(p \<mapsto> d1\<lparr>value_type := XI_VALUE_TYPE_STR\<rparr>), p)))"

definition xi_value_pointer_str :: "xi_datapoint_store \<Rightarrow> ptr \<Rightarrow> c_fault + ptr option" where
  "xi_value_pointer_str st p =
     map_sum id (\<lambda>d. if value_type d = XI_VALUE_TYPE_STR then Some p else None) (xi_datapoint_at st p)"

subsection \<open>A datapoint to run the accessors on\<close>

definition dp0 :: xi_datapoint where
  "dp0 = \<lparr>value_type = XI_VALUE_TYPE_I32, dp_value = replicate XI_VALUE_STRING_MAX_SIZE 0\<rparr>"

definition dp_store0 :: xi_datapoint_store where
  "dp_store0 = [1 \<mapsto> dp0]"


subsection \<open>Helper facts\<close>

lemma le32_load_union_store [simp]: "le32_load (union_store (le32_bytes v) bs) = v"
proof (rule bit_word_eqI)
  fix n assume "n < LENGTH(32)"
  then consider "n < 8" | "8 \<le> n" "n < 16" | "16 \<le> n" "n < 24" | "24 \<le> n" "n < 32"
    by fastforce
  then show "bit (le32_load (union_store (le32_bytes v) bs)) n = bit v n"
    by cases (auto simp: union_store_def le32_bytes_def bit_simps)
qed

lemma length_union_store [simp]: "length (union_store ws bs) = max (length ws) (length bs)"
  by (simp add: union_store_def)

lemma unat_char_byte [simp]: "unat (char_byte c) = of_char c"
  using nat_of_char_less_256 [of c] by (simp add: char_byte_def unat_of_nat)

lemma char_byte_eq_0 [simp]: "char_byte c = 0 \<longleftrightarrow> c = CHR 0x00"
proof -
  have "char_byte c = 0 \<longleftrightarrow> unat (char_byte c) = 0" by (simp only: unat_eq_zero)
  also have "\<dots> \<longleftrightarrow> of_char c = (of_char CHR 0x00 :: nat)" by simp
  finally show ?thesis by (simp only: of_char_eq_iff)
qed

lemma c_string_union_store [simp]:
  "CHR 0x00 \<notin> set cs \<Longrightarrow> c_string (union_store (map char_byte cs @ [0]) bs) = cs"
proof -
  assume "CHR 0x00 \<notin> set cs"
  then have "takeWhile (\<lambda>b. b \<noteq> 0) (map char_byte cs @ ys) = map char_byte cs @ takeWhile (\<lambda>b. b \<noteq> 0) ys"
    for ys by (induction cs) auto
  then show ?thesis by (simp add: c_string_def union_store_def comp_def)
qed

lemma xi_datapoint_at_eq_Inr [simp]:
  "xi_datapoint_at st p = Inr d \<longleftrightarrow> p \<noteq> 0 \<and> st p = Some d"
  by (auto simp: xi_datapoint_at_def split: option.split)

lemma xi_datapoint_at_live [simp]:
  "p \<noteq> 0 \<Longrightarrow> st p = Some d \<Longrightarrow> xi_datapoint_at st p = Inr d"
  by simp

lemma xi_datapoint_at_cases:
  obtains "xi_datapoint_at st p = Inl Assert_fail" | "xi_datapoint_at st p = Inl Use_after_free"
    | d where "p \<noteq> 0" "st p = Some d" "xi_datapoint_at st p = Inr d"
  by (cases "p = 0"; cases "st p") (auto simp: xi_datapoint_at_def)

lemma dp_store_wf_upd:
  "dp_store_wf st \<Longrightarrow> xi_datapoint_wf d \<Longrightarrow> dp_store_wf (st(p \<mapsto> d))"
  by (auto simp: dp_store_wf_def ran_def)

lemma xi_set_value_i32_Inr:
  "xi_set_value_i32 st p v = Inr (st', p') \<longleftrightarrow>
   (\<exists>d. p \<noteq> 0 \<and> st p = Some d \<and> p' = p \<and>
        st' = st(p \<mapsto> d\<lparr>dp_value := union_store (le32_bytes v) (dp_value d), value_type := XI_VALUE_TYPE_I32\<rparr>))"
  by (cases st p rule: xi_datapoint_at_cases) (auto simp: xi_set_value_i32_def)

lemma xi_set_value_f32_Inr:
  "xi_set_value_f32 st p v = Inr (st', p') \<longleftrightarrow>
   (\<exists>d. p \<noteq> 0 \<and> st p = Some d \<and> p' = p \<and>
        st' = st(p \<mapsto> d\<lparr>dp_value := union_store (le32_bytes v) (dp_value d), value_type := XI_VALUE_TYPE_F32\<rparr>))"
  by (cases st p rule: xi_datapoint_at_cases) (auto simp: xi_set_value_f32_def)

lemma xi_str_copy_untiln_count:
  "snd (xi_str_copy_untiln n s c) = int (length (take (n - 1) (takeWhile (\<lambda>x. x \<noteq> c \<and> x \<noteq> CHR 0x00) s)))"
  by (simp add: xi_str_copy_untiln_def Let_def)

text \<open>With the buffer of the configuration the size check never fails: the copy returns at most
  \<open>XI_VALUE_STRING_MAX_SIZE - 1\<close>.\<close>

lemma xi_set_value_str_live:
  fixes str :: string
  assumes "p \<noteq> 0" "st p = Some d"
  defines "cs \<equiv> take (XI_VALUE_STRING_MAX_SIZE - 1) (takeWhile (\<lambda>x. x \<noteq> CHR 0x00) str)"
  shows "xi_set_value_str st p str =
           Inr (st(p \<mapsto> d\<lparr>dp_value := union_store (map char_byte cs @ [0]) (dp_value d),
                         value_type := XI_VALUE_TYPE_STR\<rparr>), p)"
proof -
  have "length cs < XI_VALUE_STRING_MAX_SIZE" by (simp add: cs_def XI_VALUE_STRING_MAX_SIZE_def)
  then show ?thesis
    using assms by (simp add: xi_set_value_str_def xi_str_copy_untiln_def XI_CHECK_SIZE_fails_def Let_def,
        simp add: XI_VALUE_STRING_MAX_SIZE_def)
qed

lemma xi_set_value_str_Inr:
  assumes "xi_set_value_str st p str = Inr (st', p')"
  shows "\<exists>d. p \<noteq> 0 \<and> st p = Some d \<and> p' = p \<and>
           st' = st(p \<mapsto> d\<lparr>dp_value := union_store (map char_byte (take (XI_VALUE_STRING_MAX_SIZE - 1)
                        (takeWhile (\<lambda>x. x \<noteq> CHR 0x00) str)) @ [0]) (dp_value d),
                        value_type := XI_VALUE_TYPE_STR\<rparr>)"
proof (cases st p rule: xi_datapoint_at_cases)
  case (3 d)
  then show ?thesis using assms 3 xi_set_value_str_live [where st = st and p = p and d = d and str = str] by auto
qed (use assms in \<open>simp_all add: xi_set_value_str_def\<close>)

lemma xi_datapoint_wf_set_value:
  "xi_datapoint_wf d \<Longrightarrow> xi_datapoint_wf (d\<lparr>dp_value := union_store (le32_bytes v) (dp_value d), value_type := ty\<rparr>)"
  "xi_datapoint_wf d \<Longrightarrow> length cs < XI_VALUE_STRING_MAX_SIZE \<Longrightarrow>
   xi_datapoint_wf (d\<lparr>dp_value := union_store (map char_byte cs @ [0]) (dp_value d), value_type := ty\<rparr>)"
  by (auto simp: xi_datapoint_wf_def le32_bytes_def XI_VALUE_STRING_MAX_SIZE_def)

lemma dp_store_wf_at: "dp_store_wf st \<Longrightarrow> st p = Some d \<Longrightarrow> xi_datapoint_wf d"
  by (auto simp: dp_store_wf_def intro: ranI)

subsection \<open>Properties\<close>

text \<open>C24. Setting a 32-bit integer and reading it back gives the same value: the store of
  \<^verbatim>\<open>i32_value\<close> into the union's bytes and the load from them are inverse, and the datapoint is
  tagged as an integer.\<close>

theorem xi_datapoint_i32_roundtrip:
  assumes "xi_set_value_i32 st p v = Inr (st', p')"
  shows "p' = p \<and> xi_get_value_i32 st' p = Inr v \<and> xi_get_value_type st' p = Inr XI_VALUE_TYPE_I32 \<and>
         xi_value_pointer_i32 st' p = Inr (Some p)"
  using assms
  by (auto simp: xi_set_value_i32_Inr xi_get_value_i32_def xi_get_value_type_def xi_value_pointer_i32_def)

theorem xi_datapoint_i32_roundtrip_witness:
  "xi_get_value_i32 (dp_store0(1 \<mapsto> dp0\<lparr>dp_value := union_store (le32_bytes (- 5)) (dp_value dp0),
                                         value_type := XI_VALUE_TYPE_I32\<rparr>)) 1 = Inr (- 5)"
  using xi_datapoint_i32_roundtrip [of dp_store0 1 "- 5"
      "dp_store0(1 \<mapsto> dp0\<lparr>dp_value := union_store (le32_bytes (- 5)) (dp_value dp0), value_type := XI_VALUE_TYPE_I32\<rparr>)" 1]
  by (simp add: xi_set_value_i32_def dp_store0_def)

text \<open>C25. The type tag guards the union: after a float is set, the float reads back and its
  pointer is returned, the integer and string pointer functions return \<^verbatim>\<open>NULL\<close>, and reading the
  integer member fails its assertion.\<close>

theorem xi_datapoint_f32_tag:
  assumes "xi_set_value_f32 st p v = Inr (st', p')"
  shows "p' = p \<and> xi_get_value_f32 st' p = Inr v \<and> xi_value_pointer_f32 st' p = Inr (Some p) \<and>
         xi_value_pointer_i32 st' p = Inr None \<and> xi_value_pointer_str st' p = Inr None \<and>
         xi_get_value_i32 st' p = Inl Assert_fail"
  using assms
  by (auto simp: xi_set_value_f32_Inr xi_get_value_f32_def xi_value_pointer_f32_def xi_value_pointer_i32_def
      xi_value_pointer_str_def xi_get_value_i32_def)

theorem xi_datapoint_f32_tag_witness:
  "xi_value_pointer_i32 (dp_store0(1 \<mapsto> dp0\<lparr>dp_value := union_store (le32_bytes 0x3f800000) (dp_value dp0),
                                              value_type := XI_VALUE_TYPE_F32\<rparr>)) 1 = Inr None"
  using xi_datapoint_f32_tag [of dp_store0 1 "0x3f800000"
      "dp_store0(1 \<mapsto> dp0\<lparr>dp_value := union_store (le32_bytes 0x3f800000) (dp_value dp0), value_type := XI_VALUE_TYPE_F32\<rparr>)" 1]
  by (simp add: xi_set_value_f32_def dp_store0_def)

text \<open>C26. A string shorter than the union and free of NUL characters reads back unchanged
  through the string pointer, and the numeric getters then fail their assertions.\<close>

theorem xi_datapoint_str_roundtrip:
  assumes "xi_set_value_str st p s = Inr (st', p')"
    and "length s < XI_VALUE_STRING_MAX_SIZE" "CHR 0x00 \<notin> set s"
  shows "p' = p \<and> xi_value_pointer_str st' p = Inr (Some p) \<and>
         map_option (c_string \<circ> dp_value) (st' p) = Some s \<and>
         xi_get_value_i32 st' p = Inl Assert_fail \<and> xi_get_value_f32 st' p = Inl Assert_fail"
proof -
  have tw: "takeWhile (\<lambda>x. x \<noteq> CHR 0x00) s = s"
    using assms(3) by (auto simp: takeWhile_eq_all_conv)
  have "length s \<le> XI_VALUE_STRING_MAX_SIZE - 1"
    using assms(2) by arith
  then have s: "take (XI_VALUE_STRING_MAX_SIZE - 1) (takeWhile (\<lambda>x. x \<noteq> CHR 0x00) s) = s"
    by (simp only: tw) (rule take_all)
  show ?thesis
    using xi_set_value_str_Inr [OF assms(1), unfolded s] assms(3)
    by (auto simp: xi_value_pointer_str_def xi_get_value_i32_def xi_get_value_f32_def)
qed

theorem xi_datapoint_str_roundtrip_witness:
  "map_option (c_string \<circ> dp_value) (fst (projr (xi_set_value_str dp_store0 1 ''42.5'')) 1) = Some ''42.5''"
proof -
  obtain st' p' where r: "xi_set_value_str dp_store0 1 ''42.5'' = Inr (st', p')"
    by (simp add: xi_set_value_str_live dp_store0_def)
  show ?thesis
    using xi_datapoint_str_roundtrip [OF r] r by (simp add: XI_VALUE_STRING_MAX_SIZE_def)
qed

text \<open>C27. The buffer-overflow exit of \<^verbatim>\<open>xi_set_value_str\<close> is never taken: on a live datapoint
  it always returns the datapoint, never the null pointer, and a string too long for the union
  is silently cut to \<open>XI_VALUE_STRING_MAX_SIZE - 1\<close> characters.\<close>

theorem xi_set_value_str_never_reports_overflow:
  assumes "p \<noteq> 0" "st p = Some d"
  shows "\<exists>st'. xi_set_value_str st p s = Inr (st', p) \<and>
           map_option (c_string \<circ> dp_value) (st' p) =
             Some (take (XI_VALUE_STRING_MAX_SIZE - 1) (takeWhile (\<lambda>c. c \<noteq> CHR 0x00) s))"
proof -
  have "CHR 0x00 \<notin> set (take (XI_VALUE_STRING_MAX_SIZE - 1) (takeWhile (\<lambda>c. c \<noteq> CHR 0x00) s))"
    by (auto dest: in_set_takeD set_takeWhileD)
  then show ?thesis using xi_set_value_str_live [where st = st and p = p and d = d and str = s] assms by simp
qed

theorem xi_set_value_str_never_reports_overflow_witness:
  "\<exists>st'. xi_set_value_str dp_store0 1 (replicate 40 CHR ''a'') = Inr (st', 1) \<and>
     map_option (c_string \<circ> dp_value) (st' 1) = Some (replicate 31 CHR ''a'')"
  using xi_set_value_str_never_reports_overflow [of 1 dp_store0 dp0 "replicate 40 CHR ''a''"]
  by (simp add: dp_store0_def XI_VALUE_STRING_MAX_SIZE_def)

text \<open>C28. The setters keep every datapoint of the store well formed: the union keeps the size
  of its string member whatever member is written.\<close>

theorem xi_datapoint_setters_preserve_wf:
  assumes "dp_store_wf st"
  shows "(\<forall>st' q. xi_set_value_i32 st p v = Inr (st', q) \<longrightarrow> dp_store_wf st') \<and>
         (\<forall>st' q. xi_set_value_f32 st p w = Inr (st', q) \<longrightarrow> dp_store_wf st') \<and>
         (\<forall>st' q. xi_set_value_str st p s = Inr (st', q) \<longrightarrow> dp_store_wf st')"
proof (intro conjI allI impI)
  fix st' q
  assume "xi_set_value_str st p s = Inr (st', q)"
  then show "dp_store_wf st'"
    using xi_set_value_str_Inr assms
    by (fastforce intro!: dp_store_wf_upd xi_datapoint_wf_set_value(2) dest: dp_store_wf_at
        simp: XI_VALUE_STRING_MAX_SIZE_def)
qed (use assms in \<open>auto simp: xi_set_value_i32_Inr xi_set_value_f32_Inr
     intro!: dp_store_wf_upd xi_datapoint_wf_set_value(1) dest: dp_store_wf_at\<close>)

theorem xi_datapoint_setters_preserve_wf_witness:
  "dp_store_wf (fst (projr (xi_set_value_str dp_store0 1 ''abc'')))"
proof -
  have wf: "dp_store_wf dp_store0"
    by (simp add: dp_store_wf_def dp_store0_def xi_datapoint_wf_def dp0_def)
  obtain st' where r: "xi_set_value_str dp_store0 1 ''abc'' = Inr (st', 1)"
    by (simp add: xi_set_value_str_live dp_store0_def)
  show ?thesis
    using xi_datapoint_setters_preserve_wf [OF wf, of 1 0 0 "''abc''"] r by simp
qed

end
