(* ===== verification/Spec2Isabelle.thy ===== *)
theory Spec2Isabelle
  imports Heap_Properties Heap_Alloc Xively_Http Xively_Context Xively_Nob Xively_Mqtt Xively_Datapoint
begin

text \<open>
  \<^bold>\<open>A verification development of libxively\<close>, the Xively C client library of this
  repository. It is a shallow embedding: every function of the repository's code is a HOL
  function over explicit state, and every fault of the C code is a value.

  \<^bold>\<open>The program.\<close> The code under \<^verbatim>\<open>src/src/libxively\<close> has four parts.
  \<^item> \<^verbatim>\<open>xi_datastructures/xi_heap.c\<close> is a binary min-heap of handles. The event dispatcher
    uses it to schedule; the dispatcher's code is not in the repository.
  \<^item> \<^verbatim>\<open>xively.c\<close> is the public API. It holds the network timeout, the datapoint value
    accessors and context creation and deletion. It also holds three families of entry
    points: the nine blocking HTTP calls, the nine non-blocking (NOB) HTTP calls, and the MQTT
    calls (\<^verbatim>\<open>xi_mqtt_publish\<close>, \<^verbatim>\<open>xi_nob_mqtt_connect\<close>, \<^verbatim>\<open>xi_nob_mqtt_publish\<close>,
    \<^verbatim>\<open>xi_nob_mqtt_subscribe\<close>). The preprocessor selects one build out of
    \<^verbatim>\<open>XI_MQTT_ENABLED\<close> and \<^verbatim>\<open>XI_NOB_ENABLED\<close>. A context owns a layer chain, and each
    entry point drives that chain through the \<^verbatim>\<open>CALL_ON_SELF_*\<close> macros.
  \<^item> \<^verbatim>\<open>mqtt/logic_layer/xi_mqtt_logic_layer.c\<close> is the top layer of the MQTT chain.
  \<^item> \<^verbatim>\<open>mqtt/codec/parser.h\<close> and \<^verbatim>\<open>csv/xi_csv_layer.h\<close> are headers only.

  \<^bold>\<open>The theories.\<close>
  \<^item> \<open>Prelude\<close>: pointers (\<open>ptr\<close>), the faults \<open>c_fault\<close> (out of bounds, null
    dereference, use after free, failed assertion, indeterminate value), the checked read
    \<open>array_get\<close>, and shared list lemmas.
  \<^item> \<open>Heap_Index\<close>: the macros \<^verbatim>\<open>LEFT\<close>, \<^verbatim>\<open>RIGHT\<close> and \<^verbatim>\<open>PARENT\<close>, over \<open>nat\<close> and over
    words of any width.
  \<^item> \<open>Heap\<close>: the record \<open>xi_heap\<close> (slots, cell pool, capacity, first free slot) and one
    definition per function of \<^verbatim>\<open>xi_heap.c\<close>. The two sift loops \<^verbatim>\<open>xi_heap_fix_order_up\<close> and
    \<^verbatim>\<open>xi_heap_fix_order_down\<close> are \<open>function\<close>s terminating by measure: the index for the
    sift-up, \<open>first_free - index\<close> for the sift-down loop. \<open>Heap_Order\<close> defines the heap
    order and the multiset of keys.
  \<^item> \<open>Heap_Properties\<close> (C1 to C9): the invariant and refinement lemmas. On well-formed
    ordered heaps, insertion, extraction of the top, removal from a leaf slot and key update
    are refinements of the multiset of keys. The theory also characterises, for every heap,
    where the code departs from a heap: removal keeps the removed handle whenever the last slot
    is a larger child of its slot, and the capacity guard is off by one.
  \<^item> \<open>Heap_Alloc\<close> (C29, C30): the blocks of \<^verbatim>\<open>xi_heap_create\<close> and \<^verbatim>\<open>xi_heap_destroy\<close>,
    traced through the allocator.
  \<^item> \<open>Layer_Chain\<close>: the chain as a record of state-passing functions over an abstract
    world, and \<open>xi_http_request\<close>, the request sequence every blocking call runs. Each call
    the driver makes is recorded in a trace.
  \<^item> \<open>Xively_Http\<close> (C10 to C12): the nine blocking calls and their input descriptors, and the
    order of their calls on the chain, tied to the answers of the layers.
  \<^item> \<open>Xively_Context\<close> (C13 to C16): \<^verbatim>\<open>xi_create_context\<close>, \<^verbatim>\<open>xi_delete_context\<close> and the
    network timeout, for every build, over the store \<open>xi_globals\<close>. The store holds the
    allocated blocks and an allocation oracle, the dispatcher instance and its reference
    count, the shared static response and the timeout. The reachable states are an inductive
    set, and the reference-count lemma is proved over it by rule induction.
  \<^item> \<open>Xively_Nob\<close> (C17 to C19): the NOB HTTP calls. Each call's function-local static
    descriptor is a location of an explicit store, so two contexts that use the same call
    alias it.
  \<^item> \<open>Xively_Mqtt\<close> (C20 to C23): the MQTT message, the MQTT entry points with every
    allocation-failure exit, and the logic layer as the repository has it.
  \<^item> \<open>Xively_Datapoint\<close> (C24 to C28): the ten value accessors. The value union is one list
    of bytes shared by its three members, so that writing one member overwrites the others.

  \<^bold>\<open>What the lemmas show.\<close>
  \<^item> Invariants kept by every operation: heap well-formedness and order, the reference
    count of the reachable states, and the size of the datapoint union.
  \<^item> Functional refinements of the multiset of keys.
  \<^item> The order of the calls on the chain, as traces, and for each call the exact condition on
    the layers' answers under which it is made.
  \<^item> Every error exit of the allocation paths, as values of \<open>c_fault + _\<close>, for every
    allocator state whose oracle fails at that allocation.
  \<^item> Word-level round trips through the union bytes.
  \<^item> General statements of the defects listed as findings of the development, each with a
    witness evaluated by \<open>simp\<close> on a concrete input. The defects are: a removal that keeps
    the removed handle, an off-by-one capacity guard, a reference count that never counts, leaks and frees of uninitialised pointers on
    error exits, aliased static descriptors, void layer functions called through pointers
    that return a value, and a silently truncating string setter.

  \<^bold>\<open>Bounds and fuel.\<close> No definition needs fuel: every loop is structural recursion or a
  \<open>function\<close> with a termination proof.
  \<^item> Allocation failures are a finite oracle list, one Boolean per allocation, where
    \<open>False\<close> fails and the empty list always succeeds. So each run of an error path is a
    closed term.
  \<^item> The build is an argument (\<open>xi_build\<close>).
  \<^item> Heap indices are unbounded naturals. \<open>Heap_Index\<close> relates them to machine words.
  \<^item> The datapoint union uses the library's default \<^verbatim>\<open>XI_VALUE_STRING_MAX_SIZE\<close> of 32 and
    little-endian byte order.

  \<^bold>\<open>Not modelled.\<close>
  \<^item> The MQTT parser and serializer, and the CSV layer: only their headers are in the
    repository.
  \<^item> The io, HTTP and MQTT layers, the layer factory and the event dispatcher: they are not
    in the repository. The chain is modelled as an interface, and every property is stated
    for every chain.
  \<^item> The allocator's own code: replaced by the oracle.
  \<^item> \<^verbatim>\<open>mqtt_message_dump\<close>: it only logs.
  \<^item> The fixed-size buffers of \<^verbatim>\<open>message.h\<close>: their sizes are not in the repository, so the
    copies into them are assignments, and the message is a record rather than the C union.
  \<^item> The datapoint timestamp: no accessor touches it.
  \<^item> \<^verbatim>\<open>xi_str_copy_untiln\<close> and \<^verbatim>\<open>XI_CHECK_SIZE\<close>, which are defined outside the repository:
    they are modelled after their contracts.
\<close>

end
